theory Spec2Isabelle
  imports Complex_Main
begin

section \<open>Python strings\<close>

text \<open>
  Source text is a \<^typ>\<open>string\<close>: a list of 8-bit characters.  The model reads the
  repository's files as ASCII text: \<open>str.lower\<close>, \<open>str.isspace\<close> and the regular
  expression classes \<open>\w\<close> and \<open>\s\<close> are the ASCII restrictions of Python's
  Unicode-aware functions.
\<close>

definition is_space :: "char \<Rightarrow> bool" where
  \<comment> \<open>\<open>str.isspace\<close> on one ASCII character: TAB, LF, VT, FF, CR, FS, GS, RS, US, space\<close>
  "is_space c = (c \<in> set [CHR 0x09, CHR 0x0A, CHR 0x0B, CHR 0x0C, CHR 0x0D,
                            CHR 0x1C, CHR 0x1D, CHR 0x1E, CHR 0x1F, CHR 0x20])"

definition lower_char :: "char \<Rightarrow> char" where
  "lower_char c = (let n = (of_char c :: nat) in if 65 \<le> n \<and> n \<le> 90 then char_of (n + 32) else c)"

definition lower :: "string \<Rightarrow> string" where
  \<comment> \<open>\<open>s.lower()\<close>\<close>
  "lower s = map lower_char s"

fun split_acc :: "string \<Rightarrow> string \<Rightarrow> string list" where
  "split_acc cur [] = (if cur = [] then [] else [cur])"
| "split_acc cur (c # cs) =
     (if is_space c then (if cur = [] then split_acc [] cs else cur # split_acc [] cs)
      else split_acc (cur @ [c]) cs)"

definition py_split :: "string \<Rightarrow> string list" where
  \<comment> \<open>\<open>s.split()\<close>: the maximal runs of non-whitespace characters\<close>
  "py_split s = split_acc [] s"

fun split_on_acc :: "char \<Rightarrow> string \<Rightarrow> string \<Rightarrow> string list" where
  "split_on_acc sep cur [] = [cur]"
| "split_on_acc sep cur (c # cs) =
     (if c = sep then cur # split_on_acc sep [] cs else split_on_acc sep (cur @ [c]) cs)"

definition split_on :: "char \<Rightarrow> string \<Rightarrow> string list" where
  \<comment> \<open>\<open>s.split(sep)\<close> for a one-character separator; never the empty list\<close>
  "split_on sep s = split_on_acc sep [] s"

definition lstrip :: "string \<Rightarrow> string" where
  "lstrip s = dropWhile is_space s"

definition strip :: "string \<Rightarrow> string" where
  \<comment> \<open>\<open>s.strip()\<close>\<close>
  "strip s = rev (dropWhile is_space (rev (dropWhile is_space s)))"

definition startswith :: "string \<Rightarrow> string \<Rightarrow> bool" where
  \<comment> \<open>\<open>s.startswith(p)\<close>\<close>
  "startswith s p = (take (length p) s = p)"

definition endswith :: "string \<Rightarrow> string \<Rightarrow> bool" where
  \<comment> \<open>\<open>s.endswith(p)\<close>\<close>
  "endswith s p = (length p \<le> length s \<and> drop (length s - length p) s = p)"

fun py_in :: "string \<Rightarrow> string \<Rightarrow> bool" where
  \<comment> \<open>\<open>sub in s\<close>: \<open>sub\<close> occurs in \<open>s\<close> as a contiguous substring\<close>
  "py_in sub [] = (sub = [])"
| "py_in sub (c # cs) = (startswith (c # cs) sub \<or> py_in sub cs)"

fun get_or :: "('k \<times> 'v) list \<Rightarrow> 'k \<Rightarrow> 'v \<Rightarrow> 'v" where
  \<comment> \<open>\<open>d.get(k, default)\<close> on a dict kept as an association list in insertion order\<close>
  "get_or [] k d = d"
| "get_or ((k', v) # kvs) k d = (if k' = k then v else get_or kvs k d)"

section \<open>models.py\<close>

datatype NodeType = FILE | CLASS | FUNCTION | METHOD | VARIABLE | IMPORT | INTERFACE | ENUM
  | MODULE | NAMESPACE

datatype RelationshipType = CALLS | INHERITS | IMPORTS | USES | DEFINES | CONTAINS | DEPENDS_ON
  | IMPLEMENTS | EXTENDS

datatype ParsingStatus = PENDING | PROCESSING | COMPLETED | FAILED | DISABLED

record LanguageConfig =
  language :: string
  file_extensions :: "string list"
  tree_sitter_grammar :: string
  supported_node_types :: "NodeType list"
  complexity_enabled :: bool

section \<open>parser.py: the language registry\<close>

definition mk_config :: "string \<Rightarrow> string list \<Rightarrow> string \<Rightarrow> NodeType list \<Rightarrow> bool \<Rightarrow> LanguageConfig" where
  "mk_config l exts g nts ce =
     \<lparr>language = l, file_extensions = exts, tree_sitter_grammar = g,
      supported_node_types = nts, complexity_enabled = ce\<rparr>"

definition language_configs :: "(string \<times> LanguageConfig) list" where
  \<comment> \<open>\<open>TreeSitterParser._initialize_language_configs\<close>, in the dict's insertion order\<close>
  "language_configs =
   [(''python'', mk_config ''python'' [''.py'', ''.pyi''] ''python''
       [FILE, CLASS, FUNCTION, METHOD, VARIABLE, IMPORT] True),
    (''javascript'', mk_config ''javascript'' [''.js'', ''.jsx'', ''.mjs''] ''javascript''
       [FILE, CLASS, FUNCTION, METHOD, VARIABLE, IMPORT] True),
    (''typescript'', mk_config ''typescript'' [''.ts'', ''.tsx''] ''typescript''
       [FILE, CLASS, FUNCTION, METHOD, VARIABLE, IMPORT, INTERFACE] True),
    (''java'', mk_config ''java'' [''.java''] ''java''
       [FILE, CLASS, METHOD, VARIABLE, IMPORT, INTERFACE] True),
    (''c'', mk_config ''c'' [''.c'', ''.h''] ''c'' [FILE, FUNCTION, VARIABLE] True),
    (''cpp'', mk_config ''cpp'' [''.cpp'', ''.cxx'', ''.cc'', ''.hpp'', ''.hxx''] ''cpp''
       [FILE, CLASS, FUNCTION, METHOD, VARIABLE, NAMESPACE] True),
    (''csharp'', mk_config ''csharp'' [''.cs''] ''c_sharp''
       [FILE, CLASS, METHOD, VARIABLE, IMPORT, INTERFACE, NAMESPACE] True),
    (''go'', mk_config ''go'' [''.go''] ''go'' [FILE, FUNCTION, METHOD, VARIABLE, IMPORT] True),
    (''rust'', mk_config ''rust'' [''.rs''] ''rust''
       [FILE, FUNCTION, METHOD, VARIABLE, ENUM, MODULE] True),
    (''php'', mk_config ''php'' [''.php''] ''php''
       [FILE, CLASS, FUNCTION, METHOD, VARIABLE] True),
    (''ruby'', mk_config ''ruby'' [''.rb''] ''ruby'' [FILE, CLASS, METHOD, VARIABLE, MODULE] True),
    (''swift'', mk_config ''swift'' [''.swift''] ''swift''
       [FILE, CLASS, FUNCTION, METHOD, VARIABLE, IMPORT] True),
    (''kotlin'', mk_config ''kotlin'' [''.kt'', ''.kts''] ''kotlin''
       [FILE, CLASS, FUNCTION, METHOD, VARIABLE, IMPORT] True),
    (''scala'', mk_config ''scala'' [''.scala''] ''scala''
       [FILE, CLASS, FUNCTION, METHOD, VARIABLE, IMPORT] True),
    (''haskell'', mk_config ''haskell'' [''.hs''] ''haskell''
       [FILE, FUNCTION, VARIABLE, MODULE, IMPORT] True),
    (''lua'', mk_config ''lua'' [''.lua''] ''lua'' [FILE, FUNCTION, VARIABLE] True),
    (''perl'', mk_config ''perl'' [''.pl'', ''.pm''] ''perl'' [FILE, FUNCTION, VARIABLE] True),
    (''r'', mk_config ''r'' [''.r'', ''.R''] ''r'' [FILE, FUNCTION, VARIABLE] True),
    (''bash'', mk_config ''bash'' [''.sh'', ''.bash''] ''bash'' [FILE, FUNCTION, VARIABLE] False),
    (''yaml'', mk_config ''yaml'' [''.yml'', ''.yaml''] ''yaml'' [FILE] False),
    (''json'', mk_config ''json'' [''.json''] ''json'' [FILE] False)]"

section \<open>parser.py: complexity scoring\<close>





section \<open>pathlib (POSIX flavour) and fnmatch\<close>

text \<open>
  The library functions the filters call, for POSIX paths: \<open>Path(p).parts\<close> keeps a
  root (\<open>/\<close>, or \<open>//\<close> for exactly two leading slashes) and the components other than
  the empty one and \<open>.\<close>; \<open>name\<close> is the last component, \<open>suffix\<close> the part of the name
  from its last dot when that dot is neither first nor last; \<open>str(path)\<close> joins the
  components again.
\<close>

definition path_root :: "string \<Rightarrow> string" where
  "path_root p =
     (if startswith p ''//'' \<and> \<not> startswith p ''///'' then ''//''
      else if startswith p ''/'' then ''/'' else [])"

definition path_names :: "string \<Rightarrow> string list" where
  "path_names p = filter (\<lambda>x. x \<noteq> [] \<and> x \<noteq> ''.'') (split_on (CHR ''/'') p)"

definition path_parts :: "string \<Rightarrow> string list" where
  \<comment> \<open>\<open>Path(p).parts\<close>\<close>
  "path_parts p = (if path_root p = [] then [] else [path_root p]) @ path_names p"

definition path_name :: "string \<Rightarrow> string" where
  \<comment> \<open>\<open>Path(p).name\<close>\<close>
  "path_name p = (if path_names p = [] then [] else last (path_names p))"

fun join_with :: "string \<Rightarrow> string list \<Rightarrow> string" where
  \<comment> \<open>\<open>sep.join(xs)\<close>\<close>
  "join_with sep [] = []"
| "join_with sep [x] = x"
| "join_with sep (x # y # ys) = x @ sep @ join_with sep (y # ys)"

definition path_str :: "string \<Rightarrow> string" where
  \<comment> \<open>\<open>str(Path(p))\<close>\<close>
  "path_str p =
     (if path_root p = [] \<and> path_names p = [] then ''.''
      else path_root p @ join_with ''/'' (path_names p))"

fun rfind_dot :: "string \<Rightarrow> nat option" where
  \<comment> \<open>\<open>name.rfind('.')\<close>, \<open>None\<close> for Python's \<open>-1\<close>\<close>
  "rfind_dot [] = None"
| "rfind_dot (c # cs) =
     (case rfind_dot cs of
        Some i \<Rightarrow> Some (Suc i)
      | None \<Rightarrow> if c = CHR ''.'' then Some 0 else None)"

definition path_suffix :: "string \<Rightarrow> string" where
  \<comment> \<open>\<open>Path(p).suffix\<close>\<close>
  "path_suffix p =
     (let name = path_name p in
      case rfind_dot name of
        Some i \<Rightarrow> if 0 < i \<and> i + 1 < length name then drop i name else []
      | None \<Rightarrow> [])"

fun fnmatch_pat :: "string \<Rightarrow> string \<Rightarrow> bool" where
  \<comment> \<open>\<open>fnmatch.fnmatch(name, pat)\<close> on POSIX, pattern first: \<open>*\<close> matches any run of
      characters, \<open>?\<close> any one character, every other character itself.  Bracket classes
      are not modelled: no pattern of the filter's table has a bracket.\<close>
  "fnmatch_pat [] name = (name = [])"
| "fnmatch_pat (p # ps) name =
     (if p = CHR ''*'' then
        (fnmatch_pat ps name \<or> (case name of [] \<Rightarrow> False | c # cs \<Rightarrow> fnmatch_pat (p # ps) cs))
      else
        (case name of
           [] \<Rightarrow> False
         | c # cs \<Rightarrow> (p = CHR ''?'' \<or> p = c) \<and> fnmatch_pat ps cs))"

definition fnmatch :: "string \<Rightarrow> string \<Rightarrow> bool" where
  "fnmatch name pat = fnmatch_pat pat name"

section \<open>file_filter.py\<close>

record FileFilter =
  excluded_extensions :: "string list"
  excluded_patterns :: "string list"
  excluded_directories :: "string list"
  max_file_size_kb :: int

definition default_excluded_extensions :: "string list" where
  \<comment> \<open>\<open>_get_default_excluded_extensions\<close>; a set in the source, read only by membership\<close>
  "default_excluded_extensions =
   [''.yaml'', ''.yml'', ''.json'', ''.toml'', ''.ini'', ''.cfg'', ''.conf'',
    ''.md'', ''.txt'', ''.rst'', ''.adoc'', ''.tex'',
    ''.lock'', ''.frozen'', ''.pipfile'', ''.poetry.lock'', ''package-lock.json'',
    ''yarn.lock'', ''composer.lock'', ''Gemfile.lock'', ''Cargo.lock'',
    ''.png'', ''.jpg'', ''.jpeg'', ''.gif'', ''.bmp'', ''.svg'', ''.ico'',
    ''.pdf'', ''.doc'', ''.docx'', ''.xls'', ''.xlsx'', ''.ppt'', ''.pptx'',
    ''.zip'', ''.tar'', ''.gz'', ''.bz2'', ''.rar'', ''.7z'',
    ''.exe'', ''.bin'', ''.so'', ''.dll'', ''.dylib'',
    ''.swp'', ''.swo'', ''.tmp'', ''.bak'', ''.backup'', ''.orig'',
    ''.ds_store'', ''thumbs.db'', ''desktop.ini'',
    ''.log'', ''.logs'',
    ''.db'', ''.sqlite'', ''.sqlite3'',
    ''.pem'', ''.key'', ''.crt'', ''.cer'', ''.p12'', ''.pfx'',
    ''.env'', ''.env.local'', ''.env.production'', ''.env.development'',
    ''.min.js'', ''.min.css'', ''.bundle.js'', ''.bundle.css'']"

definition default_excluded_patterns :: "string list" where
  \<comment> \<open>\<open>_get_default_excluded_patterns\<close>\<close>
  "default_excluded_patterns =
   [''package-lock.json'', ''yarn.lock'', ''composer.lock'', ''Gemfile.lock'',
    ''Pipfile.lock'', ''poetry.lock'', ''Cargo.lock'', ''go.sum'',
    ''requirements*.txt'', ''setup.py'', ''setup.cfg'', ''pyproject.toml'',
    ''Makefile'', ''makefile'', ''CMakeLists.txt'', ''Dockerfile*'',
    ''docker-compose*.yml'', ''docker-compose*.yaml'',
    ''.gitignore'', ''.gitattributes'', ''.gitmodules'',
    ''.eslintrc*'', ''.prettierrc*'', ''.editorconfig'', ''.babelrc*'',
    ''tsconfig*.json'', ''webpack*.js'', ''rollup*.js'', ''vite*.js'',
    ''.travis.yml'', ''.circleci*'', ''appveyor.yml'', ''azure-pipelines.yml'',
    ''.github/workflows/*'', ''.gitlab-ci.yml'', ''Jenkinsfile'',
    ''.vscode/*'', ''.idea/*'', ''*.sublime-*'', ''.vs/*'',
    ''LICENSE*'', ''COPYING*'', ''COPYRIGHT*'', ''NOTICE*'',
    ''DISCLAIMER*'', ''TERMS*'', ''PRIVACY*'',
    ''README*'', ''CHANGELOG*'', ''HISTORY*'', ''AUTHORS*'', ''CONTRIBUTORS*'',
    ''INSTALL*'', ''USAGE*'', ''TUTORIAL*'', ''GUIDE*'', ''FAQ*'',
    ''*.generated.*'', ''*.gen.*'', ''*_pb2.py'', ''*_pb2_grpc.py'',
    ''*.fixture.*'', ''*.mock.*'', ''test_data/*'', ''fixtures/*'',
    ''*.min.*'', ''*.bundle.*'', ''*.chunk.*'']"

definition default_excluded_directories :: "string list" where
  \<comment> \<open>\<open>_get_default_excluded_directories\<close>; a set in the source, read only by membership\<close>
  "default_excluded_directories =
   [''node_modules'', ''__pycache__'', ''.pytest_cache'', ''.tox'', ''venv'', ''.venv'',
    ''env'', ''.env'', ''virtualenv'', ''site-packages'', ''vendor'', ''third_party'',
    ''build'', ''dist'', ''out'', ''output'', ''target'', ''bin'', ''obj'',
    ''.next'', ''.nuxt'', ''public'', ''static'', ''assets'',
    ''.vscode'', ''.idea'', ''.vs'', ''.sublime-text'', ''.atom'',
    ''.git'', ''.svn'', ''.hg'', ''.bzr'',
    ''.DS_Store'', ''Thumbs.db'',
    ''.cache'', ''cache'', ''.tmp'', ''tmp'', ''temp'',
    ''_build'', ''docs/_build'', ''site'', ''_site'',
    ''test_data'', ''testdata'', ''fixtures'', ''samples'',
    ''generated'', ''gen'', ''auto'', ''autogen'']"

definition FileFilter_init :: FileFilter where
  \<comment> \<open>\<open>FileFilter.__init__\<close>\<close>
  "FileFilter_init =
     \<lparr>excluded_extensions = default_excluded_extensions,
      excluded_patterns = default_excluded_patterns,
      excluded_directories = default_excluded_directories,
      max_file_size_kb = 500\<rparr>"

definition part_is_excluded :: "FileFilter \<Rightarrow> string \<Rightarrow> bool" where
  \<comment> \<open>the body of the loop of \<open>_is_in_excluded_directory\<close>\<close>
  "part_is_excluded ff part =
     (lower part \<in> set (excluded_directories ff)
      \<or> (startswith part ''.'' \<and> drop 1 part \<in> set (excluded_directories ff)))"

definition is_in_excluded_directory :: "FileFilter \<Rightarrow> string \<Rightarrow> bool" where
  \<comment> \<open>\<open>FileFilter._is_in_excluded_directory\<close>, on the path's text\<close>
  "is_in_excluded_directory ff p = list_ex (part_is_excluded ff) (path_parts p)"

definition pattern_hits :: "string \<Rightarrow> string \<Rightarrow> bool" where
  \<comment> \<open>the body of the loop of \<open>_matches_excluded_pattern\<close>, \<open>filename_lower\<close> first\<close>
  "pattern_hits filename_lower pattern =
     (if CHR ''*'' \<in> set pattern \<or> CHR ''?'' \<in> set pattern then
        fnmatch filename_lower (lower pattern)
      else
        (filename_lower = lower pattern
         \<or> (endswith pattern ''*'' \<and> startswith filename_lower (lower (butlast pattern)))))"

definition matches_excluded_pattern :: "FileFilter \<Rightarrow> string \<Rightarrow> bool" where
  \<comment> \<open>\<open>FileFilter._matches_excluded_pattern\<close>\<close>
  "matches_excluded_pattern ff filename =
     list_ex (pattern_hits (lower filename)) (excluded_patterns ff)"

definition FileFilter_should_parse_file :: "FileFilter \<Rightarrow> string \<Rightarrow> int option \<Rightarrow> bool" where
  \<comment> \<open>\<open>FileFilter.should_parse_file\<close>\<close>
  "FileFilter_should_parse_file ff file_path file_size_bytes =
     (if (case file_size_bytes of None \<Rightarrow> False | Some sz \<Rightarrow> sz > max_file_size_kb ff * 1024)
        then False
      else if is_in_excluded_directory ff file_path then False
      else if lower (path_suffix file_path) \<in> set (excluded_extensions ff) then False
      else if matches_excluded_pattern ff (path_name file_path) then False
      else if matches_excluded_pattern ff (path_str file_path) then False
      else True)"

section \<open>parser.py: language detection and the parser's file decision\<close>

fun detect_in :: "(string \<times> LanguageConfig) list \<Rightarrow> string \<Rightarrow> string option" where
  "detect_in [] file_ext = None"
| "detect_in ((lang_name, config) # rest) file_ext =
     (if file_ext \<in> set (file_extensions config) then Some lang_name
      else detect_in rest file_ext)"

definition detect_language :: "string \<Rightarrow> string option" where
  \<comment> \<open>\<open>TreeSitterParser.detect_language\<close>\<close>
  "detect_language file_path = detect_in language_configs (lower (path_suffix file_path))"

definition common_code_extensions :: "string list" where
  "common_code_extensions =
   [''.py'', ''.js'', ''.ts'', ''.jsx'', ''.tsx'', ''.java'', ''.cpp'', ''.c'', ''.h'', ''.hpp'',
    ''.cs'', ''.php'', ''.rb'', ''.go'', ''.rs'', ''.swift'', ''.kt'', ''.scala'', ''.sh'', ''.pl'']"

definition problematic_dirs :: "string list" where
  "problematic_dirs =
   [''__pycache__'', ''.git'', ''node_modules'', ''.pytest_cache'', ''dist'', ''build'']"

definition high_priority_dirs :: "string list" where
  "high_priority_dirs = [''src'', ''lib'', ''app'', ''core'', ''main'']"

definition test_dir_names :: "string list" where
  "test_dir_names = [''tests'', ''testing'', ''examples'', ''example'', ''demo'', ''demos'']"

definition is_test_file :: "string \<Rightarrow> string list \<Rightarrow> bool" where
  \<comment> \<open>the expression bound to \<open>is_test_file\<close>, from \<open>filename\<close> and \<open>path_parts\<close>\<close>
  "is_test_file filename parts =
     (py_in ''test'' filename
      \<or> startswith filename ''test_''
      \<or> endswith filename ''_test.py''
      \<or> py_in ''conftest'' filename
      \<or> list_ex (\<lambda>part. py_in ''test'' (lower part)) parts
      \<or> list_ex (\<lambda>part. lower part \<in> set test_dir_names) parts)"

definition python_should_parse :: "string \<Rightarrow> int option \<Rightarrow> bool" where
  \<comment> \<open>the branch \<open>if language == 'python'\<close> of \<open>TreeSitterParser.should_parse_file\<close>\<close>
  "python_should_parse file_path file_size_bytes =
     (if (case file_size_bytes of None \<Rightarrow> False | Some sz \<Rightarrow> sz \<noteq> 0 \<and> sz > 500 * 1024)
        then False
      else
        let path_str_lower = lower (path_str file_path);
            parts = path_parts file_path
        in
        if list_ex (\<lambda>prob_dir. py_in (''/'' @ prob_dir @ ''/'') path_str_lower
                               \<or> endswith path_str_lower (''/'' @ prob_dir)) problematic_dirs
          then False
        else
          let filename = lower (path_name file_path);
              has_high_priority_dir = list_ex (\<lambda>part. lower part \<in> set high_priority_dirs) parts;
              is_root_level = (length parts \<le> 2);
              is_test = is_test_file filename parts
          in
          if has_high_priority_dir \<and> \<not> is_test then True
          else if is_root_level \<and> \<not> is_test \<and> \<not> startswith filename ''_'' then True
          else if \<not> is_test then True
          else False)"

definition TreeSitterParser_should_parse_file :: "FileFilter \<Rightarrow> string \<Rightarrow> int option \<Rightarrow> bool" where
  \<comment> \<open>\<open>TreeSitterParser.should_parse_file\<close>; the first argument is \<open>self.file_filter\<close>\<close>
  "TreeSitterParser_should_parse_file ff file_path file_size_bytes =
     (case detect_language file_path of
        None \<Rightarrow>
          if lower (path_suffix file_path) \<in> set common_code_extensions
            then FileFilter_should_parse_file ff file_path file_size_bytes
          else False
      | Some lang \<Rightarrow>
          if lang = ''python'' then python_should_parse file_path file_size_bytes
          else FileFilter_should_parse_file ff file_path file_size_bytes)"

section \<open>knowledge_graph_service.py: the query engine\<close>

text \<open>
  Identifiers (\<open>uuid4()\<close> values, and their strings in the store) are natural numbers.
  The store is an external collaborator: its two tables are lists of rows, a select is a
  filter over the table in the table's order, and \<open>limit(n)\<close> keeps the first \<open>n\<close> rows.
\<close>

type_synonym uuid = nat

record node_row =
  row_id :: uuid
  row_kg_repository_id :: uuid
  row_node_type :: NodeType
  row_language :: string

record rel_row =
  rel_row_id :: uuid
  rel_source_node_id :: uuid
  rel_target_node_id :: uuid
  rel_relationship_type :: RelationshipType

record database =
  archon_kg_nodes :: "node_row list"
  archon_kg_relationships :: "rel_row list"

record GraphQuery =
  repository_id :: uuid
  start_node_id :: "uuid option"
  end_node_id :: "uuid option"
  relationship_types :: "RelationshipType list"
  max_depth :: int
  node_types :: "NodeType list option"
  language_filter :: "string option"
  include_properties :: bool

record query_result =
  result_nodes :: "node_row list"
  result_relationships :: "rel_row list"
  total_nodes :: nat
  total_relationships :: nat

definition truthy_list :: "'a list option \<Rightarrow> bool" where
  \<comment> \<open>Python's truth value of an optional list or string: \<open>None\<close> and the empty one are false\<close>
  "truthy_list v = (case v of None \<Rightarrow> False | Some xs \<Rightarrow> xs \<noteq> [])"

definition node_selected :: "GraphQuery \<Rightarrow> node_row \<Rightarrow> bool" where
  \<comment> \<open>the filters \<open>query_graph\<close> puts on \<open>node_query\<close>\<close>
  "node_selected q n =
     (row_kg_repository_id n = repository_id q
      \<and> (truthy_list (node_types q) \<longrightarrow> row_node_type n \<in> set (the (node_types q)))
      \<and> (truthy_list (language_filter q) \<longrightarrow> row_language n = the (language_filter q)))"

function batches :: "nat \<Rightarrow> 'a list \<Rightarrow> 'a list list" where
  \<comment> \<open>\<open>[xs[i:i + n] for i in range(0, len(xs), n)]\<close>\<close>
  "batches n xs = (if n = 0 \<or> xs = [] then [] else take n xs # batches n (drop n xs))"
  by pat_completeness auto
termination
  by (relation "measure (\<lambda>(n, xs). length xs)") auto

declare batches.simps [simp del]

definition batch_rows :: "database \<Rightarrow> GraphQuery \<Rightarrow> uuid list \<Rightarrow> rel_row list" where
  \<comment> \<open>one batch query: the relationships with an endpoint in the batch, of the asked types\<close>
  "batch_rows db q batch_node_ids =
     filter (\<lambda>r. (rel_source_node_id r \<in> set batch_node_ids
                    \<or> rel_target_node_id r \<in> set batch_node_ids)
                 \<and> (relationship_types q \<noteq> [] \<longrightarrow>
                      rel_relationship_type r \<in> set (relationship_types q)))
       (archon_kg_relationships db)"

fun unique_by_id :: "uuid set \<Rightarrow> rel_row list \<Rightarrow> rel_row list" where
  \<comment> \<open>the loop over \<open>seen_rel_ids\<close>\<close>
  "unique_by_id seen_rel_ids [] = []"
| "unique_by_id seen_rel_ids (rel # rels) =
     (if rel_row_id rel \<notin> seen_rel_ids
        then rel # unique_by_id (insert (rel_row_id rel) seen_rel_ids) rels
      else unique_by_id seen_rel_ids rels)"

definition apply_path_filtering ::
  "node_row list \<Rightarrow> rel_row list \<Rightarrow> uuid option \<Rightarrow> uuid option \<Rightarrow> int
     \<Rightarrow> node_row list \<times> rel_row list" where
  \<comment> \<open>\<open>_apply_path_filtering\<close>: returns what it is given\<close>
  "apply_path_filtering nodes relationships start_id end_id depth = (nodes, relationships)"

definition query_graph :: "database \<Rightarrow> GraphQuery \<Rightarrow> query_result" where
  "query_graph db q =
     (let nodes = take 1000 (filter (node_selected q) (archon_kg_nodes db));
          relationships =
            (if nodes = [] then []
             else
               let node_ids = map row_id nodes;
                   fetched = concat (map (batch_rows db q) (batches 50 node_ids));
                   unique_relationships = unique_by_id {} fetched
               in filter (\<lambda>rel. rel_source_node_id rel \<in> set node_ids
                                  \<and> rel_target_node_id rel \<in> set node_ids)
                    unique_relationships);
          (nodes', relationships') =
            (if start_node_id q \<noteq> None \<or> end_node_id q \<noteq> None
               then apply_path_filtering nodes relationships (start_node_id q) (end_node_id q)
                      (max_depth q)
             else (nodes, relationships))
      in \<lparr>result_nodes = nodes', result_relationships = relationships',
          total_nodes = length nodes', total_relationships = length relationships'\<rparr>)"

text \<open>A small store and two queries over it, for the concrete runs of the query engine.\<close>

definition example_db :: database where
  "example_db =
     \<lparr>archon_kg_nodes =
        [\<lparr>row_id = 1, row_kg_repository_id = 7, row_node_type = FILE, row_language = ''python''\<rparr>,
         \<lparr>row_id = 2, row_kg_repository_id = 7, row_node_type = CLASS, row_language = ''python''\<rparr>,
         \<lparr>row_id = 3, row_kg_repository_id = 7, row_node_type = FUNCTION,
            row_language = ''python''\<rparr>],
      archon_kg_relationships =
        [\<lparr>rel_row_id = 10, rel_source_node_id = 1, rel_target_node_id = 2,
            rel_relationship_type = CONTAINS\<rparr>,
         \<lparr>rel_row_id = 11, rel_source_node_id = 2, rel_target_node_id = 3,
            rel_relationship_type = CALLS\<rparr>]\<rparr>"

definition example_query :: "NodeType list option \<Rightarrow> GraphQuery" where
  "example_query kinds =
     \<lparr>repository_id = 7, start_node_id = None, end_node_id = None, relationship_types = [],
      max_depth = 3, node_types = kinds, language_filter = None, include_properties = False\<rparr>"

section \<open>Python exceptions\<close>

text \<open>
  What a raise carries in the model.  \<open>asyncio.CancelledError\<close> derives from
  \<open>BaseException\<close> only (Python 3.8 and later), so an \<open>except Exception\<close> clause does not
  catch it; every other exception of the model is an \<open>Exception\<close>.  The interpreter's
  recursion limit is not modelled.
\<close>

datatype error =
    ValueError string
  | KeyError string
  | IndexError string
  | AttributeError string
  | UnboundLocalError string
  | CancelledError string
  | Exception string

fun is_Exception :: "error \<Rightarrow> bool" where
  \<comment> \<open>\<open>isinstance(e, Exception)\<close>\<close>
  "is_Exception (CancelledError m) = False"
| "is_Exception e = True"

fun error_str :: "error \<Rightarrow> string" where
  \<comment> \<open>\<open>str(e)\<close>\<close>
  "error_str (ValueError m) = m"
| "error_str (KeyError m) = m"
| "error_str (IndexError m) = m"
| "error_str (AttributeError m) = m"
| "error_str (UnboundLocalError m) = m"
| "error_str (CancelledError m) = m"
| "error_str (Exception m) = m"

section \<open>graph_builder.py: cycle detection\<close>

text \<open>
  The dependency graph is a dict from a node to the set of its successors: an association
  list in insertion order, each successor set as the list in which the loop iterates it.
  The closure \<open>dfs\<close> reads and writes \<open>visited\<close>, \<open>rec_stack\<close> and \<open>cycles\<close> of the
  enclosing function: the state record below.  Every call receives its own copy of the
  path.
\<close>

type_synonym 'a graph = "('a \<times> 'a list) list"

record 'a dfs_state =
  visited :: "'a set"
  rec_stack :: "'a set"
  cycles :: "'a list list"

fun index_of :: "'a list \<Rightarrow> 'a \<Rightarrow> nat option" where
  \<comment> \<open>\<open>xs.index(x)\<close>, \<open>None\<close> where Python raises \<open>ValueError\<close>\<close>
  "index_of [] x = None"
| "index_of (y # ys) x = (if y = x then Some 0 else map_option Suc (index_of ys x))"

function dfs :: "'a graph \<Rightarrow> 'a \<Rightarrow> 'a list \<Rightarrow> 'a dfs_state \<Rightarrow> error + 'a dfs_state"
  and dfs_neighbors :: "'a graph \<Rightarrow> 'a list \<Rightarrow> 'a list \<Rightarrow> 'a dfs_state \<Rightarrow> error + 'a dfs_state"
where
  "dfs graph node path st =
     (if node \<in> rec_stack st then
        (case index_of path node of
           None \<Rightarrow> Inl (ValueError ''x not in list'')
         | Some cycle_start \<Rightarrow> Inr (st\<lparr>cycles := cycles st @ [drop cycle_start path @ [node]]\<rparr>))
      else if node \<in> visited st then Inr st
      else
        (case dfs_neighbors graph (get_or graph node []) (path @ [node])
                (st\<lparr>visited := insert node (visited st),
                    rec_stack := insert node (rec_stack st)\<rparr>) of
           Inl e \<Rightarrow> Inl e
         | Inr st' \<Rightarrow>
             if node \<in> rec_stack st' then Inr (st'\<lparr>rec_stack := rec_stack st' - {node}\<rparr>)
             else Inl (KeyError ''node'')))"
| "dfs_neighbors graph [] path st = Inr st"
| "dfs_neighbors graph (neighbor # rest) path st =
     (case dfs graph neighbor path st of
        Inl e \<Rightarrow> Inl e
      | Inr st' \<Rightarrow> dfs_neighbors graph rest path st')"
  by pat_completeness auto

text \<open>
  Termination: a call of \<open>dfs\<close> that recurses marks a node that was not visited, and a
  call only adds to \<open>visited\<close>.
\<close>

definition graph_nodes :: "'a graph \<Rightarrow> 'a set" where
  "graph_nodes graph = fst ` set graph \<union> (\<Union>(k, vs) \<in> set graph. set vs)"

definition dfs_measure ::
  "('a graph \<times> 'a \<times> 'a list \<times> 'a dfs_state) + ('a graph \<times> 'a list \<times> 'a list \<times> 'a dfs_state)
     \<Rightarrow> nat \<times> nat \<times> nat" where
  "dfs_measure x =
     (case x of
        Inl (graph, node, path, st) \<Rightarrow> (card (graph_nodes graph - visited st), 1, 0)
      | Inr (graph, ns, path, st) \<Rightarrow>
          (card (graph_nodes graph - visited st), if ns = [] then 0 else 2, length ns))"

lemma dfs_visited_mono_partial:
  "dfs_dfs_neighbors_dom (Inl (graph, node, path, st)) \<Longrightarrow>
     dfs graph node path st = Inr st' \<Longrightarrow> visited st \<subseteq> visited st'"
  "dfs_dfs_neighbors_dom (Inr (graph, ns, path, st)) \<Longrightarrow>
     dfs_neighbors graph ns path st = Inr st' \<Longrightarrow> visited st \<subseteq> visited st'"
proof (induction graph node path st and graph ns path st arbitrary: st' and st'
        rule: dfs_dfs_neighbors.pinduct)
  case (1 graph node path st)
  then show ?case
    by (auto simp: dfs.psimps split: if_splits option.splits sum.splits)
next
  case (2 graph path st)
  then show ?case by (simp add: dfs_neighbors.psimps)
next
  case (3 graph neighbor rest path st)
  then show ?case
    by (auto simp: dfs_neighbors.psimps split: sum.splits)
qed

lemma finite_graph_nodes: "finite (graph_nodes graph)"
  by (auto simp: graph_nodes_def)

lemma get_or_in_graph_nodes: "get_or graph node [] \<noteq> [] \<Longrightarrow> node \<in> graph_nodes graph"
  by (induction graph) (auto simp: graph_nodes_def split: if_splits)

termination dfs
proof (relation "inv_image (less_than <*lex*> less_than <*lex*> less_than) dfs_measure")
  show "wf (inv_image (less_than <*lex*> less_than <*lex*> less_than) dfs_measure)"
    by (intro wf_inv_image wf_lex_prod wf_less_than)
next
  fix graph :: "'a graph" and node path and st :: "'a dfs_state"
  assume "node \<notin> rec_stack st" "node \<notin> visited st"
  show "(Inr (graph, get_or graph node [], path @ [node],
              st\<lparr>visited := insert node (visited st), rec_stack := insert node (rec_stack st)\<rparr>),
         Inl (graph, node, path, st))
        \<in> inv_image (less_than <*lex*> less_than <*lex*> less_than) dfs_measure"
  proof (cases "get_or graph node [] = []")
    case True
    have "card (graph_nodes graph - insert node (visited st))
            \<le> card (graph_nodes graph - visited st)"
      by (intro card_mono) (auto simp: finite_graph_nodes)
    with True show ?thesis by (auto simp: dfs_measure_def)
  next
    case False
    then have "node \<in> graph_nodes graph" by (rule get_or_in_graph_nodes)
    with \<open>node \<notin> visited st\<close>
    have "card (graph_nodes graph - insert node (visited st))
            < card (graph_nodes graph - visited st)"
      by (intro psubset_card_mono) (auto simp: finite_graph_nodes)
    then show ?thesis by (auto simp: dfs_measure_def)
  qed
next
  fix graph :: "'a graph" and neighbor rest path and st :: "'a dfs_state"
  show "(Inl (graph, neighbor, path, st), Inr (graph, neighbor # rest, path, st))
        \<in> inv_image (less_than <*lex*> less_than <*lex*> less_than) dfs_measure"
    by (simp add: dfs_measure_def)
next
  fix graph :: "'a graph" and neighbor rest path and st st' :: "'a dfs_state"
  assume "dfs graph neighbor path st = Inr st'"
     and "dfs_dfs_neighbors_dom (Inl (graph, neighbor, path, st))"
  then have "visited st \<subseteq> visited st'" by (rule dfs_visited_mono_partial(1)[rotated])
  then have "card (graph_nodes graph - visited st') \<le> card (graph_nodes graph - visited st)"
    by (intro card_mono) (auto simp: finite_graph_nodes)
  then show "(Inr (graph, rest, path, st'), Inr (graph, neighbor # rest, path, st))
        \<in> inv_image (less_than <*lex*> less_than <*lex*> less_than) dfs_measure"
    by (auto simp: dfs_measure_def)
qed

declare dfs.simps [simp del]

fun detect_loop :: "'a graph \<Rightarrow> 'a list \<Rightarrow> 'a dfs_state \<Rightarrow> error + 'a dfs_state" where
  \<comment> \<open>\<open>for node in graph: if node not in visited: dfs(node, [])\<close>\<close>
  "detect_loop graph [] st = Inr st"
| "detect_loop graph (node # rest) st =
     (if node \<notin> visited st then
        (case dfs graph node [] st of
           Inl e \<Rightarrow> Inl e
         | Inr st' \<Rightarrow> detect_loop graph rest st')
      else detect_loop graph rest st)"

definition detect_cycles :: "'a graph \<Rightarrow> error + 'a list list" where
  \<comment> \<open>\<open>GraphBuilder._detect_cycles\<close>\<close>
  "detect_cycles graph =
     (case detect_loop graph (map fst graph) \<lparr>visited = {}, rec_stack = {}, cycles = []\<rparr> of
        Inl e \<Rightarrow> Inl e
      | Inr st \<Rightarrow> Inr (cycles st))"

text \<open>
  The graph's edges, and what a reported cycle is: a list of at least two nodes that starts
  and ends at the same node and steps along edges.
\<close>

definition edge :: "'a graph \<Rightarrow> 'a \<Rightarrow> 'a \<Rightarrow> bool" where
  "edge graph u v = (v \<in> set (get_or graph u []))"

definition edges :: "'a graph \<Rightarrow> ('a \<times> 'a) set" where
  "edges graph = {(u, v). edge graph u v}"

definition is_cycle :: "'a graph \<Rightarrow> 'a list \<Rightarrow> bool" where
  "is_cycle graph c = (2 \<le> length c \<and> hd c = last c \<and> successively (edge graph) c)"

text \<open>
  The invariant of the search.  A node is finished when it is visited and no longer on the
  stack.  As long as no cycle has been reported, the successors of a finished node are
  finished and no finished node lies on a cycle.
\<close>

definition finished :: "'a dfs_state \<Rightarrow> 'a set" where
  "finished st = visited st - rec_stack st"

definition finished_ok :: "'a graph \<Rightarrow> 'a dfs_state \<Rightarrow> bool" where
  "finished_ok graph st =
     (cycles st = [] \<longrightarrow>
        (\<forall>u \<in> finished st. (\<forall>v. edge graph u v \<longrightarrow> v \<in> finished st)
                              \<and> (u, u) \<notin> (edges graph)\<^sup>+))"

definition dfs_pre :: "'a graph \<Rightarrow> 'a list \<Rightarrow> 'a dfs_state \<Rightarrow> bool" where
  "dfs_pre graph path st =
     (rec_stack st = set path \<and> successively (edge graph) path \<and> rec_stack st \<subseteq> visited st
      \<and> (\<forall>c \<in> set (cycles st). is_cycle graph c) \<and> finished_ok graph st)"

definition dfs_post :: "'a graph \<Rightarrow> 'a dfs_state \<Rightarrow> 'a dfs_state \<Rightarrow> bool" where
  "dfs_post graph st st' =
     (rec_stack st' = rec_stack st \<and> visited st \<subseteq> visited st'
      \<and> (cycles st \<noteq> [] \<longrightarrow> cycles st' \<noteq> [])
      \<and> (\<forall>c \<in> set (cycles st'). is_cycle graph c) \<and> finished_ok graph st')"

text \<open>Graphs for the concrete runs.\<close>

definition triangle :: "string graph" where
  \<comment> \<open>the edges \<open>A \<rightarrow> B\<close>, \<open>B \<rightarrow> C\<close>, \<open>C \<rightarrow> A\<close>\<close>
  "triangle = [(''A'', [''B'']), (''B'', [''C'']), (''C'', [''A''])]"

definition chord_graph :: "string graph" where
  \<comment> \<open>the triangle and the edge \<open>A \<rightarrow> C\<close>; the successors of \<open>A\<close> iterate as \<open>B\<close>, \<open>C\<close>\<close>
  "chord_graph = [(''A'', [''B'', ''C'']), (''B'', [''C'']), (''C'', [''A''])]"

definition chord_graph_rev :: "string graph" where
  \<comment> \<open>the same graph; the successors of \<open>A\<close> iterate as \<open>C\<close>, \<open>B\<close>\<close>
  "chord_graph_rev = [(''A'', [''C'', ''B'']), (''B'', [''C'']), (''C'', [''A''])]"

definition chain :: "string graph" where
  \<comment> \<open>the edges \<open>A \<rightarrow> B\<close>, \<open>A \<rightarrow> C\<close>, \<open>B \<rightarrow> C\<close>: a DAG\<close>
  "chain = [(''A'', [''B'', ''C'']), (''B'', [''C''])]"

section \<open>models.py: nodes, relationships, parse results\<close>

text \<open>
  The records keep the fields the verified properties read.  Of \<open>KGNode\<close> the column span,
  \<open>properties\<close>, \<open>source_code\<close>, \<open>docstring\<close>, \<open>complexity_score\<close>, \<open>is_exported\<close> and
  \<open>created_at\<close> are left out, and with them the parser's extraction of the body text and
  the docstring, which only fills these fields and raises nothing.  Of \<open>context_info\<close> the
  record keeps the \<open>cross_file\<close> flag.  \<open>parse_time_ms\<close> is left out.
\<close>

record KGNode =
  node_id :: uuid
  kg_repository_id :: uuid
  node_type :: NodeType
  name :: string
  fully_qualified_name :: "string option"
  file_path :: string
  line_start :: "int option"
  line_end :: "int option"
  node_language :: string
  is_public :: bool

record KGRelationship =
  rel_id :: uuid
  source_node_id :: uuid
  target_node_id :: uuid
  relationship_type :: RelationshipType
  confidence_score :: real
  cross_file :: bool

record FileParseResult =
  result_file_path :: string
  result_language :: string
  success :: bool
  nodes_extracted :: nat
  relationships_extracted :: nat
  result_error :: "string option"

section \<open>Effects: fresh identifiers and the cancellation probe\<close>

text \<open>
  \<open>uuid4()\<close> draws the next identifier of a counter.  A cancellation probe is a callback
  without arguments whose outcome depends on when it is called: the model gives it the
  number of probe calls made so far, and it answers with the exception it raises, if any.
  A computation takes the world and returns its result or the exception it raised,
  together with the world at that moment.
\<close>

record world =
  next_uuid :: nat
  probe_calls :: nat

type_synonym probe = "nat \<Rightarrow> error option"

definition uuid4 :: "world \<Rightarrow> uuid \<times> world" where
  "uuid4 w = (next_uuid w, w\<lparr>next_uuid := Suc (next_uuid w)\<rparr>)"

definition check :: "probe option \<Rightarrow> world \<Rightarrow> (error + unit) \<times> world" where
  \<comment> \<open>\<open>if cancellation_check: cancellation_check()\<close>\<close>
  "check cancellation_check w =
     (case cancellation_check of
        None \<Rightarrow> (Inr (), w)
      | Some p \<Rightarrow>
          (case p (probe_calls w) of
             Some e \<Rightarrow> (Inl e, w\<lparr>probe_calls := Suc (probe_calls w)\<rparr>)
           | None \<Rightarrow> (Inr (), w\<lparr>probe_calls := Suc (probe_calls w)\<rparr>)))"

definition quiet :: "probe option \<Rightarrow> bool" where
  \<comment> \<open>no probe is given, or the probe never raises\<close>
  "quiet cc = (case cc of None \<Rightarrow> True | Some p \<Rightarrow> \<forall>k. p k = None)"

definition py_nth :: "'a list \<Rightarrow> nat \<Rightarrow> error + 'a" where
  \<comment> \<open>\<open>xs[i]\<close> for \<open>i \<ge> 0\<close>\<close>
  "py_nth xs i = (if i < length xs then Inr (xs ! i) else Inl (IndexError ''list index out of range''))"

definition is_upper :: "char \<Rightarrow> bool" where
  \<comment> \<open>\<open>c.isupper()\<close> on one ASCII character\<close>
  "is_upper c = (let n = (of_char c :: nat) in 65 \<le> n \<and> n \<le> 90)"

definition newline :: char where
  "newline = CHR 0x0A"

definition fqn :: "string \<Rightarrow> string \<Rightarrow> string" where
  \<comment> \<open>\<open>f"{file_path}::{name}"\<close>\<close>
  "fqn fp nm = fp @ ''::'' @ nm"

definition mk_rel :: "uuid \<Rightarrow> uuid \<Rightarrow> uuid \<Rightarrow> RelationshipType \<Rightarrow> real \<Rightarrow> bool \<Rightarrow> KGRelationship" where
  "mk_rel i src tgt ty conf cf =
     \<lparr>rel_id = i, source_node_id = src, target_node_id = tgt, relationship_type = ty,
      confidence_score = conf, cross_file = cf\<rparr>"

definition file_node_of :: "uuid \<Rightarrow> uuid \<Rightarrow> string \<Rightarrow> string \<Rightarrow> KGNode" where
  \<comment> \<open>the \<open>file_node\<close> each of the three parsers creates first\<close>
  "file_node_of i repository fp lang =
     \<lparr>node_id = i, kg_repository_id = repository, node_type = FILE, name = path_name fp,
      fully_qualified_name = Some fp, file_path = fp, line_start = None, line_end = None,
      node_language = lang, is_public = True\<rparr>"

definition entity_node ::
  "uuid \<Rightarrow> uuid \<Rightarrow> NodeType \<Rightarrow> string \<Rightarrow> string \<Rightarrow> nat \<Rightarrow> string \<Rightarrow> bool \<Rightarrow> KGNode" where
  \<comment> \<open>a class, function, import or variable node found on line \<open>i\<close> (0-based)\<close>
  "entity_node nid repository ty nm fp i lang pub =
     \<lparr>node_id = nid, kg_repository_id = repository, node_type = ty, name = nm,
      fully_qualified_name = Some (fqn fp nm), file_path = fp, line_start = Some (int i + 1),
      line_end = None, node_language = lang, is_public = pub\<rparr>"

definition emit ::
  "uuid \<Rightarrow> uuid \<Rightarrow> NodeType \<Rightarrow> RelationshipType \<Rightarrow> string \<Rightarrow> string \<Rightarrow> nat \<Rightarrow> string \<Rightarrow> bool
     \<Rightarrow> world \<Rightarrow> (KGNode list \<times> KGRelationship list) \<times> world" where
  \<comment> \<open>\<open>nodes.append(KGNode(id=uuid4(), ...))\<close> followed by
      \<open>relationships.append(KGRelationship(id=uuid4(), source_node_id=file_node.id, ...))\<close>\<close>
  "emit file_id repository ty rel_ty nm fp i lang pub w =
     (let (nid, w1) = uuid4 w;
          node = entity_node nid repository ty nm fp i lang pub;
          (rid, w2) = uuid4 w1
      in (([node], [mk_rel rid file_id nid rel_ty 1.0 False]), w2))"

section \<open>parser.py: the three file parsers\<close>

definition oo_line ::
  "string \<Rightarrow> string \<Rightarrow> uuid \<Rightarrow> uuid \<Rightarrow> string \<Rightarrow> nat \<Rightarrow> world
     \<Rightarrow> (error + KGNode list \<times> KGRelationship list) \<times> world" where
  \<comment> \<open>one pass of the \<open>while\<close> loop of \<open>_parse_object_oriented_file\<close>, after the probe: what
      it appends for \<open>lines[i]\<close>\<close>
  "oo_line fp lang repository file_id original_line i w =
     (let line = strip original_line in
      if startswith line ''class '' \<and> CHR '':'' \<in> set line then
        (case py_nth (py_split line) 1 of
           Inl e \<Rightarrow> (Inl e, w)
         | Inr tok \<Rightarrow>
             let class_name = hd (split_on (CHR '':'') (hd (split_on (CHR ''('') tok)));
                 (out, w') = emit file_id repository CLASS CONTAINS class_name fp i lang True w
             in (Inr out, w'))
      else if startswith line ''def '' \<or> startswith line ''function '' then
        (case (if lang = ''python'' then
                 map_sum id (\<lambda>tok. hd (split_on (CHR ''('') tok)) (py_nth (py_split line) 1)
               else if length (py_split line) > 1 then
                 Inr (hd (split_on (CHR ''('') (py_split line ! 1)))
               else Inr ''anonymous'') of
           Inl e \<Rightarrow> (Inl e, w)
         | Inr func_name \<Rightarrow>
             let (out, w') = emit file_id repository FUNCTION CONTAINS func_name fp i lang
                               (\<not> startswith func_name ''_'') w
             in (Inr out, w'))
      else if startswith line ''import '' \<or> startswith line ''from '' then
        (let import_name = (if length (py_split line) > 1 then py_split line ! 1 else ''unknown'');
             (out, w') = emit file_id repository IMPORT IMPORTS import_name fp i lang True w
         in (Inr out, w'))
      else (Inr ([], []), w))"

fun lines_loop ::
  "probe option \<Rightarrow> nat
     \<Rightarrow> (string \<Rightarrow> nat \<Rightarrow> world \<Rightarrow> (error + KGNode list \<times> KGRelationship list) \<times> world)
     \<Rightarrow> string list \<Rightarrow> nat \<Rightarrow> KGNode list \<Rightarrow> KGRelationship list \<Rightarrow> world
     \<Rightarrow> (error + KGNode list \<times> KGRelationship list) \<times> world" where
  \<comment> \<open>the loop over \<open>lines\<close> that the three parsers share, on the lines from \<open>i\<close> on:
      the probe \<open>if cancellation_check and i % period == 0\<close>, then the parser's own pass
      for \<open>lines[i]\<close>, whose nodes and relationships are appended\<close>
  "lines_loop cc period line_pass [] i nodes rels w = (Inr (nodes, rels), w)"
| "lines_loop cc period line_pass (original_line # rest) i nodes rels w =
     (case (if cc \<noteq> None \<and> i mod period = 0 then check cc w else (Inr (), w)) of
        (Inl e, w1) \<Rightarrow> (Inl e, w1)
      | (Inr u, w1) \<Rightarrow>
          (case line_pass original_line i w1 of
             (Inl e, w2) \<Rightarrow> (Inl e, w2)
           | (Inr (new_nodes, new_rels), w2) \<Rightarrow>
               lines_loop cc period line_pass rest (Suc i)
                 (nodes @ new_nodes) (rels @ new_rels) w2))"

definition parse_with ::
  "probe option \<Rightarrow> nat
     \<Rightarrow> (uuid \<Rightarrow> string \<Rightarrow> nat \<Rightarrow> world \<Rightarrow> (error + KGNode list \<times> KGRelationship list) \<times> world)
     \<Rightarrow> string \<Rightarrow> string \<Rightarrow> string \<Rightarrow> uuid \<Rightarrow> world
     \<Rightarrow> (error + KGNode list \<times> KGRelationship list) \<times> world" where
  \<comment> \<open>the frame the three parsers share: the probe on entry, the file node, the loop\<close>
  "parse_with cc period line_pass content fp lang repository w =
     (case check cc w of
        (Inl e, w1) \<Rightarrow> (Inl e, w1)
      | (Inr u, w1) \<Rightarrow>
          let (file_id, w2) = uuid4 w1;
              file_node = file_node_of file_id repository fp lang
          in lines_loop cc period (line_pass file_id) (split_on newline content) 0
               [file_node] [] w2)"

definition parse_object_oriented_file ::
  "probe option \<Rightarrow> string \<Rightarrow> string \<Rightarrow> string \<Rightarrow> uuid \<Rightarrow> world
     \<Rightarrow> (error + KGNode list \<times> KGRelationship list) \<times> world" where
  \<comment> \<open>\<open>TreeSitterParser._parse_object_oriented_file\<close>\<close>
  "parse_object_oriented_file cc content fp lang repository w =
     parse_with cc 100 (oo_line fp lang repository) content fp lang repository w"

definition without_chars :: "string \<Rightarrow> string \<Rightarrow> string" where
  \<comment> \<open>\<open>s.replace(c, '')\<close> for each character \<open>c\<close> of the first argument\<close>
  "without_chars cs s = filter (\<lambda>c. c \<notin> set cs) s"

definition c_function_name :: "string list \<Rightarrow> string option" where
  \<comment> \<open>\<open>func_name\<close> of the C branch, from \<open>parts = line.split()\<close>, which is not empty\<close>
  "c_function_name parts =
     (if hd parts = ''static'' \<and> length parts > 2 then
        (if CHR ''('' \<in> set (parts ! 2) then Some (hd (split_on (CHR ''('') (parts ! 2))) else None)
      else if length parts > 1 \<and> CHR ''('' \<in> set (parts ! 1) then
        Some (hd (split_on (CHR ''('') (parts ! 1)))
      else None)"

definition rust_function_name :: "bool \<Rightarrow> string list \<Rightarrow> string option" where
  \<comment> \<open>\<open>func_name\<close> of the Rust branch, from \<open>is_public\<close> and \<open>parts\<close>\<close>
  "rust_function_name pub parts =
     (if pub \<and> length parts > 2 then Some (hd (split_on (CHR ''('') (parts ! 2)))
      else if \<not> pub \<and> length parts > 1 then Some (hd (split_on (CHR ''('') (parts ! 1)))
      else None)"

definition proc_line ::
  "string \<Rightarrow> string \<Rightarrow> uuid \<Rightarrow> uuid \<Rightarrow> string \<Rightarrow> nat \<Rightarrow> world
     \<Rightarrow> (error + KGNode list \<times> KGRelationship list) \<times> world" where
  \<comment> \<open>one pass of the \<open>while\<close> loop of \<open>_parse_procedural_file\<close>, after the probe.  In the Go
      branch \<open>func_name[0]\<close> raises on an empty name, after the node's \<open>uuid4()\<close>.\<close>
  "proc_line fp lang repository file_id original_line i w =
     (let line = strip original_line; parts = py_split line in
      if lang = ''c'' \<and> list_ex (startswith line)
                           [''int '', ''void '', ''char '', ''float '', ''double '', ''static ''] then
        (case c_function_name parts of
           Some func_name \<Rightarrow>
             if func_name \<noteq> [] then
               (let (out, w') = emit file_id repository FUNCTION CONTAINS func_name fp i lang
                                  (\<not> startswith line ''static'') w
                in (Inr out, w'))
             else (Inr ([], []), w)
         | None \<Rightarrow> (Inr ([], []), w))
      else if lang = ''go'' \<and> startswith line ''func '' then
        (if length parts > 1 then
           (let func_name = hd (split_on (CHR ''('') (parts ! 1)) in
            if func_name = [] then
              (let (nid, w1) = uuid4 w in (Inl (IndexError ''string index out of range''), w1))
            else
              (let (out, w') = emit file_id repository FUNCTION CONTAINS func_name fp i lang
                                 (is_upper (hd func_name)) w
               in (Inr out, w')))
         else (Inr ([], []), w))
      else if lang = ''rust'' then
        (if startswith line ''fn '' \<or> startswith line ''pub fn '' then
           (let pub = startswith line ''pub fn '' in
            case rust_function_name pub parts of
              Some func_name \<Rightarrow>
                if func_name \<noteq> [] then
                  (let (out, w') = emit file_id repository FUNCTION CONTAINS func_name fp i lang
                                     pub w
                   in (Inr out, w'))
                else (Inr ([], []), w)
            | None \<Rightarrow> (Inr ([], []), w))
         else (Inr ([], []), w))
      else if (lang = ''c'' \<and> startswith line ''#include'')
              \<or> (lang = ''go'' \<and> startswith line ''import'')
              \<or> (lang = ''rust'' \<and> startswith line ''use '') then
        (let import_name0 = (if length parts > 1 then parts ! 1 else ''unknown'');
             import_name =
               (if lang = ''c'' then without_chars [CHR ''<'', CHR ''>'', CHR 0x22] import_name0
                else if lang = ''rust'' then without_chars [CHR '';''] import_name0
                else import_name0);
             (out, w') = emit file_id repository IMPORT IMPORTS import_name fp i lang True w
         in (Inr out, w'))
      else (Inr ([], []), w))"

definition parse_procedural_file ::
  "probe option \<Rightarrow> string \<Rightarrow> string \<Rightarrow> string \<Rightarrow> uuid \<Rightarrow> world
     \<Rightarrow> (error + KGNode list \<times> KGRelationship list) \<times> world" where
  \<comment> \<open>\<open>TreeSitterParser._parse_procedural_file\<close>\<close>
  "parse_procedural_file cc content fp lang repository w =
     parse_with cc 100 (proc_line fp lang repository) content fp lang repository w"

definition basic_line ::
  "string \<Rightarrow> string \<Rightarrow> uuid \<Rightarrow> uuid \<Rightarrow> string \<Rightarrow> nat \<Rightarrow> world
     \<Rightarrow> (error + KGNode list \<times> KGRelationship list) \<times> world" where
  \<comment> \<open>one pass of the \<open>for\<close> loop of \<open>_parse_basic_file\<close>, after the probe; \<open>line\<close> is the
      stripped line there too\<close>
  "basic_line fp lang repository file_id original_line i w =
     (let line = strip original_line in
      if lang \<in> set [''json'', ''yaml'', ''yml'', ''toml''] then
        (if CHR '':'' \<in> set line \<and> \<not> startswith line ''#'' \<and> \<not> startswith line ''//'' then
           (let key = without_chars [CHR 0x27]
                        (without_chars [CHR 0x22] (strip (hd (split_on (CHR '':'') line))))
            in if key \<noteq> [] \<and> \<not> startswith line '' '' \<and> \<not> startswith line [CHR 0x09] then
                 (let (out, w') = emit file_id repository VARIABLE CONTAINS key fp i lang True w
                  in (Inr out, w'))
               else (Inr ([], []), w))
         else (Inr ([], []), w))
      else if lang = ''ini'' then
        (if startswith line ''['' \<and> endswith line '']'' then
           (let section_name = butlast (drop 1 line);
                (out, w') = emit file_id repository VARIABLE CONTAINS section_name fp i lang
                              True w
            in (Inr out, w'))
         else (Inr ([], []), w))
      else (Inr ([], []), w))"

definition parse_basic_file ::
  "probe option \<Rightarrow> string \<Rightarrow> string \<Rightarrow> string \<Rightarrow> uuid \<Rightarrow> world
     \<Rightarrow> (error + KGNode list \<times> KGRelationship list) \<times> world" where
  \<comment> \<open>\<open>TreeSitterParser._parse_basic_file\<close>; its probe runs every 50 lines\<close>
  "parse_basic_file cc content fp lang repository w =
     parse_with cc 50 (basic_line fp lang repository) content fp lang repository w"

section \<open>parser.py: parse_file\<close>

definition parse_by_language ::
  "probe option \<Rightarrow> string \<Rightarrow> string \<Rightarrow> string \<Rightarrow> uuid \<Rightarrow> world
     \<Rightarrow> (error + KGNode list \<times> KGRelationship list) \<times> world" where
  \<comment> \<open>the dispatch of \<open>parse_file\<close> on the detected language\<close>
  "parse_by_language cc content fp lang repository w =
     (if lang \<in> set [''python'', ''javascript'', ''typescript'', ''java'', ''csharp''] then
        parse_object_oriented_file cc content fp lang repository w
      else if lang \<in> set [''c'', ''go'', ''rust''] then
        parse_procedural_file cc content fp lang repository w
      else parse_basic_file cc content fp lang repository w)"

definition failed_result :: "string \<Rightarrow> string \<Rightarrow> string \<Rightarrow> FileParseResult" where
  "failed_result fp lang msg =
     \<lparr>result_file_path = fp, result_language = lang, success = False, nodes_extracted = 0,
      relationships_extracted = 0, result_error = Some msg\<rparr>"

definition parse_file ::
  "probe option \<Rightarrow> string \<Rightarrow> string \<Rightarrow> uuid \<Rightarrow> world
     \<Rightarrow> (error + KGNode list \<times> KGRelationship list \<times> FileParseResult) \<times> world" where
  \<comment> \<open>\<open>TreeSitterParser.parse_file\<close>, called without \<open>progress_callback\<close> as its callers in
      the repository do.  The handler \<open>except Exception\<close> reads \<open>language\<close>: when the probe
      on entry raised, the name is not bound yet and the handler raises
      \<open>UnboundLocalError\<close>.\<close>
  "parse_file cc fp content repository w =
     (case check cc w of
        (Inl e, w1) \<Rightarrow>
          if is_Exception e
            then (Inl (UnboundLocalError ''local variable language referenced before assignment''), w1)
          else (Inl e, w1)
      | (Inr u, w1) \<Rightarrow>
          (case detect_language fp of
             None \<Rightarrow> (Inr ([], [], failed_result fp ''unknown'' ''Unsupported file type''), w1)
           | Some lang \<Rightarrow>
               (case parse_by_language cc content fp lang repository w1 of
                  (Inl e, w2) \<Rightarrow>
                    if is_Exception e
                      then (Inr ([], [], failed_result fp (if lang = [] then ''unknown'' else lang)
                                           (error_str e)), w2)
                    else (Inl e, w2)
                | (Inr (nodes, rels), w2) \<Rightarrow>
                    (Inr (nodes, rels,
                          \<lparr>result_file_path = fp, result_language = lang, success = True,
                           nodes_extracted = length nodes,
                           relationships_extracted = length rels, result_error = None\<rparr>), w2))))"

section \<open>parser.py: parse_repository\<close>

text \<open>
  The file system is an input: every file the walk finds, with the size \<open>stat\<close> reports
  (\<open>None\<close> when it fails) and what \<open>open\<close> and \<open>read\<close> give: the text, or on the left the
  message of the \<open>OSError\<close> they raise.  The function is modelled for
  calls without \<open>progress_callback\<close>; the filtering statistics, a dict of rounded rates, are
  left out of the statistics record.
\<close>

record repo_file =
  rf_path :: string
  rf_size :: "int option"
  rf_content :: "string + string"

record statistics =
  st_total_files_found :: nat
  st_files_filtered_out :: nat
  st_files_to_parse :: nat
  st_parsed_files :: nat
  st_skipped_files :: nat
  st_error_files :: nat
  st_languages_detected :: "string list"
  st_total_nodes :: nat
  st_total_relationships :: nat
  st_parse_errors :: "(string \<times> string) list"

text \<open>
  \<open>parse_file\<close> returns a tuple, and \<open>parse_repository\<close> binds the tuple to \<open>result\<close> and
  reads attributes of a \<open>FileParseResult\<close> from it.  Attribute access is dynamic: on a
  tuple it raises \<open>AttributeError\<close>.
\<close>

datatype pyobj =
    PyTuple "KGNode list \<times> KGRelationship list \<times> FileParseResult"
  | PyFileParseResult FileParseResult

definition no_attribute :: "string \<Rightarrow> error" where
  "no_attribute attr = AttributeError (''tuple object has no attribute '' @ attr)"

fun attr_success :: "pyobj \<Rightarrow> error + bool" where
  "attr_success (PyFileParseResult r) = Inr (success r)"
| "attr_success (PyTuple t) = Inl (no_attribute ''success'')"

fun attr_language :: "pyobj \<Rightarrow> error + string" where
  "attr_language (PyFileParseResult r) = Inr (result_language r)"
| "attr_language (PyTuple t) = Inl (no_attribute ''language'')"

fun attr_nodes_extracted :: "pyobj \<Rightarrow> error + nat" where
  "attr_nodes_extracted (PyFileParseResult r) = Inr (nodes_extracted r)"
| "attr_nodes_extracted (PyTuple t) = Inl (no_attribute ''nodes_extracted'')"

fun attr_relationships_extracted :: "pyobj \<Rightarrow> error + nat" where
  "attr_relationships_extracted (PyFileParseResult r) = Inr (relationships_extracted r)"
| "attr_relationships_extracted (PyTuple t) = Inl (no_attribute ''relationships_extracted'')"

fun attr_error :: "pyobj \<Rightarrow> error + string option" where
  "attr_error (PyFileParseResult r) = Inr (result_error r)"
| "attr_error (PyTuple t) = Inl (no_attribute ''error'')"

definition record_result :: "string \<Rightarrow> pyobj \<Rightarrow> statistics \<Rightarrow> error option \<times> statistics" where
  \<comment> \<open>the statements from \<open>if result.success:\<close> to the end of the inner \<open>try\<close>; the first
      component is the exception raised, if any\<close>
  "record_result path result stats =
     (case attr_success result of
        Inl e \<Rightarrow> (Some e, stats)
      | Inr ok \<Rightarrow>
          if ok then
            (let s1 = stats\<lparr>st_parsed_files := st_parsed_files stats + 1\<rparr> in
             case attr_language result of
               Inl e \<Rightarrow> (Some e, s1)
             | Inr l \<Rightarrow>
                 (let s2 = s1\<lparr>st_languages_detected := List.insert l (st_languages_detected s1)\<rparr> in
                  case attr_nodes_extracted result of
                    Inl e \<Rightarrow> (Some e, s2)
                  | Inr n \<Rightarrow>
                      (let s3 = s2\<lparr>st_total_nodes := st_total_nodes s2 + n\<rparr> in
                       case attr_relationships_extracted result of
                         Inl e \<Rightarrow> (Some e, s3)
                       | Inr m \<Rightarrow>
                           (None, s3\<lparr>st_total_relationships := st_total_relationships s3 + m\<rparr>))))
          else
            (let s1 = stats\<lparr>st_error_files := st_error_files stats + 1\<rparr> in
             case attr_error result of
               Inl e \<Rightarrow> (Some e, s1)
             | Inr err \<Rightarrow>
                 (case err of
                    None \<Rightarrow> (None, s1)
                  | Some msg \<Rightarrow>
                      if msg = [] then (None, s1)
                      else (None, s1\<lparr>st_parse_errors := st_parse_errors s1 @ [(path, msg)]\<rparr>))))"

definition parse_one ::
  "probe option \<Rightarrow> uuid \<Rightarrow> repo_file \<Rightarrow> statistics \<Rightarrow> world
     \<Rightarrow> (error option \<times> statistics) \<times> world" where
  \<comment> \<open>the inner \<open>try\<close> of Phase 3 with its handler \<open>except Exception\<close>; an exception that is
      not an \<open>Exception\<close> leaves the handler aside and is returned\<close>
  "parse_one cc repository f stats w =
     (let (raised, stats1, w1) =
            (case rf_content f of
               Inl msg \<Rightarrow> (Some (Exception msg), stats, w)
             | Inr content \<Rightarrow>
                 (case parse_file cc (rf_path f) content repository w of
                    (Inl e, w') \<Rightarrow> (Some e, stats, w')
                  | (Inr t, w') \<Rightarrow>
                      (let (r, s) = record_result (rf_path f) (PyTuple t) stats in (r, s, w'))))
      in case raised of
           None \<Rightarrow> ((None, stats1), w1)
         | Some e \<Rightarrow>
             if is_Exception e then
               ((None, stats1\<lparr>st_skipped_files := st_skipped_files stats1 + 1,
                              st_parse_errors := st_parse_errors stats1 @ [(rf_path f, error_str e)]\<rparr>),
                w1)
             else ((Some e, stats1), w1))"

fun phase3 ::
  "probe option \<Rightarrow> uuid \<Rightarrow> repo_file list \<Rightarrow> statistics \<Rightarrow> world
     \<Rightarrow> (error option \<times> statistics) \<times> world" where
  \<comment> \<open>\<open>for i, file_path in enumerate(files_to_parse)\<close>: the probe, then the inner \<open>try\<close>\<close>
  "phase3 cc repository [] stats w = ((None, stats), w)"
| "phase3 cc repository (f # rest) stats w =
     (case check cc w of
        (Inl e, w1) \<Rightarrow> ((Some e, stats), w1)
      | (Inr u, w1) \<Rightarrow>
          (case parse_one cc repository f stats w1 of
             ((Some e, stats1), w2) \<Rightarrow> ((Some e, stats1), w2)
           | ((None, stats1), w2) \<Rightarrow> phase3 cc repository rest stats1 w2))"

definition selected :: "FileFilter \<Rightarrow> string list option \<Rightarrow> repo_file \<Rightarrow> bool" where
  \<comment> \<open>Phase 2: whether a file goes to \<open>files_to_parse\<close>\<close>
  "selected ff file_filters f =
     (TreeSitterParser_should_parse_file ff (rf_path f) (rf_size f)
      \<and> (truthy_list file_filters \<longrightarrow>
            list_ex (\<lambda>pattern. py_in pattern (rf_path f)) (the file_filters)))"

definition initial_statistics :: statistics where
  "initial_statistics =
     \<lparr>st_total_files_found = 0, st_files_filtered_out = 0, st_files_to_parse = 0,
      st_parsed_files = 0, st_skipped_files = 0, st_error_files = 0,
      st_languages_detected = [], st_total_nodes = 0, st_total_relationships = 0,
      st_parse_errors = []\<rparr>"

definition parse_repository ::
  "FileFilter \<Rightarrow> probe option \<Rightarrow> string list option \<Rightarrow> repo_file list \<Rightarrow> uuid \<Rightarrow> world
     \<Rightarrow> (error + KGNode list \<times> KGRelationship list \<times> statistics) \<times> world" where
  \<comment> \<open>\<open>TreeSitterParser.parse_repository\<close>; \<open>all_nodes\<close> and \<open>all_relationships\<close> are created
      empty and nothing is appended to them\<close>
  "parse_repository ff cc file_filters all_files repository w =
     (let all_nodes = []; all_relationships = [];
          files_to_parse = filter (selected ff file_filters) all_files;
          stats0 = initial_statistics
            \<lparr>st_total_files_found := length all_files,
             st_files_filtered_out := length all_files - length files_to_parse,
             st_files_to_parse := length files_to_parse\<rparr>
      in case phase3 cc repository files_to_parse stats0 w of
           ((None, stats), w') \<Rightarrow> (Inr (all_nodes, all_relationships, stats), w')
         | ((Some e, stats), w') \<Rightarrow>
             if is_Exception e then
               (Inr (all_nodes, all_relationships,
                     stats\<lparr>st_parse_errors := st_parse_errors stats
                         @ [(''repository_root'', ''Repository parsing failed: '' @ error_str e)]\<rparr>),
                w')
             else (Inl e, w'))"

text \<open>Inputs for the concrete runs of the parser.\<close>

definition world0 :: world where
  "world0 = \<lparr>next_uuid = 0, probe_calls = 0\<rparr>"

definition go_method :: string where
  \<comment> \<open>a Go method with a receiver: the token after \<open>func\<close> starts with a parenthesis\<close>
  "go_method = ''func (r *T) M() {}''"

definition repo_files :: "repo_file list" where
  "repo_files =
     [\<lparr>rf_path = ''/repo/src/app.py'', rf_size = Some 120, rf_content = Inr ''import os''\<rparr>,
      \<lparr>rf_path = ''/repo/src/util.go'', rf_size = Some 80,
         rf_content = Inl ''Permission denied''\<rparr>,
      \<lparr>rf_path = ''/repo/node_modules/x/index.js'', rf_size = Some 50,
         rf_content = Inr ''var x''\<rparr>]"

section \<open>graph_builder.py: the regular expressions\<close>

text \<open>
  The patterns of \<open>_initialize_relationship_patterns\<close> that the builder reads (the groups
  \<open>calls\<close>, \<open>inherits\<close> and \<open>implements\<close>; \<open>imports\<close> and \<open>uses\<close> are never looked up) are
  built from character classes, greedy repetition of a class, capturing groups, and one
  repeated non-capturing group that starts with a mandatory character.  A pattern is the
  list of its items; \<open>Open k\<close> and \<open>Close k\<close> delimit group \<open>k\<close>.  The matcher tries the
  alternatives in the order of Python's backtracking matcher: a repetition takes as many
  characters as it can and gives them back one at a time.
\<close>

datatype cclass = Word | Space | Lit char

fun cmatch :: "cclass \<Rightarrow> char \<Rightarrow> bool" where
  "cmatch Word c =
     (let n = (of_char c :: nat)
      in (48 \<le> n \<and> n \<le> 57) \<or> (65 \<le> n \<and> n \<le> 90) \<or> (97 \<le> n \<and> n \<le> 122) \<or> n = 95)"
| "cmatch Space c = is_space c"
| "cmatch (Lit x) c = (c = x)"

datatype rx =
    One cclass
  | Many cclass
  | Open nat
  | Close nat
  | Rep cclass "rx list"

type_synonym caps = "(nat \<times> nat) list \<times> (nat \<times> nat \<times> nat) list"

definition open_group :: "nat \<Rightarrow> nat \<Rightarrow> caps \<Rightarrow> caps" where
  "open_group k pos c = ((k, pos) # fst c, snd c)"

definition close_group :: "nat \<Rightarrow> nat \<Rightarrow> caps \<Rightarrow> caps" where
  "close_group k pos c = (fst c, (k, get_or (fst c) k pos, pos) # snd c)"

function rx_match :: "rx list \<Rightarrow> string \<Rightarrow> nat \<Rightarrow> caps \<Rightarrow> (nat \<times> caps) option" where
  \<comment> \<open>match the items at the head of the text, which starts at offset \<open>pos\<close>; the result is
      the offset after the match and the groups\<close>
  "rx_match [] s pos c = Some (pos, c)"
| "rx_match (One cl # rs) s pos c =
     (case s of
        [] \<Rightarrow> None
      | x # xs \<Rightarrow> if cmatch cl x then rx_match rs xs (Suc pos) c else None)"
| "rx_match (Many cl # rs) s pos c =
     (case s of
        [] \<Rightarrow> rx_match rs s pos c
      | x # xs \<Rightarrow>
          if cmatch cl x then
            (case rx_match (Many cl # rs) xs (Suc pos) c of
               Some r \<Rightarrow> Some r
             | None \<Rightarrow> rx_match rs s pos c)
          else rx_match rs s pos c)"
| "rx_match (Open k # rs) s pos c = rx_match rs s pos (open_group k pos c)"
| "rx_match (Close k # rs) s pos c = rx_match rs s pos (close_group k pos c)"
| "rx_match (Rep cl body # rs) s pos c =
     (case s of
        [] \<Rightarrow> rx_match rs s pos c
      | x # xs \<Rightarrow>
          if cmatch cl x then
            (case rx_match (body @ Rep cl body # rs) xs (Suc pos) c of
               Some r \<Rightarrow> Some r
             | None \<Rightarrow> rx_match rs s pos c)
          else rx_match rs s pos c)"
  by pat_completeness auto
termination
  by (relation "measures [\<lambda>(p, s, pos, c). length s, \<lambda>(p, s, pos, c). length p]") auto

declare rx_match.simps [simp del]

definition group1 :: "caps \<Rightarrow> string \<Rightarrow> nat \<Rightarrow> nat \<Rightarrow> string" where
  \<comment> \<open>\<open>match.group(1)\<close>, read from the text that starts at offset \<open>pos\<close>; the whole match
      when group 1 did not take part\<close>
  "group1 c s pos e =
     (case map_of (snd c) 1 of
        Some (gs, ge) \<Rightarrow> take (ge - gs) (drop (gs - pos) s)
      | None \<Rightarrow> take (e - pos) s)"

fun finditer_from :: "rx list \<Rightarrow> string \<Rightarrow> nat \<Rightarrow> nat \<Rightarrow> (nat \<times> string) list" where
  \<comment> \<open>\<open>re.finditer\<close> from offset \<open>pos\<close>: the start and group 1 of the leftmost matches that
      do not overlap; \<open>skip\<close> counts the characters still inside the last match.  (After an
      empty match the scan moves one character on; no pattern of the table matches the
      empty text.)\<close>
  "finditer_from p [] pos skip =
     (if skip = 0 then
        (case rx_match p [] pos ([], []) of
           Some (e, c) \<Rightarrow> [(pos, group1 c [] pos e)]
         | None \<Rightarrow> [])
      else [])"
| "finditer_from p (x # xs) pos skip =
     (if skip > 0 then finditer_from p xs (Suc pos) (skip - 1)
      else
        (case rx_match p (x # xs) pos ([], []) of
           Some (e, c) \<Rightarrow>
             (pos, group1 c (x # xs) pos e) # finditer_from p xs (Suc pos) (e - pos - 1)
         | None \<Rightarrow> finditer_from p xs (Suc pos) 0))"

definition finditer :: "rx list \<Rightarrow> string \<Rightarrow> (nat \<times> string) list" where
  "finditer p content = finditer_from p content 0 0"

definition lit :: "string \<Rightarrow> rx list" where
  "lit s = map (\<lambda>c. One (Lit c)) s"

definition word1 :: "rx list" where
  \<comment> \<open>\<open>\w+\<close>\<close>
  "word1 = [One Word, Many Word]"

definition space0 :: "rx list" where
  \<comment> \<open>\<open>\s*\<close>\<close>
  "space0 = [Many Space]"

definition space1 :: "rx list" where
  \<comment> \<open>\<open>\s+\<close>\<close>
  "space1 = [One Space, Many Space]"

definition grp :: "nat \<Rightarrow> rx list \<Rightarrow> rx list" where
  "grp k body = Open k # body @ [Close k]"

definition calls_patterns :: "rx list list" where
  \<comment> \<open>\<open>(\w+)\s*\(\<close>, \<open>\.(\w+)\s*\(\<close>, \<open>(\w+)\.(\w+)\s*\(\<close>\<close>
  "calls_patterns =
     [grp 1 word1 @ space0 @ lit ''('',
      lit ''.'' @ grp 1 word1 @ space0 @ lit ''('',
      grp 1 word1 @ lit ''.'' @ grp 2 word1 @ space0 @ lit ''('']"

definition rust_calls_patterns :: "rx list list" where
  \<comment> \<open>\<open>(\w+)\s*\(\<close>, \<open>\.(\w+)\s*\(\<close>, \<open>(\w+)::(\w+)\s*\(\<close>\<close>
  "rust_calls_patterns =
     [grp 1 word1 @ space0 @ lit ''('',
      lit ''.'' @ grp 1 word1 @ space0 @ lit ''('',
      grp 1 word1 @ lit ''::'' @ grp 2 word1 @ space0 @ lit ''('']"

definition class_extends :: "rx list" where
  \<comment> \<open>\<open>class\s+\w+\s+extends\s+(\w+)\<close>\<close>
  "class_extends = lit ''class'' @ space1 @ word1 @ space1 @ lit ''extends'' @ space1 @ grp 1 word1"

definition interface_extends :: "rx list" where
  \<comment> \<open>\<open>interface\s+\w+\s+extends\s+(\w+)\<close>\<close>
  "interface_extends =
     lit ''interface'' @ space1 @ word1 @ space1 @ lit ''extends'' @ space1 @ grp 1 word1"

definition class_implements :: "rx list" where
  \<comment> \<open>\<open>class\s+\w+\s+implements\s+(\w+)\<close>\<close>
  "class_implements =
     lit ''class'' @ space1 @ word1 @ space1 @ lit ''implements'' @ space1 @ grp 1 word1"

definition python_inherits :: "rx list list" where
  \<comment> \<open>\<open>class\s+\w+\s*\(\s*(\w+)\<close> and \<open>class\s+\w+\s*\(\s*(\w+(?:\.\w+)*)\<close>\<close>
  "python_inherits =
     [lit ''class'' @ space1 @ word1 @ space0 @ lit ''('' @ space0 @ grp 1 word1,
      lit ''class'' @ space1 @ word1 @ space0 @ lit ''('' @ space0
        @ grp 1 (word1 @ [Rep (Lit (CHR ''.'')) word1])]"

definition csharp_inherits :: "rx list list" where
  \<comment> \<open>\<open>class\s+\w+\s*:\s*(\w+)\<close>\<close>
  "csharp_inherits = [lit ''class'' @ space1 @ word1 @ space0 @ lit '':'' @ space0 @ grp 1 word1]"

definition csharp_implements :: "rx list list" where
  \<comment> \<open>\<open>class\s+\w+\s*:\s*\w+,\s*(\w+)\<close>\<close>
  "csharp_implements =
     [lit ''class'' @ space1 @ word1 @ space0 @ lit '':'' @ space0 @ word1 @ lit '','' @ space0
        @ grp 1 word1]"

definition relationship_patterns :: "(string \<times> (string \<times> rx list list) list) list" where
  "relationship_patterns =
     [(''python'', [(''calls'', calls_patterns), (''inherits'', python_inherits)]),
      (''javascript'', [(''calls'', calls_patterns), (''inherits'', [class_extends])]),
      (''typescript'', [(''calls'', calls_patterns),
                        (''inherits'', [class_extends, interface_extends]),
                        (''implements'', [class_implements])]),
      (''java'', [(''calls'', calls_patterns), (''inherits'', [class_extends]),
                  (''implements'', [class_implements])]),
      (''go'', [(''calls'', calls_patterns)]),
      (''rust'', [(''calls'', rust_calls_patterns)]),
      (''csharp'', [(''calls'', calls_patterns), (''inherits'', csharp_inherits),
                    (''implements'', csharp_implements)])]"

section \<open>graph_builder.py: locating nodes\<close>

definition truthy_int :: "int option \<Rightarrow> bool" where
  \<comment> \<open>Python's truth value of an optional integer: \<open>None\<close> and \<open>0\<close> are false\<close>
  "truthy_int v = (case v of None \<Rightarrow> False | Some k \<Rightarrow> k \<noteq> 0)"

definition or0 :: "int option \<Rightarrow> int" where
  \<comment> \<open>\<open>v or 0\<close>\<close>
  "or0 v = (case v of None \<Rightarrow> 0 | Some k \<Rightarrow> k)"

fun first_max_by :: "('a \<Rightarrow> int) \<Rightarrow> 'a \<Rightarrow> 'a list \<Rightarrow> 'a" where
  "first_max_by key best [] = best"
| "first_max_by key best (x # xs) = first_max_by key (if key x > key best then x else best) xs"

definition py_max_by :: "('a \<Rightarrow> int) \<Rightarrow> 'a list \<Rightarrow> 'a option" where
  \<comment> \<open>\<open>max(xs, key=...)\<close>, the first of the maximal elements; \<open>None\<close> for the empty list,
      which the callers exclude before the call\<close>
  "py_max_by key xs = (case xs of [] \<Rightarrow> None | x # rest \<Rightarrow> Some (first_max_by key x rest))"

fun first_min_by :: "('a \<Rightarrow> int) \<Rightarrow> 'a \<Rightarrow> 'a list \<Rightarrow> 'a" where
  "first_min_by key best [] = best"
| "first_min_by key best (x # xs) = first_min_by key (if key x < key best then x else best) xs"

definition py_min_by :: "('a \<Rightarrow> int) \<Rightarrow> 'a list \<Rightarrow> 'a option" where
  \<comment> \<open>\<open>min(xs, key=...)\<close>, the first of the minimal elements\<close>
  "py_min_by key xs = (case xs of [] \<Rightarrow> None | x # rest \<Rightarrow> Some (first_min_by key x rest))"

definition at_line :: "int \<Rightarrow> KGNode \<Rightarrow> bool" where
  \<comment> \<open>the two conditions under which \<open>_find_node_at_line\<close> appends a candidate\<close>
  "at_line line_num node =
     ((truthy_int (line_start node) \<and> truthy_int (line_end node)
         \<and> or0 (line_start node) \<le> line_num \<and> line_num \<le> or0 (line_end node))
      \<or> (truthy_int (line_start node) \<and> or0 (line_start node) \<le> line_num))"

definition find_node_at_line :: "KGNode list \<Rightarrow> int \<Rightarrow> KGNode option" where
  \<comment> \<open>\<open>GraphBuilder._find_node_at_line\<close>\<close>
  "find_node_at_line nodes line_num =
     py_max_by (\<lambda>x. or0 (line_start x)) (filter (at_line line_num) nodes)"

definition encloses :: "KGNode \<Rightarrow> KGNode \<Rightarrow> bool" where
  \<comment> \<open>the condition under which \<open>_find_parent_node\<close> appends \<open>candidate\<close> for \<open>node\<close>\<close>
  "encloses candidate node =
     (node_id candidate \<noteq> node_id node
      \<and> truthy_int (line_start candidate) \<and> truthy_int (line_end candidate)
      \<and> or0 (line_start candidate) < or0 (line_start node)
      \<and> or0 (line_end candidate)
          > (if truthy_int (line_end node) then or0 (line_end node) else or0 (line_start node)))"

definition span :: "KGNode \<Rightarrow> int" where
  "span x = or0 (line_end x) - or0 (line_start x)"

definition find_parent_node :: "KGNode \<Rightarrow> KGNode list \<Rightarrow> KGNode option" where
  \<comment> \<open>\<open>GraphBuilder._find_parent_node\<close>\<close>
  "find_parent_node node all_nodes =
     (if \<not> truthy_int (line_start node) then None
      else py_min_by span (filter (\<lambda>candidate. encloses candidate node) all_nodes))"

fun group_append :: "'k \<Rightarrow> 'v \<Rightarrow> ('k \<times> 'v list) list \<Rightarrow> ('k \<times> 'v list) list" where
  \<comment> \<open>\<open>d[k].append(v)\<close> on a \<open>defaultdict(list)\<close>\<close>
  "group_append k v [] = [(k, [v])]"
| "group_append k v ((k', vs) # d) =
     (if k' = k then (k', vs @ [v]) # d else (k', vs) # group_append k v d)"

definition nodes_by_file :: "KGNode list \<Rightarrow> (string \<times> KGNode list) list" where
  \<comment> \<open>\<open>for node in nodes: nodes_by_file[node.file_path].append(node)\<close>\<close>
  "nodes_by_file nodes = fold (\<lambda>node d. group_append (file_path node) node d) nodes []"

definition by_name :: "KGNode list \<Rightarrow> string \<Rightarrow> KGNode option" where
  \<comment> \<open>\<open>{node.name: node for node in nodes}.get(nm)\<close>: the last node of the name\<close>
  "by_name nodes nm = map_of (rev (map (\<lambda>node. (name node, node)) nodes)) nm"

section \<open>graph_builder.py: relationships within a file\<close>

fun match_loop ::
  "probe option \<Rightarrow> RelationshipType \<Rightarrow> real \<Rightarrow> (KGNode \<Rightarrow> KGNode \<Rightarrow> bool) \<Rightarrow> KGNode list \<Rightarrow> string
     \<Rightarrow> (nat \<times> string) list \<Rightarrow> KGRelationship list \<Rightarrow> world
     \<Rightarrow> (error + KGRelationship list) \<times> world" where
  \<comment> \<open>\<open>for match in re.finditer(pattern, content)\<close>: the probe, the node at the match's line,
      the node of the matched name, and the relationship when \<open>accept\<close> holds of both\<close>
  "match_loop cc ty conf accept file_nodes content [] rels w = (Inr rels, w)"
| "match_loop cc ty conf accept file_nodes content ((start, nm) # ms) rels w =
     (case check cc w of
        (Inl e, w1) \<Rightarrow> (Inl e, w1)
      | (Inr u, w1) \<Rightarrow>
          (let line_num = int (count_list (take start content) newline) + 1 in
           case (find_node_at_line file_nodes line_num, by_name file_nodes nm) of
             (Some subject, Some target) \<Rightarrow>
               if accept subject target then
                 (let (rid, w2) = uuid4 w1
                  in match_loop cc ty conf accept file_nodes content ms
                       (rels @ [mk_rel rid (node_id subject) (node_id target) ty conf False]) w2)
               else match_loop cc ty conf accept file_nodes content ms rels w1
           | _ \<Rightarrow> match_loop cc ty conf accept file_nodes content ms rels w1))"

fun pattern_loop ::
  "probe option \<Rightarrow> RelationshipType \<Rightarrow> real \<Rightarrow> (KGNode \<Rightarrow> KGNode \<Rightarrow> bool) \<Rightarrow> KGNode list \<Rightarrow> string
     \<Rightarrow> rx list list \<Rightarrow> KGRelationship list \<Rightarrow> world
     \<Rightarrow> (error + KGRelationship list) \<times> world" where
  \<comment> \<open>\<open>for pattern in patterns[kind]\<close>\<close>
  "pattern_loop cc ty conf accept file_nodes content [] rels w = (Inr rels, w)"
| "pattern_loop cc ty conf accept file_nodes content (pattern # ps) rels w =
     (case match_loop cc ty conf accept file_nodes content (finditer pattern content) rels w of
        (Inl e, w1) \<Rightarrow> (Inl e, w1)
      | (Inr rels1, w1) \<Rightarrow> pattern_loop cc ty conf accept file_nodes content ps rels1 w1)"

definition build_intra_file_relationships ::
  "probe option \<Rightarrow> KGNode list \<Rightarrow> string \<Rightarrow> string \<Rightarrow> world
     \<Rightarrow> (error + KGRelationship list) \<times> world" where
  \<comment> \<open>\<open>GraphBuilder._build_intra_file_relationships\<close>: calls need two different nodes,
      inheritance a class as the child, implementation nothing more\<close>
  "build_intra_file_relationships cc file_nodes content lang w =
     (let patterns = get_or relationship_patterns lang [] in
      case pattern_loop cc CALLS 0.8 (\<lambda>caller callee. node_id caller \<noteq> node_id callee)
             file_nodes content (get_or patterns ''calls'' []) [] w of
        (Inl e, w1) \<Rightarrow> (Inl e, w1)
      | (Inr rels1, w1) \<Rightarrow>
          (case pattern_loop cc INHERITS 0.9 (\<lambda>child parent. node_type child = CLASS)
                  file_nodes content (get_or patterns ''inherits'' []) rels1 w1 of
             (Inl e, w2) \<Rightarrow> (Inl e, w2)
           | (Inr rels2, w2) \<Rightarrow>
               pattern_loop cc IMPLEMENTS 0.9 (\<lambda>implementer interface. True)
                 file_nodes content (get_or patterns ''implements'' []) rels2 w2))"

section \<open>graph_builder.py: relationships across files\<close>

definition find_import_target :: "string \<Rightarrow> KGNode list \<Rightarrow> KGNode option" where
  \<comment> \<open>the first file or module node whose name is the import's name, or whose path contains
      it: where the inner loop over \<open>all_nodes\<close> breaks\<close>
  "find_import_target import_name all_nodes =
     find (\<lambda>node. node_type node \<in> set [FILE, MODULE]
                  \<and> (name node = import_name \<or> py_in import_name (file_path node))) all_nodes"

fun import_loop ::
  "probe option \<Rightarrow> KGNode list \<Rightarrow> KGNode list \<Rightarrow> KGRelationship list \<Rightarrow> world
     \<Rightarrow> (error + KGRelationship list) \<times> world" where
  \<comment> \<open>\<open>for i, import_node in enumerate(import_nodes)\<close>\<close>
  "import_loop cc all_nodes [] rels w = (Inr rels, w)"
| "import_loop cc all_nodes (import_node # rest) rels w =
     (case check cc w of
        (Inl e, w1) \<Rightarrow> (Inl e, w1)
      | (Inr u, w1) \<Rightarrow>
          (case find_import_target (name import_node) all_nodes of
             Some node \<Rightarrow>
               (let (rid, w2) = uuid4 w1
                in import_loop cc all_nodes rest
                     (rels @ [mk_rel rid (node_id import_node) (node_id node) IMPORTS 0.7 True]) w2)
           | None \<Rightarrow> import_loop cc all_nodes rest rels w1))"

fun first_referencer :: "string \<Rightarrow> KGNode list \<Rightarrow> string list \<Rightarrow> int \<Rightarrow> KGNode option" where
  \<comment> \<open>\<open>for line_num, line in enumerate(lines, 1)\<close>: the node at the first line that holds
      the name and has a node\<close>
  "first_referencer nm file_nodes [] line_num = None"
| "first_referencer nm file_nodes (line # rest) line_num =
     (if py_in nm line then
        (case find_node_at_line file_nodes line_num of
           Some referencer \<Rightarrow> Some referencer
         | None \<Rightarrow> first_referencer nm file_nodes rest (line_num + 1))
      else first_referencer nm file_nodes rest (line_num + 1))"

fun reference_loop ::
  "string \<Rightarrow> string \<Rightarrow> KGNode list \<Rightarrow> KGNode list \<Rightarrow> KGRelationship list \<Rightarrow> world
     \<Rightarrow> KGRelationship list \<times> world" where
  \<comment> \<open>\<open>for node in all_nodes\<close> inside the loop over the files\<close>
  "reference_loop fp content file_nodes [] rels w = (rels, w)"
| "reference_loop fp content file_nodes (node # rest) rels w =
     (if file_path node \<noteq> fp \<and> py_in (name node) content then
        (case first_referencer (name node) file_nodes (split_on newline content) 1 of
           Some referencer \<Rightarrow>
             (let (rid, w1) = uuid4 w
              in reference_loop fp content file_nodes rest
                   (rels @ [mk_rel rid (node_id referencer) (node_id node) USES 0.6 True]) w1)
         | None \<Rightarrow> reference_loop fp content file_nodes rest rels w)
      else reference_loop fp content file_nodes rest rels w)"

fun usage_loop ::
  "probe option \<Rightarrow> KGNode list \<Rightarrow> (string \<times> string) list \<Rightarrow> KGRelationship list \<Rightarrow> world
     \<Rightarrow> (error + KGRelationship list) \<times> world" where
  \<comment> \<open>\<open>for file_path, content in file_contents.items()\<close>\<close>
  "usage_loop cc all_nodes [] rels w = (Inr rels, w)"
| "usage_loop cc all_nodes ((fp, content) # rest) rels w =
     (case check cc w of
        (Inl e, w1) \<Rightarrow> (Inl e, w1)
      | (Inr u, w1) \<Rightarrow>
          (let file_nodes = filter (\<lambda>node. file_path node = fp) all_nodes in
           if file_nodes = [] then usage_loop cc all_nodes rest rels w1
           else
             (let (rels1, w2) = reference_loop fp content file_nodes all_nodes rels w1
              in usage_loop cc all_nodes rest rels1 w2)))"

definition build_cross_file_relationships ::
  "probe option \<Rightarrow> KGNode list \<Rightarrow> (string \<times> string) list \<Rightarrow> world
     \<Rightarrow> (error + KGRelationship list) \<times> world" where
  \<comment> \<open>\<open>GraphBuilder._build_cross_file_relationships\<close>, without \<open>progress_callback\<close>\<close>
  "build_cross_file_relationships cc all_nodes file_contents w =
     (case import_loop cc all_nodes (filter (\<lambda>node. node_type node = IMPORT) all_nodes) [] w of
        (Inl e, w1) \<Rightarrow> (Inl e, w1)
      | (Inr rels1, w1) \<Rightarrow> usage_loop cc all_nodes file_contents rels1 w1)"

section \<open>graph_builder.py: containment\<close>

fun contain_nodes ::
  "uuid \<Rightarrow> KGNode list \<Rightarrow> KGNode list \<Rightarrow> KGRelationship list \<Rightarrow> world
     \<Rightarrow> KGRelationship list \<times> world" where
  \<comment> \<open>\<open>for node in non_file_nodes\<close>: one relationship for each node, from its parent or
      from the file node\<close>
  "contain_nodes file_id non_file_nodes [] rels w = (rels, w)"
| "contain_nodes file_id non_file_nodes (node # rest) rels w =
     (let source = (case find_parent_node node non_file_nodes of
                      Some parent_node \<Rightarrow> node_id parent_node
                    | None \<Rightarrow> file_id);
          (rid, w1) = uuid4 w
      in contain_nodes file_id non_file_nodes rest
           (rels @ [mk_rel rid source (node_id node) CONTAINS 1.0 False]) w1)"

fun containment_loop ::
  "probe option \<Rightarrow> (string \<times> KGNode list) list \<Rightarrow> KGRelationship list \<Rightarrow> world
     \<Rightarrow> (error + KGRelationship list) \<times> world" where
  \<comment> \<open>\<open>for file_path, file_nodes in nodes_by_file.items()\<close>\<close>
  "containment_loop cc [] rels w = (Inr rels, w)"
| "containment_loop cc ((fp, file_nodes) # rest) rels w =
     (case check cc w of
        (Inl e, w1) \<Rightarrow> (Inl e, w1)
      | (Inr u, w1) \<Rightarrow>
          (case find (\<lambda>node. node_type node = FILE) file_nodes of
             None \<Rightarrow> containment_loop cc rest rels w1
           | Some file_node \<Rightarrow>
               (let non_file_nodes =
                      sort_key (\<lambda>x. or0 (line_start x))
                        (filter (\<lambda>node. node_type node \<noteq> FILE) file_nodes);
                    (rels1, w2) = contain_nodes (node_id file_node) non_file_nodes
                                    non_file_nodes rels w1
                in containment_loop cc rest rels1 w2)))"

definition build_containment_relationships ::
  "probe option \<Rightarrow> KGNode list \<Rightarrow> world \<Rightarrow> (error + KGRelationship list) \<times> world" where
  \<comment> \<open>\<open>GraphBuilder._build_containment_relationships\<close>\<close>
  "build_containment_relationships cc nodes w = containment_loop cc (nodes_by_file nodes) [] w"

section \<open>graph_builder.py: build_relationships\<close>

definition first_language :: "KGNode list \<Rightarrow> string option" where
  \<comment> \<open>the language of the first node that is not a file node\<close>
  "first_language file_nodes =
     map_option node_language (find (\<lambda>node. node_type node \<noteq> FILE) file_nodes)"

fun intra_loop ::
  "probe option \<Rightarrow> (string \<times> string) list \<Rightarrow> (string \<times> KGNode list) list
     \<Rightarrow> KGRelationship list \<Rightarrow> world \<Rightarrow> (error + KGRelationship list) \<times> world" where
  \<comment> \<open>the first loop over \<open>nodes_by_file.items()\<close>; a file without text or without a
      language is passed over\<close>
  "intra_loop cc file_contents [] rels w = (Inr rels, w)"
| "intra_loop cc file_contents ((fp, file_nodes) # rest) rels w =
     (case check cc w of
        (Inl e, w1) \<Rightarrow> (Inl e, w1)
      | (Inr u, w1) \<Rightarrow>
          (let content = get_or file_contents fp [] in
           if content = [] then intra_loop cc file_contents rest rels w1
           else
             (case first_language file_nodes of
                None \<Rightarrow> intra_loop cc file_contents rest rels w1
              | Some lang \<Rightarrow>
                  if lang = [] then intra_loop cc file_contents rest rels w1
                  else
                    (case build_intra_file_relationships cc file_nodes content lang w1 of
                       (Inl e, w2) \<Rightarrow> (Inl e, w2)
                     | (Inr file_relationships, w2) \<Rightarrow>
                         intra_loop cc file_contents rest (rels @ file_relationships) w2))))"

definition build_relationships ::
  "probe option \<Rightarrow> KGNode list \<Rightarrow> (string \<times> string) list \<Rightarrow> world
     \<Rightarrow> (error + KGRelationship list) \<times> world" where
  \<comment> \<open>\<open>GraphBuilder.build_relationships\<close>, without \<open>progress_callback\<close>; \<open>file_contents\<close> is the
      dict in insertion order\<close>
  "build_relationships cc nodes file_contents w =
     (case intra_loop cc file_contents (nodes_by_file nodes) [] w of
        (Inl e, w1) \<Rightarrow> (Inl e, w1)
      | (Inr relationships, w1) \<Rightarrow>
          (case build_cross_file_relationships cc nodes file_contents w1 of
             (Inl e, w2) \<Rightarrow> (Inl e, w2)
           | (Inr cross_file_relationships, w2) \<Rightarrow>
               (case build_containment_relationships cc nodes w2 of
                  (Inl e, w3) \<Rightarrow> (Inl e, w3)
                | (Inr containment_relationships, w3) \<Rightarrow>
                    (Inr (relationships @ cross_file_relationships @ containment_relationships),
                     w3))))"

section \<open>The parser followed by the graph builder\<close>






definition a_py :: string where
  "a_py = ''class Foo:'' @ [newline] @ ''    def bar(self): pass'' @ [newline]"

definition b_py :: string where
  "b_py = ''from a import Foo'' @ [newline] @ ''class Baz(Foo):'' @ [newline] @ ''    pass''
          @ [newline]"

definition two_file_repository :: "(string \<times> string) list" where
  "two_file_repository = [(''a.py'', a_py), (''b.py'', b_py)]"





section \<open>What the parsers' loop maintains\<close>






section \<open>knowledge_graph_service.py: the ingestion job\<close>

text \<open>
  \<open>KnowledgeGraphService.parse_repository\<close> runs against a store, a file system, a progress
  callback and a task registry.  The model keeps what the job changes in a record \<open>job\<close>
  and what the outside decides in a record \<open>env\<close>.

  A request to the store is answered by \<open>db_fails\<close>, asked with the number of requests made
  so far; a failed insert of the source or repository row raises, a failed update or
  batch is logged by the code and passed over.  The progress callback records the event it
  is given and then raises what \<open>progress_callback\<close> answers for this call, if anything: its
  \<open>await\<close> is where the event loop delivers a cancellation of the task, and its own
  failures arrive there too.  \<open>task_cancelled\<close> is the condition \<open>check_cancellation\<close>
  tests, that the service's registry holds the job's task and \<open>task.cancelled()\<close> is true,
  asked with the number of probe calls made so far.  Cloning and reading the tree are
  functions of the environment; they have no \<open>await\<close> besides the callback and raise
  exceptions of class \<open>Exception\<close> only, given here by their message.

  Left out: log lines, times and durations (\<open>parsing_duration\<close>, \<open>avg_parse_time\<close>,
  \<open>success_rate\<close>), \<open>languages_detected\<close>, the \<open>message\<close> of \<open>ParseResult\<close>, the repository
  row's columns, and the removal of the clone directory in the \<open>finally\<close> clause, which
  touches neither the source row nor the progress callback.  An event is built by
  \<open>ParsingProgress(...)\<close>, whose field \<open>errors\<close> is a list of strings; the job passes its
  failure records, which are dicts, so building an event with a failure record raises a
  validation error before the callback is called, and every event that is emitted has
  no errors.
\<close>

record ParseRequest =
  rq_name :: string
  rq_repository_url :: "string option"
  rq_local_path :: "string option"
  rq_branch_name :: string
  rq_languages :: "string list option"
  rq_max_file_size_kb :: int
  rq_enable_cross_file_refs :: bool

record KGSource =
  src_id :: uuid
  src_parsing_status :: ParsingStatus
  src_parsing_error :: "string option"
  src_total_nodes_created :: "nat option"
  src_total_relationships_created :: "nat option"

record ParsingProgress =
  pg_kg_source_id :: "uuid option"
  pg_status :: ParsingStatus
  pg_total_files :: nat
  pg_processed_files :: nat
  pg_current_file :: "string option"
  pg_nodes_created :: nat
  pg_relationships_created :: nat

record job_statistics =
  js_total_files :: nat
  js_parsed_files :: int
  js_failed_files :: nat
  js_total_nodes :: nat
  js_total_relationships :: nat

record ParseResult =
  pr_success :: bool
  pr_kg_source_id :: "uuid option"
  pr_kg_repository_id :: "uuid option"
  pr_statistics :: "job_statistics option"
  pr_error :: "string option"

record env =
  progress_callback :: "(nat \<Rightarrow> error option) option"
  task_cancelled :: "nat \<Rightarrow> bool"
  db_fails :: "nat \<Rightarrow> bool"
  path_exists :: "string \<Rightarrow> bool"
  git_clone :: "string \<Rightarrow> string \<Rightarrow> string + string"
  read_repository_files :: "string \<Rightarrow> string list option \<Rightarrow> int \<Rightarrow> string + (string \<times> string) list"

record job =
  job_world :: world
  job_source_id :: "uuid option"
  job_repository_id :: "uuid option"
  job_cloned_temp_dir :: "string option"
  source_row :: "KGSource option"
  events :: "ParsingProgress list"
  callback_calls :: nat
  db_calls :: nat
  stored_nodes :: "KGNode list"
  stored_relationships :: "KGRelationship list"

record counters =
  processed_files :: nat
  total_nodes_created :: nat
  total_relationships_created :: nat
  failed_files :: "(string \<times> string option) list"

definition truthy_str :: "string option \<Rightarrow> bool" where
  \<comment> \<open>Python's truth value of an optional string\<close>
  "truthy_str v = (case v of None \<Rightarrow> False | Some s \<Rightarrow> s \<noteq> [])"

definition job_uuid4 :: "job \<Rightarrow> uuid \<times> job" where
  "job_uuid4 j = (let (i, w) = uuid4 (job_world j) in (i, j\<lparr>job_world := w\<rparr>))"

definition db_request :: "env \<Rightarrow> job \<Rightarrow> bool \<times> job" where
  \<comment> \<open>one request to the store: whether it went through\<close>
  "db_request ev j = (\<not> db_fails ev (db_calls j), j\<lparr>db_calls := Suc (db_calls j)\<rparr>)"

definition check_cancellation :: "env \<Rightarrow> probe" where
  \<comment> \<open>the closure \<open>check_cancellation\<close> of \<open>parse_repository\<close>\<close>
  "check_cancellation ev k =
     (if task_cancelled ev k then Some (CancelledError ''Parsing was cancelled'') else None)"

definition create_kg_source :: "env \<Rightarrow> ParseRequest \<Rightarrow> job \<Rightarrow> (error + uuid) \<times> job" where
  \<comment> \<open>\<open>_create_kg_source\<close>: the row is inserted with status \<open>pending\<close>\<close>
  "create_kg_source ev request j =
     (let (i, j1) = job_uuid4 j;
          (ok, j2) = db_request ev j1
      in if ok then
           (Inr i, j2\<lparr>source_row := Some \<lparr>src_id = i, src_parsing_status = PENDING,
                                            src_parsing_error = None,
                                            src_total_nodes_created = None,
                                            src_total_relationships_created = None\<rparr>\<rparr>)
         else (Inl (Exception ''Failed to create KG source record''), j2))"

definition create_kg_repository :: "env \<Rightarrow> job \<Rightarrow> (error + uuid) \<times> job" where
  \<comment> \<open>\<open>_create_kg_repository\<close>\<close>
  "create_kg_repository ev j =
     (let (i, j1) = job_uuid4 j;
          (ok, j2) = db_request ev j1
      in if ok then (Inr i, j2)
         else (Inl (Exception ''Failed to create KG repository record''), j2))"

definition update_kg_source_status ::
  "env \<Rightarrow> uuid \<Rightarrow> ParsingStatus \<Rightarrow> string option \<Rightarrow> nat option \<Rightarrow> nat option \<Rightarrow> job \<Rightarrow> job" where
  \<comment> \<open>\<open>_update_kg_source_status\<close>: the row of the given id gets the status, the error
      message if one is given and not empty, and the totals that are given; a failure of
      the store is logged and nothing changes\<close>
  "update_kg_source_status ev i status error_message nodes_created relationships_created j =
     (let (ok, j1) = db_request ev j in
      if \<not> ok then j1
      else
        (case source_row j1 of
           None \<Rightarrow> j1
         | Some row \<Rightarrow>
             if src_id row \<noteq> i then j1
             else j1\<lparr>source_row := Some (row
                    \<lparr>src_parsing_status := status,
                     src_parsing_error :=
                       (if truthy_str error_message then error_message
                        else src_parsing_error row),
                     src_total_nodes_created :=
                       (case nodes_created of None \<Rightarrow> src_total_nodes_created row
                        | Some n \<Rightarrow> Some n),
                     src_total_relationships_created :=
                       (case relationships_created of
                          None \<Rightarrow> src_total_relationships_created row
                        | Some n \<Rightarrow> Some n)\<rparr>)\<rparr>))"

definition update_repository_statistics :: "env \<Rightarrow> job \<Rightarrow> job" where
  \<comment> \<open>\<open>_update_repository_statistics\<close>: one request to the store, failures logged\<close>
  "update_repository_statistics ev j = snd (db_request ev j)"

definition call_progress_callback :: "env \<Rightarrow> ParsingProgress \<Rightarrow> job \<Rightarrow> (error + unit) \<times> job" where
  \<comment> \<open>\<open>await progress_callback(progress)\<close>, for a callback that is given\<close>
  "call_progress_callback ev progress j =
     (case progress_callback ev of
        None \<Rightarrow> (Inr (), j)
      | Some cb \<Rightarrow>
          (let j1 = j\<lparr>events := events j @ [progress],
                      callback_calls := Suc (callback_calls j)\<rparr>
           in case cb (callback_calls j) of
                Some e \<Rightarrow> (Inl e, j1)
              | None \<Rightarrow> (Inr (), j1)))"

definition create_progress_callback ::
  "env \<Rightarrow> ParsingStatus \<Rightarrow> nat \<Rightarrow> nat \<Rightarrow> string option \<Rightarrow> nat \<Rightarrow> nat
     \<Rightarrow> (string \<times> string option) list \<Rightarrow> job \<Rightarrow> (error + unit) \<times> job" where
  \<comment> \<open>the closure \<open>create_progress_callback\<close>: \<open>if progress_callback:\<close>, then the event is
      built, which raises when \<open>errors\<close> holds a failure record, then the callback\<close>
  "create_progress_callback ev status total_files processed current nodes_created rels_created
       errors j =
     (case progress_callback ev of
        None \<Rightarrow> (Inr (), j)
      | Some cb \<Rightarrow>
          if errors \<noteq> [] then (Inl (ValueError ''validation error for ParsingProgress''), j)
          else call_progress_callback ev
                 \<lparr>pg_kg_source_id = job_source_id j, pg_status = status,
                  pg_total_files = total_files, pg_processed_files = processed,
                  pg_current_file = current, pg_nodes_created = nodes_created,
                  pg_relationships_created = rels_created\<rparr> j)"

definition clone_repository :: "env \<Rightarrow> string \<Rightarrow> string \<Rightarrow> job \<Rightarrow> (error + string) \<times> job" where
  \<comment> \<open>\<open>_clone_repository\<close>: the event of the clone, whose source id is the text \<open>temp\<close>
      (\<open>None\<close> here), then \<open>git clone\<close>; the handler \<open>except Exception\<close> wraps what it catches\<close>
  "clone_repository ev url branch j =
     (case call_progress_callback ev
             \<lparr>pg_kg_source_id = None, pg_status = PROCESSING, pg_total_files = 0,
              pg_processed_files = 0, pg_current_file = Some (''Cloning '' @ url),
              pg_nodes_created = 0, pg_relationships_created = 0\<rparr> j of
        (Inl e, j1) \<Rightarrow>
          if is_Exception e
            then (Inl (Exception (''Failed to clone repository: '' @ error_str e)), j1)
          else (Inl e, j1)
      | (Inr u, j1) \<Rightarrow>
          (case git_clone ev url branch of
             Inl msg \<Rightarrow> (Inl (Exception (''Failed to clone repository: '' @ msg)), j1)
           | Inr temp_dir \<Rightarrow> (Inr temp_dir, j1)))"

fun store_batches :: "env \<Rightarrow> 'a list list \<Rightarrow> 'a list \<Rightarrow> job \<Rightarrow> 'a list \<times> job" where
  \<comment> \<open>the loop over the batches of \<open>_store_nodes_and_relationships\<close>: a batch that fails is
      logged and the loop goes on; returns the rows that were stored\<close>
  "store_batches ev [] stored j = (stored, j)"
| "store_batches ev (batch # rest) stored j =
     (let (ok, j1) = db_request ev j
      in store_batches ev rest (if ok then stored @ batch else stored) j1)"

definition store_nodes_and_relationships ::
  "env \<Rightarrow> KGNode list \<Rightarrow> KGRelationship list \<Rightarrow> nat \<Rightarrow> job \<Rightarrow> job" where
  \<comment> \<open>\<open>_store_nodes_and_relationships\<close>; nothing in it raises\<close>
  "store_nodes_and_relationships ev nodes relationships batch_size j =
     (let (new_nodes, j1) = store_batches ev (batches batch_size nodes) [] j;
          (new_rels, j2) = store_batches ev (batches batch_size relationships) [] j1
      in j2\<lparr>stored_nodes := stored_nodes j2 @ new_nodes,
             stored_relationships := stored_relationships j2 @ new_rels\<rparr>)"

definition stream_store_file_data ::
  "env \<Rightarrow> KGNode list \<Rightarrow> KGRelationship list \<Rightarrow> job \<Rightarrow> bool \<times> job" where
  \<comment> \<open>\<open>_stream_store_file_data\<close>: \<open>False\<close> is returned from its handler only, which nothing
      here reaches\<close>
  "stream_store_file_data ev nodes relationships j =
     (if nodes = [] \<and> relationships = [] then (True, j)
      else (True, store_nodes_and_relationships ev nodes relationships 25 j))"

definition last_errors :: "(string \<times> string option) list \<Rightarrow> (string \<times> string option) list" where
  \<comment> \<open>\<open>failed_files[-10:] if failed_files else []\<close>\<close>
  "last_errors failed = drop (length failed - 10) failed"

definition file_failed :: "string \<Rightarrow> error \<Rightarrow> counters \<Rightarrow> job \<Rightarrow> (error + counters) \<times> job" where
  \<comment> \<open>an exception in the \<open>try\<close> of the loop over the files: the handler \<open>except Exception\<close>
      records the file and counts it as processed; a cancellation goes on\<close>
  "file_failed fp e st j =
     (if is_Exception e then
        (Inr (st\<lparr>failed_files := failed_files st @ [(fp, Some (error_str e))],
                 processed_files := processed_files st + 1\<rparr>), j)
      else (Inl e, j))"

definition store_file_result ::
  "env \<Rightarrow> string \<Rightarrow> KGNode list \<Rightarrow> KGRelationship list \<Rightarrow> FileParseResult \<Rightarrow> counters
     \<Rightarrow> job \<Rightarrow> counters \<times> job" where
  \<comment> \<open>\<open>if result.success: ... else: ...\<close> in the loop over the files: the file is stored
      and counted, or recorded as failed\<close>
  "store_file_result ev fp nodes relationships result st j =
     (if success result then
        (let (storage_success, j') = stream_store_file_data ev nodes relationships j
         in if storage_success then
              (st\<lparr>total_nodes_created := total_nodes_created st + length nodes,
                  total_relationships_created :=
                    total_relationships_created st + length relationships\<rparr>, j')
            else
              (st\<lparr>failed_files := failed_files st @ [(fp, Some ''Storage failed'')]\<rparr>, j'))
      else (st\<lparr>failed_files := failed_files st @ [(fp, result_error result)]\<rparr>, j))"

definition count_and_report ::
  "env \<Rightarrow> nat \<Rightarrow> string \<Rightarrow> counters \<Rightarrow> job \<Rightarrow> (error + counters) \<times> job" where
  \<comment> \<open>\<open>processed_files += 1\<close> and the event after every fifth file and after the last\<close>
  "count_and_report ev total_files fp st j =
     (let st2 = st\<lparr>processed_files := processed_files st + 1\<rparr>
      in if processed_files st2 mod 5 = 0 \<or> processed_files st2 = total_files then
           (case create_progress_callback ev PROCESSING total_files (processed_files st2)
                   (Some fp) (total_nodes_created st2) (total_relationships_created st2)
                   (last_errors (failed_files st2)) j of
              (Inl e, j3) \<Rightarrow> file_failed fp e st2 j3
            | (Inr u, j3) \<Rightarrow> (Inr st2, j3))
         else (Inr st2, j))"

definition process_file ::
  "env \<Rightarrow> uuid \<Rightarrow> nat \<Rightarrow> string \<Rightarrow> string \<Rightarrow> counters \<Rightarrow> job \<Rightarrow> (error + counters) \<times> job" where
  \<comment> \<open>one pass of the loop over \<open>file_contents.items()\<close>, a \<open>try\<close> with the handler
      \<open>file_failed\<close>\<close>
  "process_file ev repository total_files fp content st j =
     (case parse_file (Some (check_cancellation ev)) fp content repository (job_world j) of
        (Inl e, w) \<Rightarrow> file_failed fp e st (j\<lparr>job_world := w\<rparr>)
      | (Inr (nodes, relationships, result), w) \<Rightarrow>
          (let (st1, j2) = store_file_result ev fp nodes relationships result st
                             (j\<lparr>job_world := w\<rparr>)
           in count_and_report ev total_files fp st1 j2))"

fun stream_files ::
  "env \<Rightarrow> uuid \<Rightarrow> nat \<Rightarrow> (string \<times> string) list \<Rightarrow> counters \<Rightarrow> job
     \<Rightarrow> (error + counters) \<times> job" where
  \<comment> \<open>\<open>for file_path, content in file_contents.items()\<close>\<close>
  "stream_files ev repository total_files [] st j = (Inr st, j)"
| "stream_files ev repository total_files ((fp, content) # rest) st j =
     (case process_file ev repository total_files fp content st j of
        (Inl e, j1) \<Rightarrow> (Inl e, j1)
      | (Inr st1, j1) \<Rightarrow> stream_files ev repository total_files rest st1 j1)"

definition cross_file_phase ::
  "env \<Rightarrow> (string \<times> string) list \<Rightarrow> counters \<Rightarrow> job \<Rightarrow> (error + counters) \<times> job" where
  \<comment> \<open>the \<open>try\<close> around \<open>build_relationships([], file_contents, ...)\<close>; its handler
      \<open>except Exception\<close> logs and goes on\<close>
  "cross_file_phase ev file_contents st j =
     (case build_relationships (Some (check_cancellation ev)) [] file_contents (job_world j) of
        (Inl e, w) \<Rightarrow>
          if is_Exception e then (Inr st, j\<lparr>job_world := w\<rparr>) else (Inl e, j\<lparr>job_world := w\<rparr>)
      | (Inr additional_relationships, w) \<Rightarrow>
          (let j1 = j\<lparr>job_world := w\<rparr> in
           if additional_relationships \<noteq> [] then
             (Inr (st\<lparr>total_relationships_created :=
                         total_relationships_created st + length additional_relationships\<rparr>),
              store_nodes_and_relationships ev [] additional_relationships 50 j1)
           else (Inr st, j1)))"

definition failure :: "job \<Rightarrow> string \<Rightarrow> ParseResult" where
  \<comment> \<open>\<open>ParseResult(success=False, ...)\<close> with the ids the job has so far\<close>
  "failure j msg =
     \<lparr>pr_success = False, pr_kg_source_id = job_source_id j,
      pr_kg_repository_id = job_repository_id j, pr_statistics = None, pr_error = Some msg\<rparr>"

definition finish_job ::
  "env \<Rightarrow> uuid \<Rightarrow> nat \<Rightarrow> counters \<Rightarrow> job \<Rightarrow> (error + ParseResult) \<times> job" where
  \<comment> \<open>after the two phases: the repository's statistics, the source row set to
      \<open>completed\<close> with the totals, the last event, the result\<close>
  "finish_job ev source total_files st j =
     (let j1 = update_repository_statistics ev j;
          j2 = update_kg_source_status ev source COMPLETED None
                 (Some (total_nodes_created st)) (Some (total_relationships_created st)) j1
      in case create_progress_callback ev COMPLETED total_files (processed_files st) None
                (total_nodes_created st) (total_relationships_created st)
                (last_errors (failed_files st)) j2 of
           (Inl e, j3) \<Rightarrow> (Inl e, j3)
         | (Inr u, j3) \<Rightarrow>
             (Inr \<lparr>pr_success = True, pr_kg_source_id = job_source_id j3,
                   pr_kg_repository_id = job_repository_id j3,
                   pr_statistics = Some
                     \<lparr>js_total_files = total_files,
                      js_parsed_files = int (processed_files st) - int (length (failed_files st)),
                      js_failed_files = length (failed_files st),
                      js_total_nodes = total_nodes_created st,
                      js_total_relationships = total_relationships_created st\<rparr>,
                   pr_error = None\<rparr>, j3))"

definition parse_files_and_finish ::
  "env \<Rightarrow> ParseRequest \<Rightarrow> uuid \<Rightarrow> string \<Rightarrow> job \<Rightarrow> (error + ParseResult) \<times> job" where
  \<comment> \<open>the \<open>try\<close> body from \<open>Path(repository_path).exists()\<close> on\<close>
  "parse_files_and_finish ev request source repository_path j =
     (if \<not> path_exists ev repository_path then
        (let j1 = update_kg_source_status ev source FAILED (Some ''Repository path not found'')
                    None None j
         in (Inr (failure j1 (''Path does not exist: '' @ repository_path)), j1))
      else
        (case read_repository_files ev repository_path (rq_languages request)
                (rq_max_file_size_kb request) of
           Inl msg \<Rightarrow> (Inl (Exception msg), j)
         | Inr file_contents \<Rightarrow>
             if file_contents = [] then
               (let j1 = update_kg_source_status ev source FAILED
                           (Some ''No parseable files found'') None None j
                in (Inr (failure j1 ''Repository contains no supported file types''), j1))
             else
               (case create_kg_repository ev j of
                  (Inl e, j1) \<Rightarrow> (Inl e, j1)
                | (Inr repository, j1) \<Rightarrow>
                    (let j2 = j1\<lparr>job_repository_id := Some repository\<rparr>;
                         total_files = length file_contents
                     in case stream_files ev repository total_files file_contents
                               \<lparr>processed_files = 0, total_nodes_created = 0,
                                total_relationships_created = 0, failed_files = []\<rparr> j2 of
                          (Inl e, j3) \<Rightarrow> (Inl e, j3)
                        | (Inr st, j3) \<Rightarrow>
                            (case cross_file_phase ev file_contents st j3 of
                               (Inl e, j4) \<Rightarrow> (Inl e, j4)
                             | (Inr st1, j4) \<Rightarrow> finish_job ev source total_files st1 j4)))))"

definition parse_body :: "env \<Rightarrow> ParseRequest \<Rightarrow> job \<Rightarrow> (error + ParseResult) \<times> job" where
  \<comment> \<open>the \<open>try\<close> body of \<open>parse_repository\<close>: what it returns, or the exception that leaves
      it, and the job at that moment\<close>
  "parse_body ev request j =
     (case create_kg_source ev request j of
        (Inl e, j1) \<Rightarrow> (Inl e, j1)
      | (Inr source, j1) \<Rightarrow>
          (let j2 = j1\<lparr>job_source_id := Some source\<rparr> in
           case create_progress_callback ev PROCESSING 0 0 None 0 0 [] j2 of
             (Inl e, j3) \<Rightarrow> (Inl e, j3)
           | (Inr u, j3) \<Rightarrow>
               if truthy_str (rq_local_path request) then
                 parse_files_and_finish ev request source (the (rq_local_path request)) j3
               else if truthy_str (rq_repository_url request) then
                 (case clone_repository ev (the (rq_repository_url request))
                         (rq_branch_name request) j3 of
                    (Inl e, j4) \<Rightarrow> (Inl e, j4)
                  | (Inr temp_dir, j4) \<Rightarrow>
                      parse_files_and_finish ev request source temp_dir
                        (j4\<lparr>job_cloned_temp_dir := Some temp_dir\<rparr>))
               else
                 (Inr \<lparr>pr_success = False, pr_kg_source_id = None, pr_kg_repository_id = None,
                       pr_statistics = None,
                       pr_error = Some ''Either local_path or repository_url must be specified''\<rparr>,
                  j3)))"

definition service_parse_repository :: "env \<Rightarrow> ParseRequest \<Rightarrow> job \<Rightarrow> ParseResult \<times> job" where
  \<comment> \<open>\<open>KnowledgeGraphService.parse_repository\<close>: the body and its two handlers,
      \<open>except asyncio.CancelledError\<close> and \<open>except Exception\<close>\<close>
  "service_parse_repository ev request j =
     (case parse_body ev request j of
        (Inr result, j1) \<Rightarrow> (result, j1)
      | (Inl e, j1) \<Rightarrow>
          if \<not> is_Exception e then
            (let j2 = (case job_source_id j1 of
                         Some source \<Rightarrow>
                           update_kg_source_status ev source FAILED
                             (Some ''Parsing was cancelled by user'') None None j1
                       | None \<Rightarrow> j1)
             in (failure j2 ''Operation was cancelled by user'', j2))
          else
            (let error_message = ''Repository parsing failed: '' @ error_str e;
                 j2 = (case job_source_id j1 of
                         Some source \<Rightarrow>
                           update_kg_source_status ev source FAILED (Some error_message)
                             None None j1
                       | None \<Rightarrow> j1)
             in (failure j2 error_message, j2)))"

definition new_job :: job where
  \<comment> \<open>the job before \<open>parse_repository\<close> starts\<close>
  "new_job =
     \<lparr>job_world = world0, job_source_id = None, job_repository_id = None,
      job_cloned_temp_dir = None, source_row = None, events = [], callback_calls = 0,
      db_calls = 0, stored_nodes = [], stored_relationships = []\<rparr>"

definition local_env :: env where
  \<comment> \<open>an environment for the examples: the two-file tree at the path \<open>repo\<close>, a store and a
      callback that never fail, no cancellation\<close>
  "local_env =
     \<lparr>progress_callback = Some (\<lambda>k. None), task_cancelled = (\<lambda>k. False),
      db_fails = (\<lambda>k. False), path_exists = (\<lambda>p. p = ''repo''),
      git_clone = (\<lambda>url branch. Inl ''no network''),
      read_repository_files = (\<lambda>p langs size. Inr two_file_repository)\<rparr>"

definition local_request :: ParseRequest where
  "local_request =
     \<lparr>rq_name = ''demo'', rq_repository_url = None, rq_local_path = Some ''repo'',
      rq_branch_name = ''main'', rq_languages = None, rq_max_file_size_kb = 500,
      rq_enable_cross_file_refs = True\<rparr>"

definition no_counters :: counters where
  "no_counters =
     \<lparr>processed_files = 0, total_nodes_created = 0, total_relationships_created = 0,
      failed_files = []\<rparr>"

section \<open>Cancellation of a job\<close>

text \<open>
  A cancellation reaches the job in two ways: a probe call finds the task cancelled, or
  the progress callback raises an exception that is not an \<open>Exception\<close>, which in the
  model is a \<open>CancelledError\<close>.  \<open>cancel_delivered\<close> says that one of the two happened between
  two moments of a job, read from the counts of probe calls and of callback calls.
\<close>

definition exception_of :: "error + 'a \<Rightarrow> error option" where
  \<comment> \<open>the exception a computation raised, if it raised one\<close>
  "exception_of r = (case r of Inl e \<Rightarrow> Some e | Inr x \<Rightarrow> None)"

definition probe_fired :: "env \<Rightarrow> world \<Rightarrow> world \<Rightarrow> bool" where
  "probe_fired ev w w1 = list_ex (task_cancelled ev) [probe_calls w..<probe_calls w1]"

definition callback_cancelled :: "env \<Rightarrow> job \<Rightarrow> job \<Rightarrow> bool" where
  "callback_cancelled ev j j1 =
     (case progress_callback ev of
        None \<Rightarrow> False
      | Some cb \<Rightarrow>
          list_ex (\<lambda>k. case cb k of Some e \<Rightarrow> \<not> is_Exception e | None \<Rightarrow> False)
            [callback_calls j..<callback_calls j1])"

definition cancel_delivered :: "env \<Rightarrow> job \<Rightarrow> job \<Rightarrow> bool" where
  "cancel_delivered ev j j1 =
     (probe_fired ev (job_world j) (job_world j1) \<or> callback_cancelled ev j j1)"

definition world_ok :: "env \<Rightarrow> world \<Rightarrow> error option \<Rightarrow> world \<Rightarrow> bool" where
  \<comment> \<open>of a computation on the world with the job's probe: if a probe call fired, the
      computation raised the probe's exception\<close>
  "world_ok ev w r w1 =
     (probe_calls w \<le> probe_calls w1
      \<and> (probe_fired ev w w1 \<longrightarrow> r = Some (CancelledError ''Parsing was cancelled'')))"

definition job_ok :: "env \<Rightarrow> job \<Rightarrow> error option \<Rightarrow> job \<Rightarrow> bool" where
  \<comment> \<open>of a step of the job: if a cancellation was delivered, the step raised an exception
      that is not an \<open>Exception\<close>\<close>
  "job_ok ev j r j1 =
     (probe_calls (job_world j) \<le> probe_calls (job_world j1)
      \<and> callback_calls j \<le> callback_calls j1
      \<and> (cancel_delivered ev j j1 \<longrightarrow> (case r of Some e \<Rightarrow> \<not> is_Exception e | None \<Rightarrow> False)))"

definition src_ok :: "job \<Rightarrow> bool" where
  \<comment> \<open>the job knows its source id and the store holds the row of that id\<close>
  "src_ok j =
     (case job_source_id j of
        None \<Rightarrow> False
      | Some source \<Rightarrow> (case source_row j of None \<Rightarrow> False | Some row \<Rightarrow> src_id row = source))"

definition cancelling_callback_env :: env where
  \<comment> \<open>the example environment, with a cancellation delivered in the first callback call\<close>
  "cancelling_callback_env =
     local_env\<lparr>progress_callback := Some (\<lambda>k. if k = 0 then Some (CancelledError []) else None)\<rparr>"

definition cancelling_probe_env :: env where
  \<comment> \<open>the example environment, with the task found cancelled by the fourth probe call\<close>
  "cancelling_probe_env = local_env\<lparr>task_cancelled := (\<lambda>k. k = 3)\<rparr>"

definition unchanged :: "job \<Rightarrow> job \<Rightarrow> bool" where
  \<comment> \<open>of a step that calls neither the probe nor the callback: the counts and the events
      stay, and so do the source id and the presence of its row\<close>
  "unchanged j j1 =
     (probe_calls (job_world j1) = probe_calls (job_world j)
      \<and> callback_calls j1 = callback_calls j
      \<and> events j1 = events j
      \<and> job_source_id j1 = job_source_id j
      \<and> (src_ok j \<longrightarrow> src_ok j1))"

definition step_ok :: "env \<Rightarrow> job \<Rightarrow> error option \<Rightarrow> job \<Rightarrow> bool" where
  \<comment> \<open>of any step of the job after the source row is there\<close>
  "step_ok ev j r j1 =
     (job_ok ev j r j1 \<and> job_source_id j1 = job_source_id j \<and> (src_ok j \<longrightarrow> src_ok j1))"

section \<open>Complexity scoring: the code against the specification's formula\<close>





section \<open>The file filter's decisions\<close>

lemma FileFilter_size_reject:
  "sz > max_file_size_kb ff * 1024 \<Longrightarrow> \<not> FileFilter_should_parse_file ff p (Some sz)"
  by (simp add: FileFilter_should_parse_file_def)

lemma FileFilter_dir_reject:
  "part \<in> set (path_parts p) \<Longrightarrow> lower part \<in> set (excluded_directories ff)
   \<Longrightarrow> \<not> FileFilter_should_parse_file ff p sz"
  by (auto simp: FileFilter_should_parse_file_def is_in_excluded_directory_def list_ex_iff
        part_is_excluded_def)

lemma parser_size_reject:
  "sz > 500 * 1024 \<Longrightarrow> \<not> TreeSitterParser_should_parse_file FileFilter_init p (Some sz)"
  by (auto simp: TreeSitterParser_should_parse_file_def python_should_parse_def
        FileFilter_should_parse_file_def FileFilter_init_def split: option.splits)

lemma parser_dir_reject:
  "detect_language p \<noteq> Some ''python'' \<Longrightarrow> part \<in> set (path_parts p)
   \<Longrightarrow> lower part \<in> set (excluded_directories ff)
   \<Longrightarrow> \<not> TreeSitterParser_should_parse_file ff p sz"
  using FileFilter_dir_reject[of part p ff sz]
  by (auto simp: TreeSitterParser_should_parse_file_def split: option.splits)

lemma test_app_is_python: "detect_language ''tests/test_app.py'' = Some ''python''"
  by code_simp

lemma test_app_is_test:
  "is_test_file (lower (path_name ''tests/test_app.py'')) (path_parts ''tests/test_app.py'')"
  by code_simp

lemma test_app_rejected:
  "\<not> TreeSitterParser_should_parse_file ff ''tests/test_app.py'' sz"
  using test_app_is_test
  by (simp add: TreeSitterParser_should_parse_file_def test_app_is_python
        python_should_parse_def Let_def)

text \<open>
  Claim C10, as the code has it.  \<open>FileFilter.should_parse_file\<close> rejects every path
  whose size exceeds \<open>max_file_size_kb * 1024\<close> and every path with a component whose
  lower-cased name is an excluded directory.  The parser's decision
  (\<open>TreeSitterParser.should_parse_file\<close>, whose filter keeps the default 500 KB) rejects
  every path above \<open>500 * 1024\<close> bytes, and every path with such a component unless the
  file is detected as Python, which it decides by its own rules.  The four scenarios hold:
  \<open>node_modules/x/index.js\<close> at 10 KB is rejected, \<open>src/main/app.py\<close> at 600 KB is
  rejected and at 10 KB accepted, and \<open>tests/test_app.py\<close> is rejected by the Python
  priority rules.
\<close>

theorem file_filter_decisions:
  "(max_file_size_kb ff * 1024 < sz \<longrightarrow> \<not> FileFilter_should_parse_file ff p (Some sz))
   \<and> (500 * 1024 < sz \<longrightarrow> \<not> TreeSitterParser_should_parse_file FileFilter_init p (Some sz))
   \<and> (part \<in> set (path_parts p) \<and> lower part \<in> set (excluded_directories ff) \<longrightarrow>
        \<not> FileFilter_should_parse_file ff p size_opt
        \<and> (detect_language p \<noteq> Some ''python'' \<longrightarrow>
             \<not> TreeSitterParser_should_parse_file ff p size_opt))
   \<and> \<not> FileFilter_should_parse_file FileFilter_init ''node_modules/x/index.js'' (Some (10 * 1024))
   \<and> \<not> TreeSitterParser_should_parse_file FileFilter_init ''node_modules/x/index.js''
          (Some (10 * 1024))
   \<and> max_file_size_kb FileFilter_init = 500
   \<and> \<not> FileFilter_should_parse_file FileFilter_init ''src/main/app.py'' (Some (600 * 1024))
   \<and> \<not> TreeSitterParser_should_parse_file FileFilter_init ''src/main/app.py'' (Some (600 * 1024))
   \<and> FileFilter_should_parse_file FileFilter_init ''src/main/app.py'' (Some (10 * 1024))
   \<and> TreeSitterParser_should_parse_file FileFilter_init ''src/main/app.py'' (Some (10 * 1024))
   \<and> \<not> TreeSitterParser_should_parse_file ff ''tests/test_app.py'' size_opt"
proof -
  have e1: "\<not> FileFilter_should_parse_file FileFilter_init ''node_modules/x/index.js''
               (Some (10 * 1024))"
    by code_simp
  have e2: "\<not> TreeSitterParser_should_parse_file FileFilter_init ''node_modules/x/index.js''
               (Some (10 * 1024))"
    by code_simp
  have e3: "max_file_size_kb FileFilter_init = 500"
    by (simp add: FileFilter_init_def)
  have e4: "\<not> FileFilter_should_parse_file FileFilter_init ''src/main/app.py'' (Some (600 * 1024))"
    by (rule FileFilter_size_reject) (simp add: e3)
  have e5: "\<not> TreeSitterParser_should_parse_file FileFilter_init ''src/main/app.py''
               (Some (600 * 1024))"
    by (rule parser_size_reject) simp
  have e6: "FileFilter_should_parse_file FileFilter_init ''src/main/app.py'' (Some (10 * 1024))"
    by code_simp
  have e7: "TreeSitterParser_should_parse_file FileFilter_init ''src/main/app.py''
              (Some (10 * 1024))"
    by code_simp
  show ?thesis
    using e1 e2 e3 e4 e5 e6 e7 FileFilter_size_reject[of ff sz p] parser_size_reject[of sz p]
      FileFilter_dir_reject[of part p ff size_opt] parser_dir_reject[of p part ff size_opt]
      test_app_rejected[of ff size_opt]
    by blast
qed

theorem file_filter_decisions_witness:
  "max_file_size_kb FileFilter_init * 1024 < 600 * 1024
   \<and> \<not> FileFilter_should_parse_file FileFilter_init ''node_modules/x/index.js''
          (Some (600 * 1024))
   \<and> \<not> TreeSitterParser_should_parse_file FileFilter_init ''node_modules/x/index.js''
          (Some (600 * 1024))
   \<and> ''node_modules'' \<in> set (path_parts ''node_modules/x/index.js'')
   \<and> lower ''node_modules'' \<in> set (excluded_directories FileFilter_init)
   \<and> detect_language ''node_modules/x/index.js'' \<noteq> Some ''python''
   \<and> \<not> FileFilter_should_parse_file FileFilter_init ''node_modules/x/index.js'' None
   \<and> \<not> TreeSitterParser_should_parse_file FileFilter_init ''node_modules/x/index.js'' None"
proof -
  have h1: "max_file_size_kb FileFilter_init * 1024 < 600 * 1024"
    by (simp add: FileFilter_init_def)
  have h2: "(500::int) * 1024 < 600 * 1024" by simp
  have h3: "''node_modules'' \<in> set (path_parts ''node_modules/x/index.js'')" by code_simp
  have h4: "lower ''node_modules'' \<in> set (excluded_directories FileFilter_init)" by code_simp
  have h5: "detect_language ''node_modules/x/index.js'' \<noteq> Some ''python''" by code_simp
  from file_filter_decisions[of FileFilter_init "600 * 1024" "''node_modules/x/index.js''"
      "''node_modules''" None] h1 h2 h3 h4 h5
  show ?thesis by blast
qed

text \<open>
  The claim as stated fails on the parser's decision: a Python file under \<open>venv\<close>, an
  excluded directory of the filter, is accepted, because the Python branch returns before
  the filter is asked.
\<close>

theorem file_filter_python_under_venv_accepted:
  "''venv'' \<in> set (path_parts ''venv/lib/app.py'')
   \<and> ''venv'' \<in> set (excluded_directories FileFilter_init)
   \<and> TreeSitterParser_should_parse_file FileFilter_init ''venv/lib/app.py'' (Some (10 * 1024))"
  by code_simp

section \<open>The query engine's result\<close>

lemma unique_by_id_distinct:
  "distinct (map rel_row_id (unique_by_id seen rels))
   \<and> rel_row_id ` set (unique_by_id seen rels) \<inter> seen = {}"
  by (induction rels arbitrary: seen) auto

lemma query_graph_nodes:
  "result_nodes (query_graph db q) = take 1000 (filter (node_selected q) (archon_kg_nodes db))"
  by (simp add: query_graph_def Let_def apply_path_filtering_def)

lemma query_graph_rels_distinct:
  "distinct (map rel_row_id (result_relationships (query_graph db q)))"
  using unique_by_id_distinct
  by (simp add: query_graph_def Let_def apply_path_filtering_def distinct_map_filter)

lemma query_graph_rels_closed:
  "rel \<in> set (result_relationships (query_graph db q)) \<Longrightarrow>
   rel_source_node_id rel \<in> row_id ` set (result_nodes (query_graph db q))
   \<and> rel_target_node_id rel \<in> row_id ` set (result_nodes (query_graph db q))"
  by (auto simp: query_graph_def Let_def apply_path_filtering_def split: if_splits)

text \<open>
  Claim C8, as the code has it.  For every store and every query, \<open>query_graph\<close> returns
  at most 1000 nodes; the returned relationships have pairwise different ids; each has its
  source and its target among the returned nodes; and when \<open>node_types\<close> is a non-empty
  list, every returned node's kind is in it.
\<close>

theorem query_graph_result:
  "length (result_nodes (query_graph db q)) \<le> 1000
   \<and> total_nodes (query_graph db q) \<le> 1000
   \<and> distinct (map rel_row_id (result_relationships (query_graph db q)))
   \<and> (\<forall>rel \<in> set (result_relationships (query_graph db q)).
         rel_source_node_id rel \<in> row_id ` set (result_nodes (query_graph db q))
         \<and> rel_target_node_id rel \<in> row_id ` set (result_nodes (query_graph db q)))
   \<and> (\<forall>ts. node_types q = Some ts \<and> ts \<noteq> [] \<longrightarrow>
         (\<forall>n \<in> set (result_nodes (query_graph db q)). row_node_type n \<in> set ts))"
proof -
  have kinds: "\<forall>ts. node_types q = Some ts \<and> ts \<noteq> [] \<longrightarrow>
         (\<forall>n \<in> set (result_nodes (query_graph db q)). row_node_type n \<in> set ts)"
    by (auto simp: query_graph_nodes node_selected_def truthy_list_def dest!: in_set_takeD)
  have tot: "total_nodes (query_graph db q) = length (result_nodes (query_graph db q))"
    by (simp add: query_graph_def Let_def apply_path_filtering_def)
  show ?thesis
    using kinds query_graph_rels_distinct[of db q] query_graph_rels_closed[of _ db q] tot
    by (simp add: query_graph_nodes)
qed

theorem query_graph_result_witness:
  "node_types (example_query (Some [FILE, CLASS])) = Some [FILE, CLASS]
   \<and> [FILE, CLASS] \<noteq> []
   \<and> map row_id (result_nodes (query_graph example_db (example_query (Some [FILE, CLASS]))))
       = [1, 2]
   \<and> row_node_type (hd (result_nodes (query_graph example_db (example_query (Some [FILE, CLASS])))))
       \<in> set [FILE, CLASS]
   \<and> map rel_row_id
        (result_relationships (query_graph example_db (example_query (Some [FILE, CLASS]))))
       = [10]
   \<and> rel_target_node_id
        (hd (result_relationships (query_graph example_db (example_query (Some [FILE, CLASS])))))
       \<in> row_id ` set (result_nodes (query_graph example_db (example_query (Some [FILE, CLASS]))))
   \<and> length (result_nodes (query_graph example_db (example_query (Some [FILE, CLASS])))) \<le> 1000"
proof -
  let ?q = "example_query (Some [FILE, CLASS])"
  have k: "node_types ?q = Some [FILE, CLASS]" by (simp add: example_query_def)
  have n: "map row_id (result_nodes (query_graph example_db ?q)) = [1, 2]" by code_simp
  have r: "map rel_row_id (result_relationships (query_graph example_db ?q)) = [10]"
    by code_simp
  have n0: "hd (result_nodes (query_graph example_db ?q)) \<in> set (result_nodes (query_graph example_db ?q))"
    using n by (intro hd_in_set) auto
  have r0: "hd (result_relationships (query_graph example_db ?q))
              \<in> set (result_relationships (query_graph example_db ?q))"
    using r by (intro hd_in_set) auto
  from query_graph_result[of example_db ?q] k n r n0 r0
  show ?thesis by blast
qed

text \<open>
  The claim as stated fails when \<open>node_types\<close> is given as the empty list: the guard
  \<open>if query.node_types\<close> skips the filter, and nodes of every kind are returned.
\<close>

theorem query_graph_empty_node_types_unfiltered:
  "node_types (example_query (Some [])) = Some []
   \<and> map row_node_type (result_nodes (query_graph example_db (example_query (Some []))))
       = [FILE, CLASS, FUNCTION]"
  by code_simp

section \<open>Cycle detection\<close>


lemma index_of_Some:
  "x \<in> set xs \<Longrightarrow> \<exists>i. index_of xs x = Some i \<and> i < length xs \<and> xs ! i = x"
  by (induction xs) auto

lemma successively_drop: "successively P xs \<Longrightarrow> successively P (drop i xs)"
proof (induction xs arbitrary: i)
  case Nil
  then show ?case by simp
next
  case (Cons x xs)
  then show ?case by (cases i) (auto simp: successively_Cons)
qed

lemma successively_snoc:
  "successively P (xs @ [x]) \<longleftrightarrow> successively P xs \<and> (xs \<noteq> [] \<longrightarrow> P (last xs) x)"
  by (auto simp: successively_append_iff)

lemma closed_rtrancl:
  assumes "(v, w) \<in> (edges graph)\<^sup>*" and "v \<in> F"
    and "\<forall>u \<in> F. \<forall>x. edge graph u x \<longrightarrow> x \<in> F"
  shows "w \<in> F"
  using assms by (induction rule: rtrancl_induct) (auto simp: edges_def)

lemma cycle_slice:
  assumes "node \<in> set path" "successively (edge graph) path" "edge graph (last path) node"
    and "index_of path node = Some i"
  shows "is_cycle graph (drop i path @ [node])"
proof -
  from index_of_Some[OF assms(1)] assms(4) have i: "i < length path" "path ! i = node" by auto
  then have ne: "drop i path \<noteq> []" by simp
  have "hd (drop i path @ [node]) = node" using i ne by (simp add: hd_drop_conv_nth)
  moreover have "last (drop i path) = last path" using i by simp
  ultimately show ?thesis
    using assms(2,3) ne i
    by (auto simp: is_cycle_def successively_snoc successively_drop Suc_le_eq)
qed


lemma dfs_invariant:
  shows "dfs_pre graph path st \<Longrightarrow> (path \<noteq> [] \<longrightarrow> edge graph (last path) node) \<Longrightarrow>
           \<exists>st'. dfs graph node path st = Inr st' \<and> dfs_post graph st st'
                 \<and> (cycles st' = [] \<longrightarrow> node \<in> finished st')"
    and "dfs_pre graph path st \<Longrightarrow> (path \<noteq> [] \<longrightarrow> (\<forall>n \<in> set ns. edge graph (last path) n)) \<Longrightarrow>
           \<exists>st'. dfs_neighbors graph ns path st = Inr st' \<and> dfs_post graph st st'
                 \<and> (cycles st' = [] \<longrightarrow> set ns \<subseteq> finished st')"
proof (induction graph node path st and graph ns path st rule: dfs_dfs_neighbors.induct)
  case (1 graph node path st)
  note pre = \<open>dfs_pre graph path st\<close>
  show ?case
  proof (cases "node \<in> rec_stack st")
    case True
    with pre have inpath: "node \<in> set path" by (simp add: dfs_pre_def)
    then have "path \<noteq> []" by auto
    with "1.prems"(2) have e: "edge graph (last path) node" by simp
    from index_of_Some[OF inpath] obtain i where i: "index_of path node = Some i" by blast
    have cyc: "is_cycle graph (drop i path @ [node])"
      using inpath pre e i by (intro cycle_slice) (auto simp: dfs_pre_def)
    let ?st' = "st\<lparr>cycles := cycles st @ [drop i path @ [node]]\<rparr>"
    have "dfs graph node path st = Inr ?st'"
      using True i by (simp add: dfs.simps[of graph node path st])
    moreover have "dfs_post graph st ?st'"
      using pre cyc by (auto simp: dfs_post_def dfs_pre_def finished_ok_def)
    ultimately show ?thesis by auto
  next
    case notstack: False
    show ?thesis
    proof (cases "node \<in> visited st")
      case True
      have "dfs graph node path st = Inr st"
        using True notstack by (simp add: dfs.simps[of graph node path st])
      moreover have "dfs_post graph st st"
        using pre by (auto simp: dfs_post_def dfs_pre_def)
      moreover have "node \<in> finished st" using True notstack by (simp add: finished_def)
      ultimately show ?thesis by auto
    next
      case False
      let ?st1 = "st\<lparr>visited := insert node (visited st), rec_stack := insert node (rec_stack st)\<rparr>"
      let ?path1 = "path @ [node]"
      have fin1: "finished ?st1 = finished st"
        using False notstack by (auto simp: finished_def)
      have pre1: "dfs_pre graph ?path1 ?st1"
        using pre "1.prems"(2) fin1
        by (auto simp: dfs_pre_def successively_snoc finished_ok_def)
      have nb: "?path1 \<noteq> [] \<longrightarrow> (\<forall>n \<in> set (get_or graph node []). edge graph (last ?path1) n)"
        by (simp add: edge_def)
      from "1.IH"[OF notstack False pre1 nb] obtain st2 where
        run: "dfs_neighbors graph (get_or graph node []) ?path1 ?st1 = Inr st2"
        and post2: "dfs_post graph ?st1 st2"
        and fin2: "cycles st2 = [] \<longrightarrow> set (get_or graph node []) \<subseteq> finished st2"
        by blast
      from post2 have rs2: "rec_stack st2 = insert node (rec_stack st)"
        by (simp add: dfs_post_def)
      let ?st3 = "st2\<lparr>rec_stack := rec_stack st2 - {node}\<rparr>"
      have res: "dfs graph node path st = Inr ?st3"
        using False notstack run rs2 by (simp add: dfs.simps[of graph node path st])
      have rs3: "rec_stack ?st3 = rec_stack st" using rs2 notstack by auto
      have vis3: "visited st \<subseteq> visited ?st3" "node \<in> visited ?st3"
        using post2 by (auto simp: dfs_post_def)
      have fin3: "finished ?st3 = insert node (finished st2)"
        using rs2 vis3 post2 by (auto simp: finished_def dfs_post_def)
      have node_not_fin2: "node \<notin> finished st2" using rs2 by (simp add: finished_def)
      have ok3: "finished_ok graph ?st3"
        unfolding finished_ok_def
      proof (intro impI ballI conjI allI)
        fix u v
        assume c: "cycles ?st3 = []" and u: "u \<in> finished ?st3" and uv: "edge graph u v"
        from c have c2: "cycles st2 = []" by simp
        with post2 have ok2: "\<forall>u \<in> finished st2. (\<forall>v. edge graph u v \<longrightarrow> v \<in> finished st2)
                              \<and> (u, u) \<notin> (edges graph)\<^sup>+"
          by (simp add: dfs_post_def finished_ok_def)
        show "v \<in> finished ?st3"
        proof (cases "u = node")
          case True
          with uv fin2 c2 have "v \<in> finished st2" by (auto simp: edge_def)
          then show ?thesis by (simp add: fin3)
        next
          case False
          with u have "u \<in> finished st2" by (simp add: fin3)
          with ok2 uv have "v \<in> finished st2" by blast
          then show ?thesis by (simp add: fin3)
        qed
      next
        fix u
        assume c: "cycles ?st3 = []" and u: "u \<in> finished ?st3"
        from c have c2: "cycles st2 = []" by simp
        with post2 have ok2: "\<forall>u \<in> finished st2. (\<forall>v. edge graph u v \<longrightarrow> v \<in> finished st2)
                              \<and> (u, u) \<notin> (edges graph)\<^sup>+"
          by (simp add: dfs_post_def finished_ok_def)
        show "(u, u) \<notin> (edges graph)\<^sup>+"
        proof (cases "u = node")
          case True
          show ?thesis
          proof
            assume "(u, u) \<in> (edges graph)\<^sup>+"
            then obtain v where v: "(node, v) \<in> edges graph" "(v, node) \<in> (edges graph)\<^sup>*"
              using True by (meson tranclD)
            from v(1) fin2 c2 have "v \<in> finished st2" by (auto simp: edges_def edge_def)
            from closed_rtrancl[OF v(2) this] ok2 have "node \<in> finished st2" by blast
            with node_not_fin2 show False by simp
          qed
        next
          case False
          with u have "u \<in> finished st2" by (simp add: fin3)
          with ok2 show ?thesis by blast
        qed
      qed
      have post3: "dfs_post graph st ?st3"
        using rs3 vis3(1) post2 ok3 by (auto simp: dfs_post_def)
      have "node \<in> finished ?st3" by (simp add: fin3)
      with res post3 show ?thesis by blast
    qed
  qed
next
  case (2 graph path st)
  then show ?case by (auto simp: dfs_post_def dfs_pre_def)
next
  case (3 graph neighbor rest path st)
  note pre = \<open>dfs_pre graph path st\<close>
  from "3.prems"(2) have e1: "path \<noteq> [] \<longrightarrow> edge graph (last path) neighbor"
    and e2: "path \<noteq> [] \<longrightarrow> (\<forall>n \<in> set rest. edge graph (last path) n)" by auto
  from "3.IH"(1)[OF pre e1] obtain st1 where
    run1: "dfs graph neighbor path st = Inr st1" and post1: "dfs_post graph st st1"
    and fin1: "cycles st1 = [] \<longrightarrow> neighbor \<in> finished st1" by blast
  have pre1: "dfs_pre graph path st1"
    using pre post1 by (auto simp: dfs_pre_def dfs_post_def)
  from "3.IH"(2)[OF run1 pre1 e2] obtain st2 where
    run2: "dfs_neighbors graph rest path st1 = Inr st2" and post2: "dfs_post graph st1 st2"
    and fin2: "cycles st2 = [] \<longrightarrow> set rest \<subseteq> finished st2" by blast
  have "dfs_neighbors graph (neighbor # rest) path st = Inr st2"
    using run1 run2 by simp
  moreover have "dfs_post graph st st2"
    using post1 post2 by (auto simp: dfs_post_def)
  moreover have "cycles st2 = [] \<longrightarrow> set (neighbor # rest) \<subseteq> finished st2"
    using fin1 fin2 post2 by (auto simp: dfs_post_def finished_def)
  ultimately show ?case by blast
qed



lemma detect_loop_invariant:
  "dfs_pre graph [] st \<Longrightarrow>
     \<exists>st'. detect_loop graph ks st = Inr st' \<and> dfs_post graph st st'
           \<and> (cycles st' = [] \<longrightarrow> set ks \<subseteq> finished st')"
proof (induction ks arbitrary: st)
  case Nil
  then show ?case by (auto simp: dfs_post_def dfs_pre_def)
next
  case (Cons node rest)
  note pre = \<open>dfs_pre graph [] st\<close>
  then have nostack: "rec_stack st = {}" by (simp add: dfs_pre_def)
  show ?case
  proof (cases "node \<in> visited st")
    case True
    from Cons.IH[OF pre] obtain st' where
      r: "detect_loop graph rest st = Inr st'" and p: "dfs_post graph st st'"
      and f: "cycles st' = [] \<longrightarrow> set rest \<subseteq> finished st'" by blast
    have "node \<in> finished st'"
      using True nostack p by (auto simp: finished_def dfs_post_def)
    with r p f True show ?thesis by auto
  next
    case False
    from dfs_invariant(1)[OF pre, of node] obtain st1 where
      r1: "dfs graph node [] st = Inr st1" and p1: "dfs_post graph st st1"
      and f1: "cycles st1 = [] \<longrightarrow> node \<in> finished st1" by auto
    have pre1: "dfs_pre graph [] st1"
      using pre p1 by (auto simp: dfs_pre_def dfs_post_def)
    from Cons.IH[OF pre1] obtain st2 where
      r2: "detect_loop graph rest st1 = Inr st2" and p2: "dfs_post graph st1 st2"
      and f2: "cycles st2 = [] \<longrightarrow> set rest \<subseteq> finished st2" by blast
    have "detect_loop graph (node # rest) st = Inr st2"
      using False r1 r2 by simp
    moreover have "dfs_post graph st st2"
      using p1 p2 by (auto simp: dfs_post_def)
    moreover have "cycles st2 = [] \<longrightarrow> set (node # rest) \<subseteq> finished st2"
      using f1 f2 p2 by (auto simp: dfs_post_def finished_def)
    ultimately show ?thesis by blast
  qed
qed

lemma walk_trancl:
  "successively (edge graph) (x # y # zs) \<Longrightarrow> (x, last (y # zs)) \<in> (edges graph)\<^sup>+"
proof (induction zs arbitrary: x y)
  case Nil
  then show ?case by (auto simp: edges_def)
next
  case (Cons z zs)
  then have "(x, y) \<in> edges graph" and "successively (edge graph) (y # z # zs)"
    by (auto simp: edges_def)
  with Cons.IH[of y z] show ?case by (auto intro: trancl_into_trancl2)
qed

lemma is_cycle_trancl: "is_cycle graph c \<Longrightarrow> (hd c, hd c) \<in> (edges graph)\<^sup>+"
proof -
  assume c: "is_cycle graph c"
  then obtain x y zs where s: "c = x # y # zs"
    by (cases c; cases "tl c") (auto simp: is_cycle_def)
  with c walk_trancl[of graph x y zs] show ?thesis by (auto simp: is_cycle_def)
qed

lemma get_or_key: "get_or graph node [] \<noteq> [] \<Longrightarrow> node \<in> fst ` set graph"
  by (induction graph) (auto split: if_splits)

text \<open>
  Claim C7, as the code has it.  \<open>_detect_cycles\<close> returns (it raises neither the
  \<open>ValueError\<close> of \<open>path.index\<close> nor the \<open>KeyError\<close> of \<open>rec_stack.remove\<close>); every
  reported cycle is a slice of the search path closed by the re-entered node: it starts
  and ends at that node and steps along edges of the graph; the list is empty when the
  graph is a DAG, and not empty when the graph has a cycle.
\<close>

theorem detect_cycles_result:
  "\<exists>cs. detect_cycles graph = Inr cs
        \<and> (\<forall>c \<in> set cs. is_cycle graph c)
        \<and> (acyclic (edges graph) \<longrightarrow> cs = [])
        \<and> (\<not> acyclic (edges graph) \<longrightarrow> cs \<noteq> [])"
proof -
  let ?st0 = "\<lparr>visited = {}, rec_stack = {}, cycles = []\<rparr> :: 'a dfs_state"
  have pre0: "dfs_pre graph [] ?st0"
    by (simp add: dfs_pre_def finished_ok_def finished_def)
  from detect_loop_invariant[OF pre0, of "map fst graph"] obtain st' where
    r: "detect_loop graph (map fst graph) ?st0 = Inr st'" and p: "dfs_post graph ?st0 st'"
    and f: "cycles st' = [] \<longrightarrow> fst ` set graph \<subseteq> finished st'" by auto
  have res: "detect_cycles graph = Inr (cycles st')"
    using r by (simp add: detect_cycles_def)
  have valid: "\<forall>c \<in> set (cycles st'). is_cycle graph c"
    using p by (simp add: dfs_post_def)
  have dag: "acyclic (edges graph) \<longrightarrow> cycles st' = []"
  proof
    assume a: "acyclic (edges graph)"
    show "cycles st' = []"
    proof (rule ccontr)
      assume "cycles st' \<noteq> []"
      then obtain c where "c \<in> set (cycles st')" by (cases "cycles st'") auto
      with valid have "(hd c, hd c) \<in> (edges graph)\<^sup>+" by (auto intro: is_cycle_trancl)
      with a show False by (auto simp: acyclic_def)
    qed
  qed
  have cyc: "\<not> acyclic (edges graph) \<longrightarrow> cycles st' \<noteq> []"
  proof (intro impI notI)
    assume na: "\<not> acyclic (edges graph)" and e: "cycles st' = []"
    from na obtain x where x: "(x, x) \<in> (edges graph)\<^sup>+" by (auto simp: acyclic_def)
    then obtain y where "(x, y) \<in> edges graph" by (meson tranclD)
    then have "get_or graph x [] \<noteq> []" by (auto simp: edges_def edge_def)
    then have "x \<in> fst ` set graph" by (rule get_or_key)
    with f e have "x \<in> finished st'" by auto
    with p e have "(x, x) \<notin> (edges graph)\<^sup>+" by (auto simp: dfs_post_def finished_ok_def)
    with x show False by simp
  qed
  from res valid dag cyc show ?thesis by blast
qed


theorem detect_cycles_result_witness:
  "\<not> acyclic (edges triangle)
   \<and> detect_cycles triangle = Inr [[''A'', ''B'', ''C'', ''A'']]
   \<and> is_cycle triangle [''A'', ''B'', ''C'', ''A'']
   \<and> acyclic (edges chain)
   \<and> detect_cycles chain = Inr []"
proof -
  have r1: "detect_cycles triangle = Inr [[''A'', ''B'', ''C'', ''A'']]" by code_simp
  have r2: "detect_cycles chain = Inr []" by code_simp
  have c: "is_cycle triangle [''A'', ''B'', ''C'', ''A'']" by code_simp
  from detect_cycles_result[of triangle] r1 have "\<not> acyclic (edges triangle)" by auto
  moreover from detect_cycles_result[of chain] r2 have "acyclic (edges chain)" by auto
  ultimately show ?thesis using r1 r2 c by simp
qed

text \<open>
  The claim as stated fails: a simple cycle of the graph need not be among the reported
  ones, because a node already visited is not explored again.  In the triangle with the
  chord \<open>A \<rightarrow> C\<close> the search reports one cycle; whichever successor of \<open>A\<close> the loop
  takes first, the vertex set of the other simple cycle is not reported.
\<close>

theorem detect_cycles_misses_simple_cycle:
  "is_cycle chord_graph [''A'', ''C'', ''A'']
   \<and> detect_cycles chord_graph = Inr [[''A'', ''B'', ''C'', ''A'']]
   \<and> set [''A'', ''B'', ''C'', ''A''] \<noteq> set [''A'', ''C'', ''A'']
   \<and> is_cycle chord_graph_rev [''A'', ''B'', ''C'', ''A'']
   \<and> detect_cycles chord_graph_rev = Inr [[''A'', ''C'', ''A'']]
   \<and> set [''A'', ''C'', ''A''] \<noteq> set [''A'', ''B'', ''C'', ''A'']"
  by code_simp

section \<open>The parser: what raises, and what parse_repository counts\<close>



lemma check_quiet: "quiet cc \<Longrightarrow> \<exists>w'. check cc w = (Inr (), w')"
  by (auto simp: quiet_def check_def split: option.splits)

lemma check_raises: "check cc w = (Inl e, w') \<Longrightarrow> \<exists>p. cc = Some p \<and> p (probe_calls w) = Some e"
  by (auto simp: check_def split: option.splits)

lemma emit_ok: "\<exists>out w'. emit fid r ty rty nm fp i lang pub w = (out, w')"
  by (simp add: emit_def uuid4_def Let_def)

lemma oo_line_error: "oo_line fp lang r fid l i w = (Inl e, w') \<Longrightarrow> is_Exception e"
  by (auto simp: oo_line_def Let_def py_nth_def split: if_splits sum.splits prod.splits)

lemma proc_line_error: "proc_line fp lang r fid l i w = (Inl e, w') \<Longrightarrow> is_Exception e"
  by (auto simp: proc_line_def Let_def split: if_splits sum.splits prod.splits option.splits)

lemma basic_line_error: "basic_line fp lang r fid l i w = (Inl e, w') \<Longrightarrow> is_Exception e"
  by (auto simp: basic_line_def Let_def split: if_splits sum.splits prod.splits option.splits)

lemma lines_loop_error:
  assumes "quiet cc" and "\<And>l i w e w'. line_pass l i w = (Inl e, w') \<Longrightarrow> is_Exception e"
  shows "lines_loop cc period line_pass ls i nodes rels w = (Inl e, w') \<Longrightarrow> is_Exception e"
proof (induction ls arbitrary: i nodes rels w)
  case Nil
  then show ?case by simp
next
  case (Cons l ls)
  from check_quiet[OF assms(1)] obtain w1 where c: "check cc w = (Inr (), w1)" by blast
  show ?case
  proof (cases "cc \<noteq> None \<and> i mod period = 0")
    case True
    with Cons c assms(2) show ?thesis
      by (auto split: prod.splits sum.splits)
  next
    case False
    with Cons assms(2) show ?thesis
      by (auto split: prod.splits sum.splits)
  qed
qed

lemma parse_with_error:
  assumes "quiet cc" and "\<And>fid l i w e w'. line_pass fid l i w = (Inl e, w') \<Longrightarrow> is_Exception e"
  shows "parse_with cc period line_pass content fp lang r w = (Inl e, w') \<Longrightarrow> is_Exception e"
  using check_quiet[OF assms(1), of w] lines_loop_error[OF assms(1), of "line_pass _"] assms(2)
  by (auto simp: parse_with_def Let_def split: prod.splits sum.splits)


lemma parse_by_language_error:
  "quiet cc \<Longrightarrow> parse_by_language cc content fp lang r w = (Inl e, w') \<Longrightarrow> is_Exception e"
  using parse_with_error[of cc "oo_line fp lang r"] parse_with_error[of cc "proc_line fp lang r"]
    parse_with_error[of cc "basic_line fp lang r"] oo_line_error proc_line_error basic_line_error
  unfolding parse_by_language_def parse_object_oriented_file_def parse_procedural_file_def
    parse_basic_file_def
  by (metis (no_types, lifting))

lemma parse_file_quiet:
  assumes "quiet cc"
  shows "\<exists>t w'. parse_file cc fp content r w = (Inr t, w')"
proof -
  from check_quiet[OF assms] obtain w1 where c: "check cc w = (Inr (), w1)" by blast
  show ?thesis
  proof (cases "detect_language fp")
    case None
    with c show ?thesis by (simp add: parse_file_def)
  next
    case (Some lang)
    obtain res w2 where p: "parse_by_language cc content fp lang r w1 = (res, w2)"
      by (cases "parse_by_language cc content fp lang r w1")
    show ?thesis
    proof (cases res)
      case (Inl e)
      with p parse_by_language_error[OF assms] have "is_Exception e" by blast
      with c Some p Inl show ?thesis by (simp add: parse_file_def)
    next
      case (Inr out)
      with c Some p show ?thesis by (cases out) (simp add: parse_file_def)
    qed
  qed
qed

lemma record_result_tuple:
  "record_result path (PyTuple t) stats = (Some (no_attribute ''success''), stats)"
  by (simp add: record_result_def)

lemma parse_one_counts:
  "parse_one cc r f stats w = ((raised, stats'), w') \<Longrightarrow>
     st_parsed_files stats' = st_parsed_files stats \<and> st_total_nodes stats' = st_total_nodes stats"
  by (auto simp: parse_one_def record_result_tuple Let_def
        split: sum.splits prod.splits option.splits if_splits)

lemma parse_one_quiet:
  assumes "quiet cc"
  shows "\<exists>stats' w'. parse_one cc r f stats w = ((None, stats'), w')
           \<and> st_skipped_files stats' = st_skipped_files stats + 1
           \<and> st_files_to_parse stats' = st_files_to_parse stats"
proof (cases "rf_content f")
  case (Inl msg)
  then show ?thesis by (simp add: parse_one_def)
next
  case (Inr content)
  from parse_file_quiet[OF assms, of "rf_path f" content r w]
  obtain t w1 where "parse_file cc (rf_path f) content r w = (Inr t, w1)" by blast
  with Inr show ?thesis
    by (simp add: parse_one_def record_result_tuple no_attribute_def)
qed

lemma phase3_counts:
  "phase3 cc r fs stats w = ((raised, stats'), w') \<Longrightarrow>
     st_parsed_files stats' = st_parsed_files stats \<and> st_total_nodes stats' = st_total_nodes stats"
proof (induction fs arbitrary: stats w)
  case Nil
  then show ?case by simp
next
  case (Cons f fs)
  show ?case
  proof (cases "check cc w")
    case (Pair c w1)
    show ?thesis
    proof (cases c)
      case (Inl e)
      with Cons.prems Pair show ?thesis by simp
    next
      case (Inr u)
      obtain ra s1 w2 where po: "parse_one cc r f stats w1 = ((ra, s1), w2)"
        by (metis prod.exhaust)
      note k = parse_one_counts[OF po]
      show ?thesis
      proof (cases ra)
        case None
        with Cons.prems Pair Inr po have "phase3 cc r fs s1 w2 = ((raised, stats'), w')" by simp
        from Cons.IH[OF this] k show ?thesis by simp
      next
        case (Some e)
        with Cons.prems Pair Inr po k show ?thesis by auto
      qed
    qed
  qed
qed

lemma phase3_quiet:
  assumes "quiet cc"
  shows "\<exists>stats' w'. phase3 cc r fs stats w = ((None, stats'), w')
           \<and> st_skipped_files stats' = st_skipped_files stats + length fs
           \<and> st_files_to_parse stats' = st_files_to_parse stats"
proof (induction fs arbitrary: stats w)
  case Nil
  then show ?case by simp
next
  case (Cons f fs)
  from check_quiet[OF assms] obtain w1 where c: "check cc w = (Inr (), w1)" by blast
  from parse_one_quiet[OF assms, of r f stats w1] obtain s1 w2 where
    po: "parse_one cc r f stats w1 = ((None, s1), w2)"
    and k: "st_skipped_files s1 = st_skipped_files stats + 1"
           "st_files_to_parse s1 = st_files_to_parse stats" by blast
  from Cons.IH[of s1 w2] obtain s2 w3 where
    "phase3 cc r fs s1 w2 = ((None, s2), w3)"
    "st_skipped_files s2 = st_skipped_files s1 + length fs"
    "st_files_to_parse s2 = st_files_to_parse s1" by blast
  with c po k show ?case by simp
qed

text \<open>
  Claim C4.  \<open>TreeSitterParser.parse_repository\<close> never appends to its node and
  relationship lists and reads \<open>result.success\<close> from the tuple \<open>parse_file\<close> returns, so
  every file of Phase 3 ends in the handler.  Whenever it returns, both lists are empty and
  \<open>parsed_files\<close> and \<open>total_nodes\<close> are 0; called without a probe, or with one that never
  raises, it returns, and \<open>skipped_files\<close> is the number of files selected for parsing.
\<close>

theorem parse_repository_statistics:
  "(\<forall>ns rs stats w'.
      parse_repository ff cc file_filters all_files r w = (Inr (ns, rs, stats), w') \<longrightarrow>
        ns = [] \<and> rs = [] \<and> st_parsed_files stats = 0 \<and> st_total_nodes stats = 0)
   \<and> (quiet cc \<longrightarrow>
        (\<exists>stats w'.
           parse_repository ff cc file_filters all_files r w = (Inr ([], [], stats), w')
           \<and> st_parsed_files stats = 0 \<and> st_total_nodes stats = 0
           \<and> st_files_to_parse stats = length (filter (selected ff file_filters) all_files)
           \<and> st_skipped_files stats = length (filter (selected ff file_filters) all_files)))"
proof -
  let ?fs = "filter (selected ff file_filters) all_files"
  let ?s0 = "initial_statistics
            \<lparr>st_total_files_found := length all_files,
             st_files_filtered_out := length all_files - length ?fs,
             st_files_to_parse := length ?fs\<rparr>"
  have part1: "ns = [] \<and> rs = [] \<and> st_parsed_files stats = 0 \<and> st_total_nodes stats = 0"
    if res: "parse_repository ff cc file_filters all_files r w = (Inr (ns, rs, stats), w')"
    for ns rs stats w'
  proof -
    obtain ra s1 w1 where p3: "phase3 cc r ?fs ?s0 w = ((ra, s1), w1)" by (metis prod.exhaust)
    from phase3_counts[OF p3] have k: "st_parsed_files s1 = 0" "st_total_nodes s1 = 0"
      by (simp_all add: initial_statistics_def)
    from res p3 k show ?thesis
      by (auto simp: parse_repository_def Let_def split: option.splits if_splits)
  qed
  have part2: "\<exists>stats w'.
           parse_repository ff cc file_filters all_files r w = (Inr ([], [], stats), w')
           \<and> st_parsed_files stats = 0 \<and> st_total_nodes stats = 0
           \<and> st_files_to_parse stats = length ?fs
           \<and> st_skipped_files stats = length ?fs" if q: "quiet cc"
  proof -
    from phase3_quiet[OF q, of r ?fs ?s0 w] obtain s1 w1 where
      p3: "phase3 cc r ?fs ?s0 w = ((None, s1), w1)"
      and k: "st_skipped_files s1 = st_skipped_files ?s0 + length ?fs"
             "st_files_to_parse s1 = st_files_to_parse ?s0" by blast
    from phase3_counts[OF p3] have k2: "st_parsed_files s1 = 0" "st_total_nodes s1 = 0"
      by (simp_all add: initial_statistics_def)
    have "parse_repository ff cc file_filters all_files r w = (Inr ([], [], s1), w1)"
      using p3 by (simp add: parse_repository_def Let_def)
    with k k2 show ?thesis by (auto simp: initial_statistics_def)
  qed
  from part1 part2 show ?thesis by blast
qed


theorem parse_repository_statistics_witness:
  "quiet None
   \<and> length (filter (selected FileFilter_init None) repo_files) = 2
   \<and> (case fst (parse_repository FileFilter_init None None repo_files 100 world0) of
        Inl e \<Rightarrow> False
      | Inr (ns, rs, stats) \<Rightarrow> ns = [] \<and> rs = [] \<and> st_parsed_files stats = 0
          \<and> st_total_nodes stats = 0 \<and> st_skipped_files stats = 2)"
proof -
  have q: "quiet None" by (simp add: quiet_def)
  have n: "length (filter (selected FileFilter_init None) repo_files) = 2" by code_simp
  from parse_repository_statistics[of FileFilter_init None None repo_files 100 world0] q n
  show ?thesis by auto
qed

text \<open>
  Claim C5.  When the language of the path is not detected, \<open>parse_file\<close> returns empty
  lists and a failed result with the error \<open>Unsupported file type\<close>.  When the parser of
  the detected language raises an \<open>Exception\<close>, \<open>parse_file\<close> returns empty lists and a
  failed result whose error is the exception's message.  (The cancellation signal is no
  \<open>Exception\<close> and passes through.)
\<close>

theorem parse_file_failures:
  "(check cc w = (Inr (), w1) \<and> detect_language fp = None \<longrightarrow>
      parse_file cc fp content r w
        = (Inr ([], [],
                \<lparr>result_file_path = fp, result_language = ''unknown'', success = False,
                 nodes_extracted = 0, relationships_extracted = 0,
                 result_error = Some ''Unsupported file type''\<rparr>), w1))
   \<and> (check cc w = (Inr (), w1) \<and> detect_language fp = Some lang
        \<and> parse_by_language cc content fp lang r w1 = (Inl e, w2) \<and> is_Exception e \<longrightarrow>
      (\<exists>l. parse_file cc fp content r w
        = (Inr ([], [],
                \<lparr>result_file_path = fp, result_language = l, success = False,
                 nodes_extracted = 0, relationships_extracted = 0,
                 result_error = Some (error_str e)\<rparr>), w2)))"
  by (auto simp: parse_file_def failed_result_def)


lemma go_method_raises: "parse_by_language None go_method ''m.go'' ''go'' 100 world0 = (Inl (IndexError ''string index out of range''), \<lparr>next_uuid = 2, probe_calls = 0\<rparr>)"
  by code_simp
lemma detect_go: "detect_language ''m.go'' = Some ''go''" by code_simp
lemma detect_unknown: "detect_language ''notes.xyz'' = None" by code_simp
lemma check_None: "check None world0 = (Inr (), world0)"
  by (simp add: check_def)

theorem parse_file_failures_witness:
  "check None world0 = (Inr (), world0) \<and> detect_language ''notes.xyz'' = None
   \<and> parse_file None ''notes.xyz'' ''text'' 100 world0
       = (Inr ([], [],
               \<lparr>result_file_path = ''notes.xyz'', result_language = ''unknown'', success = False,
                nodes_extracted = 0, relationships_extracted = 0,
                result_error = Some ''Unsupported file type''\<rparr>), world0)
   \<and> detect_language ''m.go'' = Some ''go''
   \<and> parse_by_language None go_method ''m.go'' ''go'' 100 world0
       = (Inl (IndexError ''string index out of range''), \<lparr>next_uuid = 2, probe_calls = 0\<rparr>)
   \<and> is_Exception (IndexError ''string index out of range'')
   \<and> result_error (snd (snd (projr (fst (parse_file None ''m.go'' go_method 100 world0)))))
       = Some ''string index out of range''
   \<and> fst (projr (fst (parse_file None ''m.go'' go_method 100 world0))) = []"
proof -
  from parse_file_failures[of None world0 world0 "''notes.xyz''" "''text''" 100] detect_unknown check_None
  have a: "parse_file None ''notes.xyz'' ''text'' 100 world0
       = (Inr ([], [],
               \<lparr>result_file_path = ''notes.xyz'', result_language = ''unknown'', success = False,
                nodes_extracted = 0, relationships_extracted = 0,
                result_error = Some ''Unsupported file type''\<rparr>), world0)" by simp
  from parse_file_failures[of None world0 world0 "''m.go''" go_method 100 "''go''" "IndexError ''string index out of range''"
      "\<lparr>next_uuid = 2, probe_calls = 0\<rparr>"] go_method_raises detect_go check_None
  obtain l where b: "parse_file None ''m.go'' go_method 100 world0
        = (Inr ([], [],
                \<lparr>result_file_path = ''m.go'', result_language = l, success = False,
                 nodes_extracted = 0, relationships_extracted = 0,
                 result_error = Some (error_str (IndexError ''string index out of range''))\<rparr>),
           \<lparr>next_uuid = 2, probe_calls = 0\<rparr>)" by auto
  show ?thesis using a b go_method_raises detect_go detect_unknown check_None by simp
qed

section \<open>The two-file example\<close>



section \<open>Containment: the parser's edges and the builder's containment pass\<close>

lemma emit_eq:
  "emit fid r ty rty nm fp i lang pub w =
     (([entity_node (next_uuid w) r ty nm fp i lang pub],
       [mk_rel (Suc (next_uuid w)) fid (next_uuid w) rty 1 False]),
      w\<lparr>next_uuid := Suc (Suc (next_uuid w))\<rparr>)"
  by (simp add: emit_def uuid4_def Let_def)






























section \<open>The graph builder on an empty node list, and the job's cross-file phase\<close>

lemma usage_loop_no_nodes:
  "usage_loop cc [] file_contents rels w = (r, w') \<Longrightarrow>
     (case r of Inr rels' \<Rightarrow> rels' = rels
      | Inl e \<Rightarrow> \<exists>p k. cc = Some p \<and> p k = Some e)"
proof (induction file_contents arbitrary: w)
  case Nil
  then show ?case by auto
next
  case (Cons f fs)
  obtain fp content where f: "f = (fp, content)" by (cases f)
  obtain c w1 where c: "check cc w = (c, w1)" by (metis prod.exhaust)
  show ?case
  proof (cases c)
    case (Inl e)
    with Cons.prems f c check_raises[of cc w e w1] show ?thesis by auto
  next
    case (Inr u)
    with Cons.prems f c have "usage_loop cc [] fs rels w1 = (r, w')" by simp
    from Cons.IH[OF this] show ?thesis .
  qed
qed

lemma usage_loop_no_nodes_quiet:
  "quiet cc \<Longrightarrow> \<exists>w'. usage_loop cc [] file_contents rels w = (Inr rels, w')"
proof (induction file_contents arbitrary: w)
  case Nil
  then show ?case by simp
next
  case (Cons f fs)
  obtain fp content where f: "f = (fp, content)" by (cases f)
  from check_quiet[OF Cons.prems] obtain w1 where c: "check cc w = (Inr (), w1)" by blast
  from Cons.IH[OF Cons.prems, of w1] f c show ?case by simp
qed

lemma build_relationships_no_nodes:
  "build_relationships cc [] file_contents w =
     (case usage_loop cc [] file_contents [] w of
        (Inl e, w1) \<Rightarrow> (Inl e, w1)
      | (Inr rels, w1) \<Rightarrow> (Inr rels, w1))"
  by (simp add: build_relationships_def nodes_by_file_def build_cross_file_relationships_def
        build_containment_relationships_def split: prod.splits sum.splits)

lemma build_relationships_empty:
  assumes "build_relationships cc [] file_contents w = (r, w')"
  shows "case r of Inr rels \<Rightarrow> rels = [] | Inl e \<Rightarrow> \<exists>p k. cc = Some p \<and> p k = Some e"
proof -
  obtain r0 w0 where u: "usage_loop cc [] file_contents [] w = (r0, w0)" by (metis prod.exhaust)
  from usage_loop_no_nodes[OF u] assms u show ?thesis
    by (cases r0) (auto simp: build_relationships_no_nodes)
qed

lemma cross_file_phase_result:
  assumes "cross_file_phase ev file_contents st j = (r, j')"
  shows "stored_relationships j' = stored_relationships j \<and> stored_nodes j' = stored_nodes j
         \<and> db_calls j' = db_calls j \<and> events j' = events j \<and> source_row j' = source_row j
         \<and> (case r of Inr st' \<Rightarrow> st' = st
             | Inl e \<Rightarrow> e = CancelledError ''Parsing was cancelled'')"
proof -
  obtain r0 w0 where
    b: "build_relationships (Some (check_cancellation ev)) [] file_contents (job_world j) = (r0, w0)"
    by (metis prod.exhaust)
  show ?thesis
  proof (cases r0)
    case (Inl e)
    with build_relationships_empty[OF b] obtain k where "check_cancellation ev k = Some e" by auto
    then have e: "e = CancelledError ''Parsing was cancelled''"
      by (auto simp: check_cancellation_def split: if_splits)
    with assms b Inl show ?thesis by (auto simp: cross_file_phase_def)
  next
    case (Inr rels)
    with build_relationships_empty[OF b] have "rels = []" by simp
    with assms b Inr show ?thesis by (auto simp: cross_file_phase_def)
  qed
qed

lemma parse_files_and_finish_flag:
  "parse_files_and_finish ev (request\<lparr>rq_enable_cross_file_refs := b\<rparr>) source path j
     = parse_files_and_finish ev request source path j"
  by (simp add: parse_files_and_finish_def)

lemma parse_body_flag:
  "parse_body ev (request\<lparr>rq_enable_cross_file_refs := b\<rparr>) j0 = parse_body ev request j0"
  by (simp add: parse_body_def parse_files_and_finish_flag create_kg_source_def Let_def
        split: prod.splits sum.splits)

text \<open>
  Claim C3.  Given an empty node list, \<open>build_relationships\<close> returns the empty list
  whenever it returns, for every \<open>file_contents\<close>, and it returns when no probe is given
  or the probe never raises; its only probe calls are those of the loop over the files in
  the cross-file pass.  The job's cross-file phase passes the empty node list, so when it
  goes on, the count of relationships and the stored relationships are what they were,
  and when it does not, a cancellation left it.  \<open>enable_cross_file_refs\<close> is never read:
  the job is the same for either value.
\<close>

theorem empty_node_list_builds_nothing:
  "(\<forall>rels w'. build_relationships cc [] file_contents w = (Inr rels, w') \<longrightarrow> rels = [])
   \<and> (quiet cc \<longrightarrow> (\<exists>w'. build_relationships cc [] file_contents w = (Inr [], w')))
   \<and> (\<forall>st' j'. cross_file_phase ev file_contents st j = (Inr st', j') \<longrightarrow>
          total_relationships_created st' = total_relationships_created st
          \<and> stored_relationships j' = stored_relationships j)
   \<and> (\<forall>e j'. cross_file_phase ev file_contents st j = (Inl e, j') \<longrightarrow>
          \<not> is_Exception e \<and> stored_relationships j' = stored_relationships j)
   \<and> service_parse_repository ev (request\<lparr>rq_enable_cross_file_refs := b\<rparr>) j0
       = service_parse_repository ev request j0"
proof -
  have p1: "rels = []" if "build_relationships cc [] file_contents w = (Inr rels, w')" for rels w'
    using build_relationships_empty[OF that] by simp
  have p2: "\<exists>w'. build_relationships cc [] file_contents w = (Inr [], w')" if "quiet cc"
    using usage_loop_no_nodes_quiet[OF that, of file_contents "[]" w]
    by (auto simp: build_relationships_no_nodes)
  have p3: "total_relationships_created st' = total_relationships_created st
          \<and> stored_relationships j' = stored_relationships j"
    if "cross_file_phase ev file_contents st j = (Inr st', j')" for st' j'
    using cross_file_phase_result[OF that] by simp
  have p4: "\<not> is_Exception e \<and> stored_relationships j' = stored_relationships j"
    if "cross_file_phase ev file_contents st j = (Inl e, j')" for e j'
    using cross_file_phase_result[OF that] by simp
  have p5: "service_parse_repository ev (request\<lparr>rq_enable_cross_file_refs := b\<rparr>) j0
       = service_parse_repository ev request j0"
    by (simp add: service_parse_repository_def parse_body_flag)
  from p1 p2 p3 p4 p5 show ?thesis by blast
qed

theorem empty_node_list_builds_nothing_witness:
  "quiet None
   \<and> build_relationships None [] two_file_repository world0 = (Inr [], world0)
   \<and> fst (cross_file_phase local_env two_file_repository no_counters new_job) = Inr no_counters
   \<and> stored_relationships (snd (cross_file_phase local_env two_file_repository no_counters new_job)) = []
   \<and> service_parse_repository local_env (local_request\<lparr>rq_enable_cross_file_refs := False\<rparr>) new_job
       = service_parse_repository local_env local_request new_job"
proof -
  note main = empty_node_list_builds_nothing[where cc = None
      and file_contents = two_file_repository and w = world0 and ev = local_env
      and st = no_counters and j = new_job and request = local_request and b = False
      and ?j0.0 = new_job]
  have q: "quiet None" by (simp add: quiet_def)
  have b: "build_relationships None [] two_file_repository world0 = (Inr [], world0)"
    by code_simp
  have c: "fst (cross_file_phase local_env two_file_repository no_counters new_job) = Inr no_counters"
    by code_simp
  obtain j' where c': "cross_file_phase local_env two_file_repository no_counters new_job
      = (Inr no_counters, j')"
    using c by (cases "cross_file_phase local_env two_file_repository no_counters new_job") auto
  with main have "stored_relationships j' = stored_relationships new_job" by blast
  then have s: "stored_relationships (snd (cross_file_phase local_env two_file_repository no_counters new_job)) = []"
    using c' by (simp add: new_job_def)
  from main have "service_parse_repository local_env (local_request\<lparr>rq_enable_cross_file_refs := False\<rparr>) new_job
       = service_parse_repository local_env local_request new_job" by blast
  with q b c s show ?thesis by simp
qed

section \<open>Cancellation: what the job does when it is cancelled\<close>

lemma probe_fired_iff:
  "probe_fired ev w w1 = (\<exists>k. probe_calls w \<le> k \<and> k < probe_calls w1 \<and> task_cancelled ev k)"
  by (auto simp: probe_fired_def list_ex_iff)

lemma world_ok_same: "probe_calls w1 = probe_calls w \<Longrightarrow> world_ok ev w r w1"
  by (auto simp: world_ok_def probe_fired_iff)

lemma probe_fired_split:
  assumes "probe_calls w \<le> probe_calls w1" "probe_calls w1 \<le> probe_calls w2"
  shows "probe_fired ev w w2 = (probe_fired ev w w1 \<or> probe_fired ev w1 w2)"
proof
  assume "probe_fired ev w w2"
  then obtain k where k: "probe_calls w \<le> k" "k < probe_calls w2" "task_cancelled ev k"
    by (auto simp: probe_fired_iff)
  show "probe_fired ev w w1 \<or> probe_fired ev w1 w2"
  proof (cases "k < probe_calls w1")
    case True
    with k show ?thesis by (auto simp: probe_fired_iff)
  next
    case False
    then have "probe_calls w1 \<le> k" by simp
    with k show ?thesis by (auto simp: probe_fired_iff)
  qed
next
  assume "probe_fired ev w w1 \<or> probe_fired ev w1 w2"
  then show "probe_fired ev w w2"
  proof
    assume "probe_fired ev w w1"
    then obtain k where "probe_calls w \<le> k" "k < probe_calls w1" "task_cancelled ev k"
      by (auto simp: probe_fired_iff)
    with assms(2) have "probe_calls w \<le> k \<and> k < probe_calls w2 \<and> task_cancelled ev k" by simp
    then show ?thesis unfolding probe_fired_iff by blast
  next
    assume "probe_fired ev w1 w2"
    then obtain k where "probe_calls w1 \<le> k" "k < probe_calls w2" "task_cancelled ev k"
      by (auto simp: probe_fired_iff)
    with assms(1) have "probe_calls w \<le> k \<and> k < probe_calls w2 \<and> task_cancelled ev k" by simp
    then show ?thesis unfolding probe_fired_iff by blast
  qed
qed

lemma world_ok_seq:
  assumes "world_ok ev w None w1" and "world_ok ev w1 r w2"
  shows "world_ok ev w r w2"
proof -
  from assms have le: "probe_calls w \<le> probe_calls w1" "probe_calls w1 \<le> probe_calls w2"
    by (simp_all add: world_ok_def)
  from assms(1) have nf: "\<not> probe_fired ev w w1" by (simp add: world_ok_def)
  from assms(2) have "probe_fired ev w1 w2 \<longrightarrow> r = Some (CancelledError ''Parsing was cancelled'')"
    by (simp add: world_ok_def)
  with nf le show ?thesis
    by (simp add: world_ok_def probe_fired_split[OF le])
qed

lemma world_ok_catch:
  "world_ok ev w (Some e) w1 \<Longrightarrow> is_Exception e \<Longrightarrow> world_ok ev w r w1"
  unfolding world_ok_def by auto

lemma world_ok_none:
  assumes "world_ok ev w None w1" and "probe_calls w2 = probe_calls w1"
  shows "world_ok ev w r w2"
  by (rule world_ok_seq[OF assms(1)]) (rule world_ok_same[OF assms(2)])

lemma check_ok_cases:
  assumes "check (Some (check_cancellation ev)) w = (r, w1)"
  shows "(r = Inr () \<and> world_ok ev w None w1)
         \<or> (r = Inl (CancelledError ''Parsing was cancelled'')
             \<and> world_ok ev w (Some (CancelledError ''Parsing was cancelled'')) w1)"
proof (cases "task_cancelled ev (probe_calls w)")
  case True
  with assms have "r = Inl (CancelledError ''Parsing was cancelled'')"
    "probe_calls w1 = Suc (probe_calls w)"
    by (auto simp: check_def check_cancellation_def)
  then show ?thesis by (simp add: world_ok_def)
next
  case False
  with assms have r: "r = Inr ()" "probe_calls w1 = Suc (probe_calls w)"
    by (auto simp: check_def check_cancellation_def)
  have "\<not> probe_fired ev w w1"
    using False r(2) by (auto simp: probe_fired_iff less_Suc_eq_le)
  with r show ?thesis by (simp add: world_ok_def)
qed

lemma check_ok:
  "check (Some (check_cancellation ev)) w = (r, w1) \<Longrightarrow> world_ok ev w (exception_of r) w1"
  using check_ok_cases[of ev w r w1] by (auto simp: exception_of_def)

lemma oo_line_probe_calls:
  "oo_line fp lang r fid l i w = (x, w') \<Longrightarrow> probe_calls w' = probe_calls w"
  unfolding oo_line_def Let_def emit_eq
  by (auto split: if_splits sum.splits)

lemma proc_line_probe_calls:
  "proc_line fp lang r fid l i w = (x, w') \<Longrightarrow> probe_calls w' = probe_calls w"
  unfolding proc_line_def Let_def emit_eq uuid4_def
  by (auto split: if_splits sum.splits option.splits prod.splits)

lemma basic_line_probe_calls:
  "basic_line fp lang r fid l i w = (x, w') \<Longrightarrow> probe_calls w' = probe_calls w"
  unfolding basic_line_def Let_def emit_eq
  by (auto split: if_splits)

lemma lines_loop_ok:
  assumes pc: "\<And>l i w x w'. line_pass l i w = (x, w') \<Longrightarrow> probe_calls w' = probe_calls w"
    and ex: "\<And>l i w e w'. line_pass l i w = (Inl e, w') \<Longrightarrow> is_Exception e"
  shows "lines_loop (Some (check_cancellation ev)) period line_pass ls i nodes rels w = (r, w1) \<Longrightarrow>
         world_ok ev w (exception_of r) w1
         \<and> (\<forall>e. r = Inl e \<and> \<not> is_Exception e \<longrightarrow> e = CancelledError ''Parsing was cancelled'')"
proof (induction ls arbitrary: i nodes rels w)
  case Nil
  then show ?case by (auto simp: exception_of_def intro: world_ok_same)
next
  case (Cons l ls)
  let ?cc = "Some (check_cancellation ev)"
  obtain c w0 where c: "(if ?cc \<noteq> None \<and> i mod period = 0 then check ?cc w else (Inr (), w)) = (c, w0)"
    by (metis prod.exhaust)
  have c_cases: "(c = Inr () \<and> world_ok ev w None w0)
         \<or> (c = Inl (CancelledError ''Parsing was cancelled'')
             \<and> world_ok ev w (Some (CancelledError ''Parsing was cancelled'')) w0)"
  proof (cases "i mod period = 0")
    case True
    with c have "check ?cc w = (c, w0)" by simp
    from check_ok_cases[OF this] show ?thesis .
  next
    case False
    with c have "c = Inr ()" "w0 = w" by simp_all
    then show ?thesis by (simp add: world_ok_same)
  qed
  then show ?case
  proof
    assume a: "c = Inl (CancelledError ''Parsing was cancelled'')
             \<and> world_ok ev w (Some (CancelledError ''Parsing was cancelled'')) w0"
    with Cons.prems c have "r = Inl (CancelledError ''Parsing was cancelled'')" "w1 = w0"
      by auto
    with a show ?thesis by (simp add: exception_of_def)
  next
    assume a: "c = Inr () \<and> world_ok ev w None w0"
    obtain x w2 where p: "line_pass l i w0 = (x, w2)" by (metis prod.exhaust)
    from pc[OF p] have pc2: "probe_calls w2 = probe_calls w0" .
    show ?thesis
    proof (cases x)
      case (Inl e)
      with Cons.prems c a p have r: "r = Inl e" "w1 = w2" by auto
      from ex[OF p[unfolded Inl]] have "is_Exception e" .
      with r a pc2 show ?thesis by (auto intro: world_ok_none)
    next
      case (Inr out)
      obtain ns rs where out: "out = (ns, rs)" by (cases out)
      with Cons.prems c a p Inr have
        rec: "lines_loop ?cc period line_pass ls (Suc i) (nodes @ ns) (rels @ rs) w2 = (r, w1)"
        by auto
      from Cons.IH[OF rec] have ih: "world_ok ev w2 (exception_of r) w1"
        "\<forall>e. r = Inl e \<and> \<not> is_Exception e \<longrightarrow> e = CancelledError ''Parsing was cancelled''"
        by simp_all
      from a pc2 have "world_ok ev w None w2" by (auto intro: world_ok_none)
      from world_ok_seq[OF this ih(1)] ih(2) show ?thesis by simp
    qed
  qed
qed

lemma parse_with_ok:
  assumes pc: "\<And>fid l i w x w'. line_pass fid l i w = (x, w') \<Longrightarrow> probe_calls w' = probe_calls w"
    and ex: "\<And>fid l i w e w'. line_pass fid l i w = (Inl e, w') \<Longrightarrow> is_Exception e"
    and r: "parse_with (Some (check_cancellation ev)) period line_pass content fp lang rid w = (r, w1)"
  shows "world_ok ev w (exception_of r) w1
         \<and> (\<forall>e. r = Inl e \<and> \<not> is_Exception e \<longrightarrow> e = CancelledError ''Parsing was cancelled'')"
proof -
  let ?cc = "Some (check_cancellation ev)"
  obtain c w0 where c: "check ?cc w = (c, w0)" by (metis prod.exhaust)
  from check_ok_cases[OF c] show ?thesis
  proof
    assume a: "c = Inl (CancelledError ''Parsing was cancelled'')
             \<and> world_ok ev w (Some (CancelledError ''Parsing was cancelled'')) w0"
    with r c have "r = Inl (CancelledError ''Parsing was cancelled'')" "w1 = w0"
      by (auto simp: parse_with_def)
    with a show ?thesis by (simp add: exception_of_def)
  next
    assume a: "c = Inr () \<and> world_ok ev w None w0"
    let ?w2 = "w0\<lparr>next_uuid := Suc (next_uuid w0)\<rparr>"
    from r c a have ll: "lines_loop ?cc period (line_pass (next_uuid w0)) (split_on newline content) 0
           [file_node_of (next_uuid w0) rid fp lang] [] ?w2 = (r, w1)"
      by (simp add: parse_with_def uuid4_def Let_def)
    from lines_loop_ok[of "line_pass (next_uuid w0)", OF pc ex ll]
    have k: "world_ok ev ?w2 (exception_of r) w1"
      "\<forall>e. r = Inl e \<and> \<not> is_Exception e \<longrightarrow> e = CancelledError ''Parsing was cancelled''"
      by simp_all
    from a have "world_ok ev w None ?w2" by (auto intro: world_ok_none)
    from world_ok_seq[OF this k(1)] k(2) show ?thesis by simp
  qed
qed

lemma parse_by_language_ok:
  assumes "parse_by_language (Some (check_cancellation ev)) content fp lang rid w = (r, w1)"
  shows "world_ok ev w (exception_of r) w1
         \<and> (\<forall>e. r = Inl e \<and> \<not> is_Exception e \<longrightarrow> e = CancelledError ''Parsing was cancelled'')"
proof -
  let ?cc = "Some (check_cancellation ev)"
  consider (oo) "parse_with ?cc 100 (oo_line fp lang rid) content fp lang rid w = (r, w1)"
    | (pr) "parse_with ?cc 100 (proc_line fp lang rid) content fp lang rid w = (r, w1)"
    | (ba) "parse_with ?cc 50 (basic_line fp lang rid) content fp lang rid w = (r, w1)"
    using assms
    unfolding parse_by_language_def parse_object_oriented_file_def parse_procedural_file_def
      parse_basic_file_def
    by (simp split: if_splits)
  then show ?thesis
  proof cases
    case oo
    show ?thesis
      by (rule parse_with_ok[OF _ _ oo]) (erule oo_line_probe_calls, erule oo_line_error)
  next
    case pr
    show ?thesis
      by (rule parse_with_ok[OF _ _ pr]) (erule proc_line_probe_calls, erule proc_line_error)
  next
    case ba
    show ?thesis
      by (rule parse_with_ok[OF _ _ ba]) (erule basic_line_probe_calls, erule basic_line_error)
  qed
qed

lemma parse_file_ok:
  assumes "parse_file (Some (check_cancellation ev)) fp content rid w = (r, w1)"
  shows "world_ok ev w (exception_of r) w1"
proof -
  let ?cc = "Some (check_cancellation ev)"
  obtain c w0 where c: "check ?cc w = (c, w0)" by (metis prod.exhaust)
  from check_ok_cases[OF c] show ?thesis
  proof
    assume a: "c = Inl (CancelledError ''Parsing was cancelled'')
             \<and> world_ok ev w (Some (CancelledError ''Parsing was cancelled'')) w0"
    with assms c have "r = Inl (CancelledError ''Parsing was cancelled'')" "w1 = w0"
      by (auto simp: parse_file_def)
    with a show ?thesis by (simp add: exception_of_def)
  next
    assume a: "c = Inr () \<and> world_ok ev w None w0"
    show ?thesis
    proof (cases "detect_language fp")
      case None
      with assms c a have "w1 = w0" "exception_of r = None" by (auto simp: parse_file_def exception_of_def)
      with a show ?thesis by simp
    next
      case (Some lang)
      obtain x w2 where p: "parse_by_language ?cc content fp lang rid w0 = (x, w2)"
        by (metis prod.exhaust)
      from parse_by_language_ok[OF p] have k: "world_ok ev w0 (exception_of x) w2"
        "\<forall>e. x = Inl e \<and> \<not> is_Exception e \<longrightarrow> e = CancelledError ''Parsing was cancelled''"
        by simp_all
      have "world_ok ev w0 (exception_of r) w1"
      proof (cases x)
        case (Inl e)
        show ?thesis
        proof (cases "is_Exception e")
          case True
          with assms c a Some p Inl have "w1 = w2" by (auto simp: parse_file_def)
          with k(1) Inl True show ?thesis by (auto simp: exception_of_def intro: world_ok_catch)
        next
          case False
          with assms c a Some p Inl have "w1 = w2" "r = Inl e" by (auto simp: parse_file_def)
          with k(1) Inl show ?thesis by (simp add: exception_of_def)
        qed
      next
        case (Inr out)
        obtain ns rs where "out = (ns, rs)" by (cases out)
        with assms c a Some p Inr have "w1 = w2" "exception_of r = None"
          by (auto simp: parse_file_def exception_of_def)
        with k(1) Inr show ?thesis by (simp add: exception_of_def)
      qed
      with a show ?thesis by (auto intro: world_ok_seq)
    qed
  qed
qed

lemma usage_loop_no_nodes_ok:
  "usage_loop (Some (check_cancellation ev)) [] file_contents rels w = (r, w1) \<Longrightarrow>
   world_ok ev w (exception_of r) w1"
proof (induction file_contents arbitrary: w)
  case Nil
  then show ?case by (auto simp: exception_of_def intro: world_ok_same)
next
  case (Cons f fs)
  let ?cc = "Some (check_cancellation ev)"
  obtain fp content where f: "f = (fp, content)" by (cases f)
  obtain c w0 where c: "check ?cc w = (c, w0)" by (metis prod.exhaust)
  from check_ok_cases[OF c] show ?case
  proof
    assume a: "c = Inl (CancelledError ''Parsing was cancelled'')
             \<and> world_ok ev w (Some (CancelledError ''Parsing was cancelled'')) w0"
    with Cons.prems f c have "r = Inl (CancelledError ''Parsing was cancelled'')" "w1 = w0"
      by auto
    with a show ?thesis by (simp add: exception_of_def)
  next
    assume a: "c = Inr () \<and> world_ok ev w None w0"
    with Cons.prems f c have "usage_loop ?cc [] fs rels w0 = (r, w1)" by simp
    from Cons.IH[OF this] a show ?thesis by (auto intro: world_ok_seq)
  qed
qed

lemma callback_cancelled_iff:
  "callback_cancelled ev j j1 =
     (\<exists>cb k e. progress_callback ev = Some cb \<and> callback_calls j \<le> k \<and> k < callback_calls j1
               \<and> cb k = Some e \<and> \<not> is_Exception e)"
  by (auto simp: callback_cancelled_def list_ex_iff split: option.splits)

lemma callback_cancelled_split:
  assumes "callback_calls j \<le> callback_calls j1" "callback_calls j1 \<le> callback_calls j2"
  shows "callback_cancelled ev j j2 = (callback_cancelled ev j j1 \<or> callback_cancelled ev j1 j2)"
proof
  assume "callback_cancelled ev j j2"
  then obtain cb k e where k: "progress_callback ev = Some cb" "callback_calls j \<le> k"
    "k < callback_calls j2" "cb k = Some e" "\<not> is_Exception e"
    unfolding callback_cancelled_iff by blast
  show "callback_cancelled ev j j1 \<or> callback_cancelled ev j1 j2"
  proof (cases "k < callback_calls j1")
    case True
    with k have "callback_cancelled ev j j1" unfolding callback_cancelled_iff by blast
    then show ?thesis ..
  next
    case False
    then have "callback_calls j1 \<le> k" by simp
    with k have "callback_cancelled ev j1 j2" unfolding callback_cancelled_iff by blast
    then show ?thesis ..
  qed
next
  assume "callback_cancelled ev j j1 \<or> callback_cancelled ev j1 j2"
  then show "callback_cancelled ev j j2"
  proof
    assume "callback_cancelled ev j j1"
    then obtain cb k e where k: "progress_callback ev = Some cb" "callback_calls j \<le> k"
      "k < callback_calls j1" "cb k = Some e" "\<not> is_Exception e"
      unfolding callback_cancelled_iff by blast
    from k(3) assms(2) have "k < callback_calls j2" by simp
    with k show ?thesis unfolding callback_cancelled_iff by blast
  next
    assume "callback_cancelled ev j1 j2"
    then obtain cb k e where k: "progress_callback ev = Some cb" "callback_calls j1 \<le> k"
      "k < callback_calls j2" "cb k = Some e" "\<not> is_Exception e"
      unfolding callback_cancelled_iff by blast
    from k(2) assms(1) have "callback_calls j \<le> k" by simp
    with k show ?thesis unfolding callback_cancelled_iff by blast
  qed
qed

lemma cancel_delivered_split:
  assumes "probe_calls (job_world j) \<le> probe_calls (job_world j1)"
    "probe_calls (job_world j1) \<le> probe_calls (job_world j2)"
    "callback_calls j \<le> callback_calls j1" "callback_calls j1 \<le> callback_calls j2"
  shows "cancel_delivered ev j j2 = (cancel_delivered ev j j1 \<or> cancel_delivered ev j1 j2)"
  unfolding cancel_delivered_def
  using probe_fired_split[OF assms(1,2), of ev] callback_cancelled_split[OF assms(3,4), of ev]
  by blast

lemma cancel_delivered_same:
  "probe_calls (job_world j1) = probe_calls (job_world j) \<Longrightarrow> callback_calls j1 = callback_calls j
   \<Longrightarrow> \<not> cancel_delivered ev j j1"
  by (auto simp: cancel_delivered_def probe_fired_iff callback_cancelled_iff)

lemma job_ok_same:
  "probe_calls (job_world j1) = probe_calls (job_world j) \<Longrightarrow> callback_calls j1 = callback_calls j
   \<Longrightarrow> job_ok ev j r j1"
  by (simp add: job_ok_def cancel_delivered_same)

lemma job_ok_seq:
  assumes "job_ok ev j None j1" and "job_ok ev j1 r j2"
  shows "job_ok ev j r j2"
proof -
  from assms have le: "probe_calls (job_world j) \<le> probe_calls (job_world j1)"
    "probe_calls (job_world j1) \<le> probe_calls (job_world j2)"
    "callback_calls j \<le> callback_calls j1" "callback_calls j1 \<le> callback_calls j2"
    by (simp_all add: job_ok_def)
  from assms(1) have "\<not> cancel_delivered ev j j1" by (simp add: job_ok_def)
  with assms(2) le show ?thesis
    by (simp add: job_ok_def cancel_delivered_split[OF le])
qed

lemma job_ok_catch:
  "job_ok ev j (Some e) j1 \<Longrightarrow> is_Exception e \<Longrightarrow> job_ok ev j r j1"
  by (auto simp: job_ok_def)

lemma job_ok_world:
  "world_ok ev (job_world j) r w1 \<Longrightarrow> job_ok ev j r (j\<lparr>job_world := w1\<rparr>)"
  by (auto simp: job_ok_def world_ok_def cancel_delivered_def callback_cancelled_iff)

lemma unchanged_refl: "unchanged j j"
  by (simp add: unchanged_def)

lemma unchanged_trans: "unchanged j j1 \<Longrightarrow> unchanged j1 j2 \<Longrightarrow> unchanged j j2"
  by (simp add: unchanged_def)

lemma unchanged_step: "unchanged j j1 \<Longrightarrow> step_ok ev j r j1"
  by (simp add: unchanged_def step_ok_def job_ok_same)

lemma step_ok_seq: "step_ok ev j None j1 \<Longrightarrow> step_ok ev j1 r j2 \<Longrightarrow> step_ok ev j r j2"
  by (auto simp: step_ok_def intro: job_ok_seq)

lemma step_ok_catch: "step_ok ev j (Some e) j1 \<Longrightarrow> is_Exception e \<Longrightarrow> step_ok ev j r j1"
  by (auto simp: step_ok_def intro: job_ok_catch)

lemma step_ok_then_unchanged:
  "step_ok ev j r j1 \<Longrightarrow> unchanged j1 j2 \<Longrightarrow> step_ok ev j r j2"
  by (auto simp: step_ok_def unchanged_def job_ok_def cancel_delivered_def probe_fired_iff
        callback_cancelled_iff)

lemma unchanged_then_step:
  "unchanged j j1 \<Longrightarrow> step_ok ev j1 r j2 \<Longrightarrow> step_ok ev j r j2"
  by (auto simp: step_ok_def unchanged_def job_ok_def cancel_delivered_def probe_fired_iff
        callback_cancelled_iff)

lemma src_ok_update [simp]:
  "src_ok (j\<lparr>job_world := a\<rparr>) = src_ok j"
  "src_ok (j\<lparr>job_repository_id := b\<rparr>) = src_ok j"
  "src_ok (j\<lparr>job_cloned_temp_dir := c\<rparr>) = src_ok j"
  "src_ok (j\<lparr>events := d\<rparr>) = src_ok j"
  "src_ok (j\<lparr>callback_calls := e\<rparr>) = src_ok j"
  "src_ok (j\<lparr>db_calls := f\<rparr>) = src_ok j"
  "src_ok (j\<lparr>stored_nodes := g\<rparr>) = src_ok j"
  "src_ok (j\<lparr>stored_relationships := h\<rparr>) = src_ok j"
  by (simp_all add: src_ok_def split: option.splits)

lemma job_uuid4_unchanged: "job_uuid4 j = (i, j1) \<Longrightarrow> unchanged j j1"
  by (auto simp: job_uuid4_def uuid4_def unchanged_def Let_def)

lemma db_request_unchanged: "db_request ev j = (ok, j1) \<Longrightarrow> unchanged j j1"
  by (auto simp: db_request_def unchanged_def)

lemma update_kg_source_status_unchanged:
  "unchanged j (update_kg_source_status ev i status msg n m j)"
  by (auto simp: update_kg_source_status_def db_request_def unchanged_def src_ok_def Let_def
        split: option.splits)

lemma update_repository_statistics_unchanged:
  "unchanged j (update_repository_statistics ev j)"
  by (simp add: update_repository_statistics_def db_request_def unchanged_def)

lemma store_batches_unchanged:
  "store_batches ev bs stored j = (out, j1) \<Longrightarrow> unchanged j j1"
proof (induction bs arbitrary: stored j)
  case Nil
  then show ?case by (simp add: unchanged_refl)
next
  case (Cons b bs)
  obtain ok j0 where d: "db_request ev j = (ok, j0)" by (metis prod.exhaust)
  with Cons.prems have "store_batches ev bs (if ok then stored @ b else stored) j0 = (out, j1)"
    by simp
  from Cons.IH[OF this] db_request_unchanged[OF d] show ?case by (rule unchanged_trans[rotated])
qed

lemma store_nodes_and_relationships_unchanged:
  "unchanged j (store_nodes_and_relationships ev nodes rels n j)"
proof -
  obtain a j1 where s1: "store_batches ev (batches n nodes) [] j = (a, j1)" by (metis prod.exhaust)
  obtain b j2 where s2: "store_batches ev (batches n rels) [] j1 = (b, j2)" by (metis prod.exhaust)
  have "unchanged j j2"
    using store_batches_unchanged[OF s1] store_batches_unchanged[OF s2] by (rule unchanged_trans)
  moreover have "unchanged j2 (j2\<lparr>stored_nodes := stored_nodes j2 @ a,
                                  stored_relationships := stored_relationships j2 @ b\<rparr>)"
    by (simp add: unchanged_def)
  ultimately show ?thesis
    using s1 s2 by (auto simp: store_nodes_and_relationships_def intro: unchanged_trans)
qed

lemma stream_store_file_data_unchanged:
  "stream_store_file_data ev nodes rels j = (ok, j1) \<Longrightarrow> unchanged j j1"
  by (auto simp: stream_store_file_data_def unchanged_refl store_nodes_and_relationships_unchanged
        split: if_splits)

lemma create_kg_repository_unchanged:
  assumes "create_kg_repository ev j = (r, j1)"
  shows "unchanged j j1" and "\<And>e. r = Inl e \<Longrightarrow> is_Exception e"
proof -
  obtain i j' where u: "job_uuid4 j = (i, j')" by (metis prod.exhaust)
  obtain ok j'' where d: "db_request ev j' = (ok, j'')" by (metis prod.exhaust)
  from assms u d have j1: "j1 = j''" by (auto simp: create_kg_repository_def split: if_splits)
  from job_uuid4_unchanged[OF u] db_request_unchanged[OF d] j1
  show "unchanged j j1" by (auto intro: unchanged_trans)
  show "\<And>e. r = Inl e \<Longrightarrow> is_Exception e"
    using assms u d by (auto simp: create_kg_repository_def split: if_splits)
qed

lemma create_kg_source_result:
  assumes "create_kg_source ev request j = (r, j1)"
  shows "job_ok ev j None j1" and "events j1 = events j"
    and "\<And>e. r = Inl e \<Longrightarrow> is_Exception e"
    and "\<And>i. r = Inr i \<Longrightarrow> src_ok (j1\<lparr>job_source_id := Some i\<rparr>)"
proof -
  obtain i j' where u: "job_uuid4 j = (i, j')" by (metis prod.exhaust)
  obtain ok j'' where d: "db_request ev j' = (ok, j'')" by (metis prod.exhaust)
  from job_uuid4_unchanged[OF u] db_request_unchanged[OF d] have un: "unchanged j j''"
    by (rule unchanged_trans)
  from assms u d have c: "probe_calls (job_world j1) = probe_calls (job_world j'')"
    "callback_calls j1 = callback_calls j''" "events j1 = events j''"
    by (auto simp: create_kg_source_def split: if_splits)
  with un show "job_ok ev j None j1" "events j1 = events j"
    by (auto simp: unchanged_def intro: job_ok_same)
  show "\<And>e. r = Inl e \<Longrightarrow> is_Exception e"
    using assms u d by (auto simp: create_kg_source_def split: if_splits)
  show "\<And>i. r = Inr i \<Longrightarrow> src_ok (j1\<lparr>job_source_id := Some i\<rparr>)"
    using assms u d by (auto simp: create_kg_source_def src_ok_def split: if_splits)
qed

lemma call_progress_callback_ok:
  assumes "call_progress_callback ev pg j = (r, j1)"
  shows "step_ok ev j (exception_of r) j1"
proof (cases "progress_callback ev")
  case None
  with assms show ?thesis
    by (auto simp: call_progress_callback_def exception_of_def intro: unchanged_step unchanged_refl)
next
  case (Some cb)
  let ?k = "callback_calls j"
  from assms Some have j1: "j1 = j\<lparr>events := events j @ [pg], callback_calls := Suc ?k\<rparr>"
    by (auto simp: call_progress_callback_def Let_def split: option.splits)
  from assms Some have r: "exception_of r = cb ?k"
    by (auto simp: call_progress_callback_def Let_def exception_of_def split: option.splits)
  have cd: "cancel_delivered ev j j1 = (\<exists>e. cb ?k = Some e \<and> \<not> is_Exception e)"
    using Some j1
    by (auto simp: cancel_delivered_def probe_fired_iff callback_cancelled_iff less_Suc_eq_le)
  have "job_ok ev j (exception_of r) j1"
    unfolding job_ok_def cd r using j1 by auto
  with j1 show ?thesis by (simp add: step_ok_def)
qed

lemma create_progress_callback_ok:
  assumes "create_progress_callback ev status t p c n m errs j = (r, j1)"
  shows "step_ok ev j (exception_of r) j1"
proof (cases "progress_callback ev")
  case None
  with assms show ?thesis
    by (auto simp: create_progress_callback_def exception_of_def intro: unchanged_step unchanged_refl)
next
  case (Some cb)
  show ?thesis
  proof (cases "errs = []")
    case True
    with assms Some call_progress_callback_ok show ?thesis
      by (auto simp: create_progress_callback_def)
  next
    case False
    with assms Some have "j1 = j" by (auto simp: create_progress_callback_def)
    then show ?thesis by (auto intro: unchanged_step unchanged_refl)
  qed
qed

lemma clone_repository_ok:
  assumes "clone_repository ev url branch j = (r, j1)"
  shows "step_ok ev j (exception_of r) j1"
proof -
  let ?pg = "\<lparr>pg_kg_source_id = None, pg_status = PROCESSING, pg_total_files = 0,
              pg_processed_files = 0, pg_current_file = Some (''Cloning '' @ url),
              pg_nodes_created = 0, pg_relationships_created = 0\<rparr>"
  obtain c j0 where c: "call_progress_callback ev ?pg j = (c, j0)" by (metis prod.exhaust)
  note k = call_progress_callback_ok[OF c]
  show ?thesis
  proof (cases c)
    case (Inl e)
    show ?thesis
    proof (cases "is_Exception e")
      case True
      with assms c Inl have "j1 = j0" by (auto simp: clone_repository_def)
      with k Inl True show ?thesis by (auto simp: exception_of_def intro: step_ok_catch)
    next
      case False
      with assms c Inl have "j1 = j0" "r = Inl e" by (auto simp: clone_repository_def)
      with k Inl show ?thesis by (simp add: exception_of_def)
    qed
  next
    case (Inr u)
    with assms c have "j1 = j0" by (auto simp: clone_repository_def split: sum.splits)
    moreover from k Inr have "step_ok ev j None j0" by (simp add: exception_of_def)
    ultimately show ?thesis
      by (auto intro: step_ok_then_unchanged unchanged_refl
            simp: step_ok_def job_ok_def)
  qed
qed

lemma step_ok_world:
  "world_ok ev (job_world j) r w1 \<Longrightarrow> step_ok ev j r (j\<lparr>job_world := w1\<rparr>)"
  by (simp add: step_ok_def job_ok_world)

lemma file_failed_ok:
  assumes "step_ok ev j (Some e) j'" and "file_failed fp e st j' = (r, j1)"
  shows "step_ok ev j (exception_of r) j1"
proof (cases "is_Exception e")
  case True
  with assms(2) have "j1 = j'" by (auto simp: file_failed_def)
  with assms(1) True show ?thesis by (auto intro: step_ok_catch)
next
  case False
  with assms(2) have "j1 = j'" "r = Inl e" by (auto simp: file_failed_def)
  with assms(1) show ?thesis by (simp add: exception_of_def)
qed

lemma store_file_result_unchanged:
  "store_file_result ev fp nodes rels result st j = (st1, j1) \<Longrightarrow> unchanged j j1"
  by (auto simp: store_file_result_def unchanged_refl split: if_splits prod.splits
        dest: stream_store_file_data_unchanged)

lemma count_and_report_ok:
  assumes "count_and_report ev total_files fp st j = (r, j1)"
  shows "step_ok ev j (exception_of r) j1"
proof -
  let ?st2 = "st\<lparr>processed_files := processed_files st + 1\<rparr>"
  show ?thesis
  proof (cases "processed_files ?st2 mod 5 = 0 \<or> processed_files ?st2 = total_files")
    case False
    with assms have "j1 = j" "exception_of r = None"
      by (auto simp: count_and_report_def Let_def exception_of_def)
    then show ?thesis by (auto intro: unchanged_step unchanged_refl)
  next
    case True
    obtain c j3 where c: "create_progress_callback ev PROCESSING total_files (processed_files ?st2)
                   (Some fp) (total_nodes_created ?st2) (total_relationships_created ?st2)
                   (last_errors (failed_files ?st2)) j = (c, j3)" by (metis prod.exhaust)
    note k = create_progress_callback_ok[OF c]
    show ?thesis
    proof (cases c)
      case (Inl e)
      with assms True c have "file_failed fp e ?st2 j3 = (r, j1)"
        by (auto simp: count_and_report_def Let_def)
      from file_failed_ok[OF _ this, of ev j] k Inl show ?thesis by (simp add: exception_of_def)
    next
      case (Inr u)
      with assms True c have "j1 = j3" "exception_of r = None"
        by (auto simp: count_and_report_def Let_def exception_of_def)
      with k Inr show ?thesis by (simp add: exception_of_def)
    qed
  qed
qed

lemma process_file_ok:
  assumes "process_file ev rid total_files fp content st j = (r, j1)"
  shows "step_ok ev j (exception_of r) j1"
proof -
  obtain x w where pf: "parse_file (Some (check_cancellation ev)) fp content rid (job_world j) = (x, w)"
    by (metis prod.exhaust)
  from step_ok_world[OF parse_file_ok[OF pf]]
  have k: "step_ok ev j (exception_of x) (j\<lparr>job_world := w\<rparr>)" .
  show ?thesis
  proof (cases x)
    case (Inl e)
    with assms pf have "file_failed fp e st (j\<lparr>job_world := w\<rparr>) = (r, j1)"
      by (simp add: process_file_def)
    from file_failed_ok[OF _ this, of ev j] k Inl show ?thesis by (simp add: exception_of_def)
  next
    case (Inr out)
    obtain nodes rels result where out: "out = (nodes, rels, result)" by (cases out)
    obtain st1 j2 where s: "store_file_result ev fp nodes rels result st (j\<lparr>job_world := w\<rparr>) = (st1, j2)"
      by (metis prod.exhaust)
    from assms pf Inr out s have c: "count_and_report ev total_files fp st1 j2 = (r, j1)"
      by (simp add: process_file_def)
    from k Inr have "step_ok ev j None (j\<lparr>job_world := w\<rparr>)" by (simp add: exception_of_def)
    from step_ok_then_unchanged[OF this store_file_result_unchanged[OF s]]
    have "step_ok ev j None j2" .
    from step_ok_seq[OF this count_and_report_ok[OF c]] show ?thesis .
  qed
qed

lemma stream_files_ok:
  "stream_files ev rid total_files files st j = (r, j1) \<Longrightarrow> step_ok ev j (exception_of r) j1"
proof (induction files arbitrary: st j)
  case Nil
  then show ?case by (auto simp: exception_of_def intro: unchanged_step unchanged_refl)
next
  case (Cons f fs)
  obtain fp content where f: "f = (fp, content)" by (cases f)
  obtain x j0 where p: "process_file ev rid total_files fp content st j = (x, j0)"
    by (metis prod.exhaust)
  note k = process_file_ok[OF p]
  show ?case
  proof (cases x)
    case (Inl e)
    with Cons.prems f p have "r = Inl e" "j1 = j0" by simp_all
    with k Inl show ?thesis by simp
  next
    case (Inr st1)
    with Cons.prems f p have "stream_files ev rid total_files fs st1 j0 = (r, j1)" by simp
    from Cons.IH[OF this] k Inr show ?thesis by (auto simp: exception_of_def intro: step_ok_seq)
  qed
qed

lemma build_relationships_no_nodes_ok:
  assumes "build_relationships (Some (check_cancellation ev)) [] file_contents w = (r, w1)"
  shows "world_ok ev w (exception_of r) w1"
proof -
  obtain x w0 where u: "usage_loop (Some (check_cancellation ev)) [] file_contents [] w = (x, w0)"
    by (metis prod.exhaust)
  from assms u have "w1 = w0" "exception_of r = exception_of x"
    by (auto simp: build_relationships_no_nodes exception_of_def split: sum.splits)
  with usage_loop_no_nodes_ok[OF u] show ?thesis by simp
qed

lemma cross_file_phase_ok:
  assumes "cross_file_phase ev file_contents st j = (r, j1)"
  shows "step_ok ev j (exception_of r) j1"
proof -
  obtain x w where b: "build_relationships (Some (check_cancellation ev)) [] file_contents (job_world j) = (x, w)"
    by (metis prod.exhaust)
  from step_ok_world[OF build_relationships_no_nodes_ok[OF b]]
  have k: "step_ok ev j (exception_of x) (j\<lparr>job_world := w\<rparr>)" .
  show ?thesis
  proof (cases x)
    case (Inl e)
    show ?thesis
    proof (cases "is_Exception e")
      case True
      with assms b Inl have "j1 = j\<lparr>job_world := w\<rparr>" by (simp add: cross_file_phase_def)
      with k Inl True show ?thesis by (auto simp: exception_of_def intro: step_ok_catch)
    next
      case False
      with assms b Inl have "j1 = j\<lparr>job_world := w\<rparr>" "r = Inl e"
        by (simp_all add: cross_file_phase_def)
      with k Inl show ?thesis by (simp add: exception_of_def)
    qed
  next
    case (Inr rels)
    from k Inr have k': "step_ok ev j None (j\<lparr>job_world := w\<rparr>)" by (simp add: exception_of_def)
    show ?thesis
    proof (cases "rels = []")
      case True
      with assms b Inr have "j1 = j\<lparr>job_world := w\<rparr>" "exception_of r = None"
        by (auto simp: cross_file_phase_def exception_of_def)
      with k' show ?thesis by simp
    next
      case False
      with assms b Inr have "j1 = store_nodes_and_relationships ev [] rels 50 (j\<lparr>job_world := w\<rparr>)"
        "exception_of r = None"
        by (auto simp: cross_file_phase_def exception_of_def Let_def)
      with step_ok_then_unchanged[OF k' store_nodes_and_relationships_unchanged] show ?thesis
        by simp
    qed
  qed
qed

lemma finish_job_ok:
  assumes "finish_job ev source total_files st j = (r, j1)"
  shows "step_ok ev j (exception_of r) j1"
proof -
  let ?j1 = "update_repository_statistics ev j"
  let ?j2 = "update_kg_source_status ev source COMPLETED None
                 (Some (total_nodes_created st)) (Some (total_relationships_created st)) ?j1"
  have un: "unchanged j ?j2"
    using update_repository_statistics_unchanged update_kg_source_status_unchanged
    by (rule unchanged_trans)
  obtain c j3 where c: "create_progress_callback ev COMPLETED total_files (processed_files st) None
                (total_nodes_created st) (total_relationships_created st)
                (last_errors (failed_files st)) ?j2 = (c, j3)" by (metis prod.exhaust)
  from assms c have "j1 = j3" "exception_of r = exception_of c"
    by (auto simp: finish_job_def Let_def exception_of_def split: sum.splits)
  with unchanged_then_step[OF un create_progress_callback_ok[OF c]] show ?thesis by simp
qed

lemma job_ok_none_any: "job_ok ev j None j1 \<Longrightarrow> job_ok ev j r j1"
  by (auto simp: job_ok_def)

lemma step_ok_none_any: "step_ok ev j None j1 \<Longrightarrow> step_ok ev j r j1"
  by (auto simp: step_ok_def intro: job_ok_none_any)

lemma parse_files_and_finish_ok:
  assumes "parse_files_and_finish ev request source path j = (r, j1)"
  shows "step_ok ev j (exception_of r) j1"
proof (cases "path_exists ev path")
  case False
  with assms have "j1 = update_kg_source_status ev source FAILED (Some ''Repository path not found'') None None j"
    by (auto simp: parse_files_and_finish_def Let_def)
  then show ?thesis by (auto intro: unchanged_step update_kg_source_status_unchanged)
next
  case True
  show ?thesis
  proof (cases "read_repository_files ev path (rq_languages request) (rq_max_file_size_kb request)")
    case (Inl msg)
    with assms True have "j1 = j" by (auto simp: parse_files_and_finish_def)
    then show ?thesis by (auto intro: unchanged_step unchanged_refl)
  next
    case (Inr file_contents)
    show ?thesis
    proof (cases "file_contents = []")
      case e: True
      with assms True Inr have
        "j1 = update_kg_source_status ev source FAILED (Some ''No parseable files found'') None None j"
        by (auto simp: parse_files_and_finish_def Let_def)
      then show ?thesis by (auto intro: unchanged_step update_kg_source_status_unchanged)
    next
      case ne: False
      obtain x j' where c: "create_kg_repository ev j = (x, j')" by (metis prod.exhaust)
      note un = create_kg_repository_unchanged(1)[OF c]
      show ?thesis
      proof (cases x)
        case (Inl e)
        with assms True Inr ne c have "j1 = j'" by (auto simp: parse_files_and_finish_def)
        with un show ?thesis by (auto intro: unchanged_step)
      next
        case r: (Inr rid)
        let ?j2 = "j'\<lparr>job_repository_id := Some rid\<rparr>"
        let ?st0 = "\<lparr>processed_files = 0, total_nodes_created = 0,
                                total_relationships_created = 0, failed_files = []\<rparr>"
        have "unchanged j' ?j2" by (simp add: unchanged_def)
        with un have un2: "unchanged j ?j2" by (rule unchanged_trans)
        obtain y j3 where s: "stream_files ev rid (length file_contents) file_contents ?st0 ?j2 = (y, j3)"
          by (metis prod.exhaust)
        note ks = stream_files_ok[OF s]
        have "step_ok ev ?j2 (exception_of r) j1"
        proof (cases y)
          case (Inl e)
          with assms True Inr ne c r s have "j1 = j3" "r = Inl e"
            by (auto simp: parse_files_and_finish_def Let_def)
          with ks Inl show ?thesis by (simp add: exception_of_def)
        next
          case st: (Inr st)
          obtain z j4 where x: "cross_file_phase ev file_contents st j3 = (z, j4)"
            by (metis prod.exhaust)
          note kx = cross_file_phase_ok[OF x]
          from ks st have ks': "step_ok ev ?j2 None j3" by (simp add: exception_of_def)
          show ?thesis
          proof (cases z)
            case (Inl e)
            with assms True Inr ne c r s st x have "j1 = j4" "r = Inl e"
              by (auto simp: parse_files_and_finish_def Let_def)
            with step_ok_seq[OF ks' kx] Inl show ?thesis by (simp add: exception_of_def)
          next
            case st1: (Inr st1)
            with assms True Inr ne c r s st x have
              f: "finish_job ev source (length file_contents) st1 j4 = (r, j1)"
              by (auto simp: parse_files_and_finish_def Let_def)
            from kx st1 have "step_ok ev j3 None j4" by (simp add: exception_of_def)
            from step_ok_seq[OF step_ok_seq[OF ks' this] finish_job_ok[OF f]] show ?thesis .
          qed
        qed
        with un2 show ?thesis by (rule unchanged_then_step)
      qed
    qed
  qed
qed

lemma parse_body_ok:
  assumes "parse_body ev request j = (r, j1)"
  shows "job_ok ev j (exception_of r) j1"
    and "\<And>e. r = Inl e \<Longrightarrow> \<not> is_Exception e \<Longrightarrow> src_ok j1"
proof -
  obtain x j' where c: "create_kg_source ev request j = (x, j')" by (metis prod.exhaust)
  note k = create_kg_source_result[OF c]
  have "job_ok ev j (exception_of r) j1 \<and> (\<forall>e. r = Inl e \<longrightarrow> \<not> is_Exception e \<longrightarrow> src_ok j1)"
  proof (cases x)
    case (Inl e)
    with assms c have "r = Inl e" "j1 = j'" by (auto simp: parse_body_def)
    with k(1) k(3)[OF Inl] show ?thesis by (auto intro: job_ok_none_any)
  next
    case (Inr sid)
    let ?j2 = "j'\<lparr>job_source_id := Some sid\<rparr>"
    from k(4)[OF Inr] have so: "src_ok ?j2" .
    from k(1) have jo: "job_ok ev j None ?j2"
      by (auto simp: job_ok_def cancel_delivered_def probe_fired_iff callback_cancelled_iff)
    obtain c0 j3 where p: "create_progress_callback ev PROCESSING 0 0 None 0 0 [] ?j2 = (c0, j3)"
      by (metis prod.exhaust)
    note kp = create_progress_callback_ok[OF p]
    have st: "step_ok ev ?j2 (exception_of r) j1"
    proof (cases c0)
      case (Inl e)
      with assms c Inr p have "r = Inl e" "j1 = j3" by (auto simp: parse_body_def Let_def)
      with kp Inl show ?thesis by (simp add: exception_of_def)
    next
      case u: (Inr u)
      from kp u have kp': "step_ok ev ?j2 None j3" by (simp add: exception_of_def)
      show ?thesis
      proof (cases "truthy_str (rq_local_path request)")
        case True
        with assms c Inr p u have
          "parse_files_and_finish ev request sid (the (rq_local_path request)) j3 = (r, j1)"
          by (auto simp: parse_body_def Let_def)
        from step_ok_seq[OF kp' parse_files_and_finish_ok[OF this]] show ?thesis .
      next
        case False
        show ?thesis
        proof (cases "truthy_str (rq_repository_url request)")
          case no: False
          with assms c Inr p u False have "j1 = j3" "exception_of r = None"
            by (auto simp: parse_body_def Let_def exception_of_def)
          with kp' show ?thesis by simp
        next
          case True
          obtain d j4 where cl: "clone_repository ev (the (rq_repository_url request))
                         (rq_branch_name request) j3 = (d, j4)" by (metis prod.exhaust)
          note kc = clone_repository_ok[OF cl]
          show ?thesis
          proof (cases d)
            case (Inl e)
            with assms c Inr p u False True cl have "r = Inl e" "j1 = j4"
              by (auto simp: parse_body_def Let_def)
            with step_ok_seq[OF kp' kc] Inl show ?thesis by (simp add: exception_of_def)
          next
            case t: (Inr temp_dir)
            let ?j5 = "j4\<lparr>job_cloned_temp_dir := Some temp_dir\<rparr>"
            from assms c Inr p u False True cl t have
              pf: "parse_files_and_finish ev request sid temp_dir ?j5 = (r, j1)"
              by (auto simp: parse_body_def Let_def)
            from kc t have "step_ok ev j3 None j4" by (simp add: exception_of_def)
            moreover have "unchanged j4 ?j5" by (simp add: unchanged_def)
            ultimately have "step_ok ev j3 None ?j5" by (rule step_ok_then_unchanged)
            from step_ok_seq[OF step_ok_seq[OF kp' this] parse_files_and_finish_ok[OF pf]]
            show ?thesis .
          qed
        qed
      qed
    qed
    from st so have "src_ok j1" by (simp add: step_ok_def)
    moreover from st have "job_ok ev ?j2 (exception_of r) j1" by (simp add: step_ok_def)
    from job_ok_seq[OF jo this] have "job_ok ev j (exception_of r) j1" .
    ultimately show ?thesis by simp
  qed
  then show "job_ok ev j (exception_of r) j1"
    and "\<And>e. r = Inl e \<Longrightarrow> \<not> is_Exception e \<Longrightarrow> src_ok j1" by auto
qed

lemma not_Exception_iff: "\<not> is_Exception e \<longleftrightarrow> (\<exists>m. e = CancelledError m)"
  by (cases e) auto

lemma cancel_handler:
  assumes so: "src_ok j1"
  shows "\<exists>source. job_source_id j1 = Some source
           \<and> events (update_kg_source_status ev source FAILED
                       (Some ''Parsing was cancelled by user'') None None j1) = events j1
           \<and> (\<not> db_fails ev (db_calls j1) \<longrightarrow>
                 (\<exists>row. source_row (update_kg_source_status ev source FAILED
                                      (Some ''Parsing was cancelled by user'') None None j1)
                          = Some row
                        \<and> src_parsing_status row = FAILED
                        \<and> src_parsing_error row = Some ''Parsing was cancelled by user''))"
proof -
  from so obtain source row where s: "job_source_id j1 = Some source" "source_row j1 = Some row"
    "src_id row = source"
    by (auto simp: src_ok_def split: option.splits)
  have "events (update_kg_source_status ev source FAILED
                       (Some ''Parsing was cancelled by user'') None None j1) = events j1"
    using update_kg_source_status_unchanged[of j1 ev source] by (simp add: unchanged_def)
  moreover have "\<exists>row. source_row (update_kg_source_status ev source FAILED
                                      (Some ''Parsing was cancelled by user'') None None j1)
                          = Some row
                        \<and> src_parsing_status row = FAILED
                        \<and> src_parsing_error row = Some ''Parsing was cancelled by user''"
    if "\<not> db_fails ev (db_calls j1)"
    using that s by (simp add: update_kg_source_status_def db_request_def truthy_str_def)
  ultimately show ?thesis using s(1) by blast
qed

text \<open>
  Claim C6.  Let the \<open>try\<close> body of \<open>parse_repository\<close> end in the job \<open>j1\<close>.  If a
  cancellation was delivered on the way, by a probe call that found the task cancelled or
  by the progress callback raising a \<open>CancelledError\<close>, then the body was left by a
  \<open>CancelledError\<close>: none of the handlers \<open>except Exception\<close> of the parser, of the loop
  over the files, of the cross-file phase and of the clone holds it back.  And if the body
  was left by a \<open>CancelledError\<close>, then the job returns a failure, the progress events are
  those emitted up to that moment, and the source row, whose update the store accepts, has
  the status \<open>failed\<close> and the error \<open>Parsing was cancelled by user\<close>.
\<close>

theorem cancelled_job:
  "parse_body ev request j = (r, j1) \<Longrightarrow>
   service_parse_repository ev request j = (result, j2) \<Longrightarrow>
     (cancel_delivered ev j j1 \<longrightarrow> (\<exists>m. r = Inl (CancelledError m)))
     \<and> ((\<exists>m. r = Inl (CancelledError m)) \<longrightarrow>
          \<not> pr_success result
          \<and> pr_error result = Some ''Operation was cancelled by user''
          \<and> events j2 = events j1
          \<and> (\<not> db_fails ev (db_calls j1) \<longrightarrow>
               (\<exists>row. source_row j2 = Some row
                      \<and> src_parsing_status row = FAILED
                      \<and> src_parsing_error row = Some ''Parsing was cancelled by user'')))"
proof -
  assume pb: "parse_body ev request j = (r, j1)"
    and sp: "service_parse_repository ev request j = (result, j2)"
  have part1: "\<exists>m. r = Inl (CancelledError m)" if cd: "cancel_delivered ev j j1"
  proof -
    from parse_body_ok(1)[OF pb] cd
    have "case exception_of r of Some e \<Rightarrow> \<not> is_Exception e | None \<Rightarrow> False"
      by (simp add: job_ok_def)
    then show ?thesis
      by (cases r) (auto simp: exception_of_def not_Exception_iff)
  qed
  have part2: "\<not> pr_success result
          \<and> pr_error result = Some ''Operation was cancelled by user''
          \<and> events j2 = events j1
          \<and> (\<not> db_fails ev (db_calls j1) \<longrightarrow>
               (\<exists>row. source_row j2 = Some row
                      \<and> src_parsing_status row = FAILED
                      \<and> src_parsing_error row = Some ''Parsing was cancelled by user''))"
    if c: "\<exists>m. r = Inl (CancelledError m)"
  proof -
    from c obtain m where r: "r = Inl (CancelledError m)" by blast
    from parse_body_ok(2)[OF pb r] have so: "src_ok j1" by simp
    from cancel_handler[OF so, of ev] obtain source where
      s: "job_source_id j1 = Some source"
      and h: "events (update_kg_source_status ev source FAILED
                       (Some ''Parsing was cancelled by user'') None None j1) = events j1"
        "\<not> db_fails ev (db_calls j1) \<longrightarrow>
                 (\<exists>row. source_row (update_kg_source_status ev source FAILED
                                      (Some ''Parsing was cancelled by user'') None None j1)
                          = Some row
                        \<and> src_parsing_status row = FAILED
                        \<and> src_parsing_error row = Some ''Parsing was cancelled by user'')"
      by blast
    from sp pb r s have
      j2: "j2 = update_kg_source_status ev source FAILED
                       (Some ''Parsing was cancelled by user'') None None j1"
      and res: "result = failure j2 ''Operation was cancelled by user''"
      by (auto simp: service_parse_repository_def Let_def)
    from res have "\<not> pr_success result" "pr_error result = Some ''Operation was cancelled by user''"
      by (simp_all add: failure_def)
    with h j2 show ?thesis by simp
  qed
  from part1 part2 show ?thesis by blast
qed

theorem cancelled_job_witness:
  "cancel_delivered cancelling_callback_env new_job
     (snd (parse_body cancelling_callback_env local_request new_job))
   \<and> \<not> db_fails cancelling_callback_env
         (db_calls (snd (parse_body cancelling_callback_env local_request new_job)))
   \<and> fst (parse_body cancelling_callback_env local_request new_job) = Inl (CancelledError [])
   \<and> events (snd (service_parse_repository cancelling_callback_env local_request new_job))
       = events (snd (parse_body cancelling_callback_env local_request new_job))
   \<and> (\<exists>row. source_row (snd (service_parse_repository cancelling_callback_env local_request
                                new_job)) = Some row
             \<and> src_parsing_status row = FAILED
             \<and> src_parsing_error row = Some ''Parsing was cancelled by user'')
   \<and> cancel_delivered cancelling_probe_env new_job
         (snd (parse_body cancelling_probe_env local_request new_job))
   \<and> fst (parse_body cancelling_probe_env local_request new_job)
       = Inl (CancelledError ''Parsing was cancelled'')
   \<and> (\<exists>row. source_row (snd (service_parse_repository cancelling_probe_env local_request
                                new_job)) = Some row
             \<and> src_parsing_status row = FAILED
             \<and> src_parsing_error row = Some ''Parsing was cancelled by user'')"
proof -
  let ?E = cancelling_callback_env and ?P = cancelling_probe_env
  obtain r j1 where pb: "parse_body ?E local_request new_job = (r, j1)" by (metis prod.exhaust)
  obtain result j2 where sp: "service_parse_repository ?E local_request new_job = (result, j2)"
    by (metis prod.exhaust)
  have cd: "cancel_delivered ?E new_job (snd (parse_body ?E local_request new_job))"
    by code_simp
  have db: "\<not> db_fails ?E (db_calls (snd (parse_body ?E local_request new_job)))"
    by (simp add: cancelling_callback_env_def local_env_def)
  have r: "fst (parse_body ?E local_request new_job) = Inl (CancelledError [])"
    by code_simp
  from cancelled_job[OF pb sp] cd db pb r have
    a: "events j2 = events j1
        \<and> (\<exists>row. source_row j2 = Some row \<and> src_parsing_status row = FAILED
                  \<and> src_parsing_error row = Some ''Parsing was cancelled by user'')"
    by auto
  obtain r' j1' where pb': "parse_body ?P local_request new_job = (r', j1')"
    by (metis prod.exhaust)
  obtain result' j2' where sp': "service_parse_repository ?P local_request new_job = (result', j2')"
    by (metis prod.exhaust)
  have cd': "cancel_delivered ?P new_job (snd (parse_body ?P local_request new_job))"
    by code_simp
  have db': "\<not> db_fails ?P (db_calls (snd (parse_body ?P local_request new_job)))"
    by (simp add: cancelling_probe_env_def local_env_def)
  have r': "fst (parse_body ?P local_request new_job) = Inl (CancelledError ''Parsing was cancelled'')"
    by code_simp
  from cancelled_job[OF pb' sp'] cd' db' pb' have
    b: "\<exists>row. source_row j2' = Some row \<and> src_parsing_status row = FAILED
                  \<and> src_parsing_error row = Some ''Parsing was cancelled by user''"
    by auto
  from cd db r a pb sp cd' r' b pb' sp' show ?thesis by simp
qed


end
